theory Spec2Isabelle
  imports Complex_Main "HOL-Library.AList"
begin

section \<open>Values, dictionaries and stored documents\<close>

text \<open>
  The backend keeps every resource in a MongoDB collection and handles records as
  Python dictionaries.  A dictionary is an association list in insertion order, written
  to with \<open>AList.update\<close> (an existing key keeps its place, a new key goes to the end, as
  in Python) and read with \<open>map_of\<close>.  Field values are the Python values the models of
  \<^verbatim>\<open>models.py\<close> admit.  A string is a list of characters, one per code point below 256; a
  \<^verbatim>\<open>datetime\<close> is a point on an integer time line.
\<close>

datatype val =
    VNone
  | VBool bool
  | VInt int
  | VStr string
  | VDate int
  | VList "string list"

type_synonym pydict = "(string \<times> val) list"

text \<open>
  A stored document: the store's own object id (\<^verbatim>\<open>_id\<close>, kept as its string form) and the
  remaining fields.
\<close>

record sdoc =
  oid :: string
  doc_fields :: pydict

type_synonym collection = "sdoc list"

datatype error =
    ValueError
  | ZeroDivisionError
  | KeyError string
  | TypeError
  | AttributeError
  | OperationFailure
  | OverflowError
  | RequestValidationError
  | HTTPException nat string

section \<open>The document store\<close>

text \<open>
  The operations of the driver that \<^verbatim>\<open>database.py\<close> calls.  A collection is the list of its
  documents in natural order.  A query is a conjunction of field conditions: equality
  (\<^verbatim>\<open>{'status': 'Active'}\<close>; an array field matches when it contains the string) and
  \<^verbatim>\<open>{'$gte': date}\<close>, which only a date can meet.
\<close>

datatype cond = Eq val | Gte val

type_synonym query = "(string \<times> cond) list"

fun cond_holds :: "cond \<Rightarrow> val option \<Rightarrow> bool" where
  "cond_holds (Eq (VStr s)) (Some (VList xs)) = (s \<in> set xs)"
| "cond_holds (Eq v) x = (x = Some v)"
| "cond_holds (Gte (VDate t)) (Some (VDate u)) = (t \<le> u)"
| "cond_holds (Gte v) x = False"

definition matches :: "query \<Rightarrow> sdoc \<Rightarrow> bool" where
  "matches q d = list_all (\<lambda>(k, c). cond_holds c (map_of (doc_fields d) k)) q"

definition find_docs :: "query \<Rightarrow> collection \<Rightarrow> collection" where
  "find_docs q c = filter (matches q) c"

definition count_documents :: "query \<Rightarrow> collection \<Rightarrow> int" where
  "count_documents q c = int (length (filter (matches q) c))"

definition find_one :: "query \<Rightarrow> collection \<Rightarrow> sdoc option" where
  "find_one q c = List.find (matches q) c"

text \<open>
  Sorting compares the sort key of two documents: values of different kinds by the
  rank of their kind (a missing field ranks with \<^verbatim>\<open>None\<close>, then numbers, strings, arrays,
  booleans, dates), values of one kind by their own order.  Documents with equal keys
  keep their relative order.
\<close>

fun bson_rank :: "val option \<Rightarrow> nat" where
  "bson_rank None = 1"
| "bson_rank (Some VNone) = 1"
| "bson_rank (Some (VInt i)) = 2"
| "bson_rank (Some (VStr s)) = 3"
| "bson_rank (Some (VList xs)) = 5"
| "bson_rank (Some (VBool b)) = 8"
| "bson_rank (Some (VDate t)) = 9"

definition char_less :: "char \<Rightarrow> char \<Rightarrow> bool" where
  "char_less a b = ((of_char a :: nat) < of_char b)"

fun same_rank_less :: "val option \<Rightarrow> val option \<Rightarrow> bool" where
  "same_rank_less (Some (VInt i)) (Some (VInt j)) = (i < j)"
| "same_rank_less (Some (VStr s)) (Some (VStr t)) = lexordp char_less s t"
| "same_rank_less (Some (VList xs)) (Some (VList ys)) = lexordp (lexordp char_less) xs ys"
| "same_rank_less (Some (VBool a)) (Some (VBool b)) = (\<not> a \<and> b)"
| "same_rank_less (Some (VDate t)) (Some (VDate u)) = (t < u)"
| "same_rank_less x y = False"

definition bson_less :: "val option \<Rightarrow> val option \<Rightarrow> bool" where
  "bson_less x y =
     (bson_rank x < bson_rank y \<or> (bson_rank x = bson_rank y \<and> same_rank_less x y))"

fun insert_doc :: "(sdoc \<Rightarrow> sdoc \<Rightarrow> bool) \<Rightarrow> sdoc \<Rightarrow> collection \<Rightarrow> collection" where
  "insert_doc lt x [] = [x]"
| "insert_doc lt x (y # ys) = (if lt y x then y # insert_doc lt x ys else x # y # ys)"

definition cursor_sort :: "string \<Rightarrow> int \<Rightarrow> collection \<Rightarrow> collection" where
  "cursor_sort key direction c =
     foldr (insert_doc (\<lambda>a b.
        if direction < 0 then bson_less (map_of (doc_fields b) key) (map_of (doc_fields a) key)
        else bson_less (map_of (doc_fields a) key) (map_of (doc_fields b) key))) c []"

text \<open>
  \<^verbatim>\<open>skip\<close> refuses a negative count, \<^verbatim>\<open>limit(0)\<close> is no limit, and \<^verbatim>\<open>to_list\<close> refuses a negative
  length.
\<close>

definition cursor_skip :: "int \<Rightarrow> collection \<Rightarrow> error + collection" where
  "cursor_skip n c = (if n < 0 then Inl ValueError else Inr (drop (nat n) c))"

definition cursor_limit :: "int \<Rightarrow> collection \<Rightarrow> collection" where
  "cursor_limit n c = (if n = 0 then c else take (nat \<bar>n\<bar>) c)"

definition to_list :: "int \<Rightarrow> collection \<Rightarrow> error + collection" where
  "to_list n c = (if n < 0 then Inl ValueError else Inr (take (nat n) c))"

text \<open>
  The query goes to the server when the documents are asked for.  The driver encodes an
  integer in at most eight bytes and raises \<^verbatim>\<open>OverflowError\<close> for one outside that range;
  the command carries the skip and the absolute value of the limit.
\<close>

definition bson_int :: "int \<Rightarrow> bool" where
  "bson_int n \<longleftrightarrow> - (2 ^ 63) \<le> n \<and> n \<le> 2 ^ 63 - 1"

definition send_find :: "int \<Rightarrow> int \<Rightarrow> collection \<Rightarrow> error + collection" where
  "send_find skip limit docs =
     (if bson_int skip \<and> bson_int \<bar>limit\<bar> then Inr docs else Inl OverflowError)"

text \<open>\<^verbatim>\<open>doc['_id'] = str(doc['_id'])\<close> on a fetched document.\<close>

definition stringify_id :: "sdoc \<Rightarrow> pydict" where
  "stringify_id d = (''_id'', VStr (oid d)) # doc_fields d"

text \<open>The collections of \<^verbatim>\<open>database.py\<close>.\<close>

record db =
  programs_collection :: collection
  contacts_collection :: collection
  admins_collection :: collection
  news_collection :: collection
  partnerships_collection :: collection
  team_collection :: collection
  events_collection :: collection
  gallery_collection :: collection
  faqs_collection :: collection
  static_content_collection :: collection

section \<open>List operations with pagination\<close>

text \<open>The dictionary every paginated list operation returns.\<close>

record paginated =
  items :: "pydict list"
  total :: int
  page :: int
  pageSize :: int
  totalPages :: int

text \<open>
  The chain \<^verbatim>\<open>find(query).sort(key, dir).skip(skip).limit(page_size).to_list(page_size)\<close>,
  followed by the envelope: the cursor methods check their arguments, then the query is
  sent.  \<^verbatim>\<open>//\<close> is floor division and raises on a zero divisor.
\<close>

definition fetch_page :: "query \<Rightarrow> string \<Rightarrow> int \<Rightarrow> int \<Rightarrow> int \<Rightarrow> collection \<Rightarrow> error + collection" where
  "fetch_page q key direction skip page_size c =
     (case cursor_skip skip (cursor_sort key direction (find_docs q c)) of
        Inl e \<Rightarrow> Inl e
      | Inr skipped \<Rightarrow>
          (case to_list page_size (cursor_limit page_size skipped) of
             Inl e \<Rightarrow> Inl e
           | Inr docs \<Rightarrow> send_find skip page_size docs))"

definition floordiv :: "int \<Rightarrow> int \<Rightarrow> error + int" where
  "floordiv a b = (if b = 0 then Inl ZeroDivisionError else Inr (a div b))"

definition program_ids :: "sdoc \<Rightarrow> pydict" where
  "program_ids d =
     (let program = stringify_id d
      in if map_of program ''id'' = None
         then AList.update ''id'' (VStr (oid d)) program else program)"

definition get_programs :: "bool \<Rightarrow> int \<Rightarrow> int \<Rightarrow> db \<Rightarrow> error + paginated" where
  "get_programs active_only page_no page_size s =
     (let q = (if active_only then [(''status'', Eq (VStr ''Active''))] else []);
          n_total = count_documents q (programs_collection s);
          skip = (page_no - 1) * page_size
      in case fetch_page q ''createdAt'' (- 1) skip page_size (programs_collection s) of
           Inl e \<Rightarrow> Inl e
         | Inr programs \<Rightarrow>
             (case floordiv (n_total + page_size - 1) page_size of
                Inl e \<Rightarrow> Inl e
              | Inr pages \<Rightarrow>
                  Inr \<lparr>items = map program_ids programs, total = n_total,
                       page = page_no, pageSize = page_size, totalPages = pages\<rparr>))"

text \<open>\<^verbatim>\<open>if value: query[key] = value\<close> for an optional string: \<^verbatim>\<open>None\<close> and \<^verbatim>\<open>''\<close> add nothing.\<close>

definition str_filter :: "string \<Rightarrow> string option \<Rightarrow> query" where
  "str_filter key v = (case v of None \<Rightarrow> [] | Some x \<Rightarrow> if x = [] then [] else [(key, Eq (VStr x))])"

definition get_news :: "string option \<Rightarrow> int \<Rightarrow> int \<Rightarrow> bool \<Rightarrow> db \<Rightarrow> error + paginated" where
  "get_news category page_no page_size featured_only s =
     (let q = str_filter ''category'' category
              @ (if featured_only then [(''featured'', Eq (VBool True))] else []);
          n_total = count_documents q (news_collection s);
          skip = (page_no - 1) * page_size
      in case fetch_page q ''date'' (- 1) skip page_size (news_collection s) of
           Inl e \<Rightarrow> Inl e
         | Inr news_list \<Rightarrow>
             (case floordiv (n_total + page_size - 1) page_size of
                Inl e \<Rightarrow> Inl e
              | Inr pages \<Rightarrow>
                  Inr \<lparr>items = map stringify_id news_list, total = n_total,
                       page = page_no, pageSize = page_size, totalPages = pages\<rparr>))"

definition get_partnerships ::
  "string option \<Rightarrow> string option \<Rightarrow> int \<Rightarrow> int \<Rightarrow> db \<Rightarrow> error + paginated" where
  "get_partnerships ptype country page_no page_size s =
     (let q = str_filter ''type'' ptype @ str_filter ''country'' country;
          n_total = count_documents q (partnerships_collection s);
          skip = (page_no - 1) * page_size
      in case fetch_page q ''partnerName'' 1 skip page_size (partnerships_collection s) of
           Inl e \<Rightarrow> Inl e
         | Inr partnerships \<Rightarrow>
             (case floordiv (n_total + page_size - 1) page_size of
                Inl e \<Rightarrow> Inl e
              | Inr pages \<Rightarrow>
                  Inr \<lparr>items = map stringify_id partnerships, total = n_total,
                       page = page_no, pageSize = page_size, totalPages = pages\<rparr>))"

definition get_events :: "int \<Rightarrow> string option \<Rightarrow> int \<Rightarrow> int \<Rightarrow> bool \<Rightarrow> db \<Rightarrow> error + paginated" where
  "get_events now etype page_no page_size upcoming_only s =
     (let q = str_filter ''type'' etype
              @ (if upcoming_only then [(''startDate'', Gte (VDate now))] else []);
          n_total = count_documents q (events_collection s);
          skip = (page_no - 1) * page_size
      in case fetch_page q ''startDate'' (- 1) skip page_size (events_collection s) of
           Inl e \<Rightarrow> Inl e
         | Inr events \<Rightarrow>
             (case floordiv (n_total + page_size - 1) page_size of
                Inl e \<Rightarrow> Inl e
              | Inr pages \<Rightarrow>
                  Inr \<lparr>items = map stringify_id events, total = n_total,
                       page = page_no, pageSize = page_size, totalPages = pages\<rparr>))"

definition get_gallery_images :: "string option \<Rightarrow> int \<Rightarrow> int \<Rightarrow> db \<Rightarrow> error + paginated" where
  "get_gallery_images category page_no page_size s =
     (let q = str_filter ''category'' category;
          n_total = count_documents q (gallery_collection s);
          skip = (page_no - 1) * page_size
      in case fetch_page q ''uploadDate'' (- 1) skip page_size (gallery_collection s) of
           Inl e \<Rightarrow> Inl e
         | Inr images \<Rightarrow>
             (case floordiv (n_total + page_size - 1) page_size of
                Inl e \<Rightarrow> Inl e
              | Inr pages \<Rightarrow>
                  Inr \<lparr>items = map stringify_id images, total = n_total,
                       page = page_no, pageSize = page_size, totalPages = pages\<rparr>))"

subsection \<open>The public route of the programs list\<close>

text \<open>
  \<^verbatim>\<open>GET /programs\<close>: the framework refuses \<^verbatim>\<open>page < 1\<close> and a \<^verbatim>\<open>page_size\<close> outside 1..100
  before the handler runs; the handler turns every exception of the list operation into
  the response 500.
\<close>

definition get_programs_route :: "int \<Rightarrow> int \<Rightarrow> db \<Rightarrow> error + paginated" where
  "get_programs_route page_no page_size s =
     (if page_no < 1 \<or> page_size < 1 \<or> 100 < page_size then Inl RequestValidationError
      else case get_programs True page_no page_size s of
             Inl e \<Rightarrow> Inl (HTTPException 500 ''Internal server error'')
           | Inr result \<Rightarrow> Inr result)"

subsection \<open>List operations without pagination\<close>

text \<open>
  Team members, FAQs and static content (and contacts, below) take no page: each returns
  the list of the documents read, up to a fixed number of them.
\<close>

definition get_team_members :: "db \<Rightarrow> pydict list" where
  "get_team_members s = map stringify_id (take 100 (cursor_sort ''order'' 1 (find_docs [] (team_collection s))))"

definition get_faqs :: "string option \<Rightarrow> db \<Rightarrow> pydict list" where
  "get_faqs category s =
     (let q = str_filter ''category'' category
      in map stringify_id (take 500 (cursor_sort ''order'' 1 (find_docs q (faqs_collection s)))))"

definition get_static_content :: "string option \<Rightarrow> db \<Rightarrow> pydict list" where
  "get_static_content sect s =
     (let q = str_filter ''section'' sect
      in map stringify_id (take 100 (find_docs q (static_content_collection s))))"

text \<open>
  What the pagination contract asks of an envelope, given the documents that match the
  filter, in sorted order: \<^verbatim>\<open>documents[(page-1)*pageSize : page*pageSize]\<close> is \<open>py_slice\<close>.
\<close>

definition py_slice :: "int \<Rightarrow> int \<Rightarrow> 'a list \<Rightarrow> 'a list" where
  "py_slice a b xs = drop (nat a) (take (nat b) xs)"

definition page_contract :: "int \<Rightarrow> int \<Rightarrow> pydict list \<Rightarrow> paginated \<Rightarrow> bool" where
  "page_contract page_no page_size documents r \<longleftrightarrow>
     total r = int (length documents) \<and>
     totalPages r = \<lceil>real_of_int (total r) / real_of_int page_size\<rceil> \<and>
     items r = py_slice ((page_no - 1) * page_size) (page_no * page_size) documents \<and>
     int (length (items r)) = min page_size (max 0 (total r - (page_no - 1) * page_size)) \<and>
     page r = page_no \<and> pageSize r = page_size"

section \<open>Point operations of the repository\<close>

text \<open>
  \<^verbatim>\<open>update_one(filter, {'$set': update_data})\<close> rewrites the first matching document and
  reports in \<^verbatim>\<open>modified_count\<close> whether it changed (a \<^verbatim>\<open>$set\<close> that leaves every value as it
  was modifies nothing); \<^verbatim>\<open>delete_one\<close> removes the first matching document;
  \<^verbatim>\<open>insert_one\<close> appends a document under a new object id.
\<close>

definition set_fields :: "pydict \<Rightarrow> pydict \<Rightarrow> pydict" where
  "set_fields update_data d = fold (\<lambda>(k, v). AList.update k v) update_data d"

fun update_one :: "query \<Rightarrow> pydict \<Rightarrow> collection \<Rightarrow> collection \<times> nat" where
  "update_one q update_data [] = ([], 0)"
| "update_one q update_data (d # ds) =
     (if matches q d
      then (d\<lparr>doc_fields := set_fields update_data (doc_fields d)\<rparr> # ds,
            if set_fields update_data (doc_fields d) = doc_fields d then 0 else 1)
      else (case update_one q update_data ds of (ds', n) \<Rightarrow> (d # ds', n)))"

fun delete_one :: "query \<Rightarrow> collection \<Rightarrow> collection \<times> nat" where
  "delete_one q [] = ([], 0)"
| "delete_one q (d # ds) =
     (if matches q d then (ds, 1)
      else (case delete_one q ds of (ds', n) \<Rightarrow> (d # ds', n)))"

definition insert_one :: "string \<Rightarrow> pydict \<Rightarrow> collection \<Rightarrow> collection" where
  "insert_one new_oid data c = c @ [\<lparr>oid = new_oid, doc_fields = data\<rparr>]"

text \<open>\<^verbatim>\<open>{k: v for k, v in update_data.items() if v is not None}\<close>\<close>

definition drop_none :: "pydict \<Rightarrow> pydict" where
  "drop_none update_data = filter (\<lambda>(k, v). v \<noteq> VNone) update_data"

subsection \<open>Programs\<close>

definition get_program_by_id :: "string \<Rightarrow> db \<Rightarrow> pydict option" where
  "get_program_by_id program_id s =
     map_option stringify_id (find_one [(''id'', Eq (VStr program_id))] (programs_collection s))"

definition update_program :: "int \<Rightarrow> string \<Rightarrow> pydict \<Rightarrow> db \<Rightarrow> pydict option \<times> db" where
  "update_program now program_id update_data s =
     (let stamped = AList.update ''updatedAt'' (VDate now) update_data;
          applied = drop_none stamped
      in case update_one [(''id'', Eq (VStr program_id))] applied (programs_collection s) of
           (c, modified_count) \<Rightarrow>
             (let s' = s\<lparr>programs_collection := c\<rparr>
              in if modified_count \<noteq> 0 then (get_program_by_id program_id s', s')
                 else (None, s')))"

definition delete_program :: "string \<Rightarrow> db \<Rightarrow> bool \<times> db" where
  "delete_program program_id s =
     (case delete_one [(''id'', Eq (VStr program_id))] (programs_collection s) of
        (c, deleted_count) \<Rightarrow> (deleted_count > 0, s\<lparr>programs_collection := c\<rparr>))"

subsection \<open>News\<close>

definition get_news_by_id :: "string \<Rightarrow> db \<Rightarrow> pydict option" where
  "get_news_by_id news_id s =
     map_option stringify_id (find_one [(''id'', Eq (VStr news_id))] (news_collection s))"

definition update_news :: "int \<Rightarrow> string \<Rightarrow> pydict \<Rightarrow> db \<Rightarrow> pydict option \<times> db" where
  "update_news now news_id update_data s =
     (let stamped = AList.update ''updatedAt'' (VDate now) update_data;
          applied = drop_none stamped
      in case update_one [(''id'', Eq (VStr news_id))] applied (news_collection s) of
           (c, modified_count) \<Rightarrow>
             (let s' = s\<lparr>news_collection := c\<rparr>
              in if modified_count \<noteq> 0 then (get_news_by_id news_id s', s')
                 else (None, s')))"

definition delete_news :: "string \<Rightarrow> db \<Rightarrow> bool \<times> db" where
  "delete_news news_id s =
     (case delete_one [(''id'', Eq (VStr news_id))] (news_collection s) of
        (c, deleted_count) \<Rightarrow> (deleted_count > 0, s\<lparr>news_collection := c\<rparr>))"

subsection \<open>Partnerships\<close>

definition get_partnership_by_id :: "string \<Rightarrow> db \<Rightarrow> pydict option" where
  "get_partnership_by_id partnership_id s =
     map_option stringify_id
       (find_one [(''id'', Eq (VStr partnership_id))] (partnerships_collection s))"

definition update_partnership :: "int \<Rightarrow> string \<Rightarrow> pydict \<Rightarrow> db \<Rightarrow> pydict option \<times> db" where
  "update_partnership now partnership_id update_data s =
     (let stamped = AList.update ''updatedAt'' (VDate now) update_data;
          applied = drop_none stamped
      in case update_one [(''id'', Eq (VStr partnership_id))] applied (partnerships_collection s) of
           (c, modified_count) \<Rightarrow>
             (let s' = s\<lparr>partnerships_collection := c\<rparr>
              in if modified_count \<noteq> 0 then (get_partnership_by_id partnership_id s', s')
                 else (None, s')))"

definition delete_partnership :: "string \<Rightarrow> db \<Rightarrow> bool \<times> db" where
  "delete_partnership partnership_id s =
     (case delete_one [(''id'', Eq (VStr partnership_id))] (partnerships_collection s) of
        (c, deleted_count) \<Rightarrow> (deleted_count > 0, s\<lparr>partnerships_collection := c\<rparr>))"

subsection \<open>Team members\<close>

text \<open>
  \<^verbatim>\<open>create_team_member\<close>: the new logical id (a random UUID) and the object id the store
  assigns are parameters; the function stamps the record and returns it with \<^verbatim>\<open>_id\<close>.
\<close>

definition create_team_member :: "string \<Rightarrow> string \<Rightarrow> int \<Rightarrow> pydict \<Rightarrow> db \<Rightarrow> pydict \<times> db" where
  "create_team_member new_id new_oid now team_data s =
     (let d1 = AList.update ''id'' (VStr new_id) team_data;
          d2 = AList.update ''createdAt'' (VDate now) d1;
          d3 = AList.update ''updatedAt'' (VDate now) d2
      in (AList.update ''_id'' (VStr new_oid) d3,
          s\<lparr>team_collection := insert_one new_oid d3 (team_collection s)\<rparr>))"

definition get_team_member_by_id :: "string \<Rightarrow> db \<Rightarrow> pydict option" where
  "get_team_member_by_id member_id s =
     map_option stringify_id (find_one [(''id'', Eq (VStr member_id))] (team_collection s))"

definition update_team_member :: "int \<Rightarrow> string \<Rightarrow> pydict \<Rightarrow> db \<Rightarrow> pydict option \<times> db" where
  "update_team_member now member_id update_data s =
     (let stamped = AList.update ''updatedAt'' (VDate now) update_data;
          applied = drop_none stamped
      in case update_one [(''id'', Eq (VStr member_id))] applied (team_collection s) of
           (c, modified_count) \<Rightarrow>
             (let s' = s\<lparr>team_collection := c\<rparr>
              in if modified_count \<noteq> 0 then (get_team_member_by_id member_id s', s')
                 else (None, s')))"

definition delete_team_member :: "string \<Rightarrow> db \<Rightarrow> bool \<times> db" where
  "delete_team_member member_id s =
     (case delete_one [(''id'', Eq (VStr member_id))] (team_collection s) of
        (c, deleted_count) \<Rightarrow> (deleted_count > 0, s\<lparr>team_collection := c\<rparr>))"

subsection \<open>Events\<close>

definition get_event_by_id :: "string \<Rightarrow> db \<Rightarrow> pydict option" where
  "get_event_by_id event_id s =
     map_option stringify_id (find_one [(''id'', Eq (VStr event_id))] (events_collection s))"

definition update_event :: "int \<Rightarrow> string \<Rightarrow> pydict \<Rightarrow> db \<Rightarrow> pydict option \<times> db" where
  "update_event now event_id update_data s =
     (let stamped = AList.update ''updatedAt'' (VDate now) update_data;
          applied = drop_none stamped
      in case update_one [(''id'', Eq (VStr event_id))] applied (events_collection s) of
           (c, modified_count) \<Rightarrow>
             (let s' = s\<lparr>events_collection := c\<rparr>
              in if modified_count \<noteq> 0 then (get_event_by_id event_id s', s')
                 else (None, s')))"

definition delete_event :: "string \<Rightarrow> db \<Rightarrow> bool \<times> db" where
  "delete_event event_id s =
     (case delete_one [(''id'', Eq (VStr event_id))] (events_collection s) of
        (c, deleted_count) \<Rightarrow> (deleted_count > 0, s\<lparr>events_collection := c\<rparr>))"

subsection \<open>Gallery images\<close>

definition create_gallery_image :: "string \<Rightarrow> string \<Rightarrow> int \<Rightarrow> pydict \<Rightarrow> db \<Rightarrow> pydict \<times> db" where
  "create_gallery_image new_id new_oid now image_data s =
     (let d1 = AList.update ''id'' (VStr new_id) image_data;
          d2 = AList.update ''uploadDate'' (VDate now) d1
      in (AList.update ''_id'' (VStr new_oid) d2,
          s\<lparr>gallery_collection := insert_one new_oid d2 (gallery_collection s)\<rparr>))"

definition get_gallery_image_by_id :: "string \<Rightarrow> db \<Rightarrow> pydict option" where
  "get_gallery_image_by_id image_id s =
     map_option stringify_id (find_one [(''id'', Eq (VStr image_id))] (gallery_collection s))"

definition delete_gallery_image :: "string \<Rightarrow> db \<Rightarrow> bool \<times> db" where
  "delete_gallery_image image_id s =
     (case delete_one [(''id'', Eq (VStr image_id))] (gallery_collection s) of
        (c, deleted_count) \<Rightarrow> (deleted_count > 0, s\<lparr>gallery_collection := c\<rparr>))"

text \<open>No time stamp here, and both branches end in the same re-fetch.\<close>

definition update_gallery_image :: "string \<Rightarrow> pydict \<Rightarrow> db \<Rightarrow> pydict option \<times> db" where
  "update_gallery_image image_id update_data s =
     (let applied = drop_none update_data
      in case update_one [(''id'', Eq (VStr image_id))] applied (gallery_collection s) of
           (c, modified_count) \<Rightarrow>
             (let s' = s\<lparr>gallery_collection := c\<rparr>
              in if modified_count \<noteq> 0 then (get_gallery_image_by_id image_id s', s')
                 else (get_gallery_image_by_id image_id s', s')))"

subsection \<open>FAQs\<close>

definition get_faq_by_id :: "string \<Rightarrow> db \<Rightarrow> pydict option" where
  "get_faq_by_id faq_id s =
     map_option stringify_id (find_one [(''id'', Eq (VStr faq_id))] (faqs_collection s))"

definition update_faq :: "int \<Rightarrow> string \<Rightarrow> pydict \<Rightarrow> db \<Rightarrow> pydict option \<times> db" where
  "update_faq now faq_id update_data s =
     (let stamped = AList.update ''updatedAt'' (VDate now) update_data;
          applied = drop_none stamped
      in case update_one [(''id'', Eq (VStr faq_id))] applied (faqs_collection s) of
           (c, modified_count) \<Rightarrow>
             (let s' = s\<lparr>faqs_collection := c\<rparr>
              in if modified_count \<noteq> 0 then (get_faq_by_id faq_id s', s')
                 else (None, s')))"

definition delete_faq :: "string \<Rightarrow> db \<Rightarrow> bool \<times> db" where
  "delete_faq faq_id s =
     (case delete_one [(''id'', Eq (VStr faq_id))] (faqs_collection s) of
        (c, deleted_count) \<Rightarrow> (deleted_count > 0, s\<lparr>faqs_collection := c\<rparr>))"

subsection \<open>Static content, addressed by its key\<close>

text \<open>
  \<^verbatim>\<open>create_static_content\<close> stamps the record with a new logical id and inserts it.  The key
  comes with the data; nothing compares it with the keys already stored.
\<close>

definition create_static_content :: "string \<Rightarrow> string \<Rightarrow> int \<Rightarrow> pydict \<Rightarrow> db \<Rightarrow> pydict \<times> db" where
  "create_static_content new_id new_oid now content_data s =
     (let d1 = AList.update ''id'' (VStr new_id) content_data;
          d2 = AList.update ''createdAt'' (VDate now) d1;
          d3 = AList.update ''updatedAt'' (VDate now) d2
      in (AList.update ''_id'' (VStr new_oid) d3,
          s\<lparr>static_content_collection := insert_one new_oid d3 (static_content_collection s)\<rparr>))"

definition get_static_content_by_key :: "string \<Rightarrow> db \<Rightarrow> pydict option" where
  "get_static_content_by_key key s =
     map_option stringify_id (find_one [(''key'', Eq (VStr key))] (static_content_collection s))"

definition update_static_content :: "int \<Rightarrow> string \<Rightarrow> pydict \<Rightarrow> db \<Rightarrow> pydict option \<times> db" where
  "update_static_content now key update_data s =
     (let stamped = AList.update ''updatedAt'' (VDate now) update_data;
          applied = drop_none stamped
      in case update_one [(''key'', Eq (VStr key))] applied (static_content_collection s) of
           (c, modified_count) \<Rightarrow>
             (let s' = s\<lparr>static_content_collection := c\<rparr>
              in if modified_count \<noteq> 0 then (get_static_content_by_key key s', s')
                 else (None, s')))"

definition delete_static_content :: "string \<Rightarrow> db \<Rightarrow> bool \<times> db" where
  "delete_static_content key s =
     (case delete_one [(''key'', Eq (VStr key))] (static_content_collection s) of
        (c, deleted_count) \<Rightarrow> (deleted_count > 0, s\<lparr>static_content_collection := c\<rparr>))"

subsection \<open>Contacts\<close>

text \<open>
  \<^verbatim>\<open>get_contacts\<close> reads at most 1000 submissions, newest first, and normalises the status
  of each fetched dictionary.  It issues no write; the store it was given is returned
  beside the result so that this can be stated.
\<close>

definition normalize_status :: "pydict \<Rightarrow> pydict" where
  "normalize_status contact =
     (case map_of contact ''status'' of
        Some v \<Rightarrow>
          (if v = VStr ''read'' then AList.update ''status'' (VStr ''Read'') contact
           else if v = VStr ''new'' then AList.update ''status'' (VStr ''New'') contact
           else if v = VStr ''replied'' then AList.update ''status'' (VStr ''Replied'') contact
           else contact)
      | None \<Rightarrow> AList.update ''status'' (VStr ''New'') contact)"

definition contact_view :: "sdoc \<Rightarrow> pydict" where
  "contact_view d =
     (let contact = stringify_id d;
          contact = (if map_of contact ''id'' = None
                     then AList.update ''id'' (VStr (oid d)) contact else contact)
      in normalize_status contact)"

definition get_contacts :: "string option \<Rightarrow> db \<Rightarrow> pydict list \<times> db" where
  "get_contacts form_type s =
     (let q = str_filter ''formType'' form_type;
          contacts = take 1000 (cursor_sort ''createdAt'' (- 1) (find_docs q (contacts_collection s)))
      in (map contact_view contacts, s))"

definition delete_contact :: "string \<Rightarrow> db \<Rightarrow> bool \<times> db" where
  "delete_contact contact_id s =
     (case delete_one [(''id'', Eq (VStr contact_id))] (contacts_collection s) of
        (c, deleted_count) \<Rightarrow> (deleted_count > 0, s\<lparr>contacts_collection := c\<rparr>))"

section \<open>The eight resource types as one family\<close>

text \<open>
  The repository repeats the same operations once per resource type.  To state a
  property of all of them at once, the operations are indexed by the resource type;
  each index selects the function of \<^verbatim>\<open>database.py\<close> of that name.
\<close>

datatype resource =
  Programs | News | Partnerships | Team | Events | Gallery | Faqs | StaticContent

fun collection_of :: "resource \<Rightarrow> db \<Rightarrow> collection" where
  "collection_of Programs s = programs_collection s"
| "collection_of News s = news_collection s"
| "collection_of Partnerships s = partnerships_collection s"
| "collection_of Team s = team_collection s"
| "collection_of Events s = events_collection s"
| "collection_of Gallery s = gallery_collection s"
| "collection_of Faqs s = faqs_collection s"
| "collection_of StaticContent s = static_content_collection s"

fun with_collection :: "resource \<Rightarrow> collection \<Rightarrow> db \<Rightarrow> db" where
  "with_collection Programs c s = s\<lparr>programs_collection := c\<rparr>"
| "with_collection News c s = s\<lparr>news_collection := c\<rparr>"
| "with_collection Partnerships c s = s\<lparr>partnerships_collection := c\<rparr>"
| "with_collection Team c s = s\<lparr>team_collection := c\<rparr>"
| "with_collection Events c s = s\<lparr>events_collection := c\<rparr>"
| "with_collection Gallery c s = s\<lparr>gallery_collection := c\<rparr>"
| "with_collection Faqs c s = s\<lparr>faqs_collection := c\<rparr>"
| "with_collection StaticContent c s = s\<lparr>static_content_collection := c\<rparr>"

text \<open>The field a record is addressed by, and the query that addresses it.\<close>

fun key_field :: "resource \<Rightarrow> string" where
  "key_field StaticContent = ''key''"
| "key_field r = ''id''"

definition by_key :: "resource \<Rightarrow> string \<Rightarrow> query" where
  "by_key r ident = [(key_field r, Eq (VStr ident))]"

fun get_op :: "resource \<Rightarrow> string \<Rightarrow> db \<Rightarrow> pydict option" where
  "get_op Programs = get_program_by_id"
| "get_op News = get_news_by_id"
| "get_op Partnerships = get_partnership_by_id"
| "get_op Team = get_team_member_by_id"
| "get_op Events = get_event_by_id"
| "get_op Gallery = get_gallery_image_by_id"
| "get_op Faqs = get_faq_by_id"
| "get_op StaticContent = get_static_content_by_key"

fun update_op :: "resource \<Rightarrow> int \<Rightarrow> string \<Rightarrow> pydict \<Rightarrow> db \<Rightarrow> pydict option \<times> db" where
  "update_op Programs now = update_program now"
| "update_op News now = update_news now"
| "update_op Partnerships now = update_partnership now"
| "update_op Team now = update_team_member now"
| "update_op Events now = update_event now"
| "update_op Gallery now = update_gallery_image"
| "update_op Faqs now = update_faq now"
| "update_op StaticContent now = update_static_content now"

fun delete_op :: "resource \<Rightarrow> string \<Rightarrow> db \<Rightarrow> bool \<times> db" where
  "delete_op Programs = delete_program"
| "delete_op News = delete_news"
| "delete_op Partnerships = delete_partnership"
| "delete_op Team = delete_team_member"
| "delete_op Events = delete_event"
| "delete_op Gallery = delete_gallery_image"
| "delete_op Faqs = delete_faq"
| "delete_op StaticContent = delete_static_content"

text \<open>Calling one operation \<open>n\<close> times in a row, collecting what each call returns.\<close>

fun repeat_call :: "('s \<Rightarrow> 'r \<times> 's) \<Rightarrow> nat \<Rightarrow> 's \<Rightarrow> 'r list \<times> 's" where
  "repeat_call f 0 s = ([], s)"
| "repeat_call f (Suc n) s =
     (case f s of (r, s') \<Rightarrow> (case repeat_call f n s' of (rs, s'') \<Rightarrow> (r # rs, s'')))"

text \<open>
  The status a contact is to be shown with, in the words of the specification: the
  legacy lower-case values are rewritten to their capitalised forms, a missing status
  reads as new, anything else is shown as stored.
\<close>

definition canonical_status :: "val option \<Rightarrow> val option" where
  "canonical_status st =
     (case st of
        None \<Rightarrow> Some (VStr ''New'')
      | Some v \<Rightarrow>
          if v = VStr ''read'' then Some (VStr ''Read'')
          else if v = VStr ''new'' then Some (VStr ''New'')
          else if v = VStr ''replied'' then Some (VStr ''Replied'')
          else Some v)"

text \<open>
  The body shared by the seven update operations that stamp \<^verbatim>\<open>updatedAt\<close>, over the
  collection and the addressing field of the resource.
\<close>

definition stamped_update ::
  "string \<Rightarrow> int \<Rightarrow> string \<Rightarrow> pydict \<Rightarrow> collection \<Rightarrow> pydict option \<times> collection" where
  "stamped_update key now ident update_data c =
     (let applied = drop_none (AList.update ''updatedAt'' (VDate now) update_data)
      in case update_one [(key, Eq (VStr ident))] applied c of
           (c', modified_count) \<Rightarrow>
             (if modified_count \<noteq> 0
              then map_option stringify_id (find_one [(key, Eq (VStr ident))] c')
              else None, c'))"

text \<open>The fields a stamped update applies: the payload with \<^verbatim>\<open>updatedAt\<close> set, less the \<^verbatim>\<open>None\<close> values.\<close>

definition applied_fields :: "int \<Rightarrow> pydict \<Rightarrow> pydict" where
  "applied_fields now update_data = drop_none (AList.update ''updatedAt'' (VDate now) update_data)"

section \<open>Bearer tokens\<close>

text \<open>
  The JWT library, symbolically.  A bearer string either is no token at all or is a
  token: the algorithm named in its header, its claims, and the key its signature
  verifies under (a token forged or altered by someone without the key verifies under
  no key the server holds).  Of the claims, the gate reads the subject and the expiry,
  a time in seconds.  \<^verbatim>\<open>decode\<close> checks the signature first and the expiry after it; every
  failure other than expiry is an \<^verbatim>\<open>InvalidTokenError\<close>.
\<close>

record claims =
  sub_claim :: "string option"
  exp_claim :: "int option"

record token =
  alg :: string
  payload :: claims
  signed_with :: string

datatype credentials = Malformed | Bearer token

datatype jwt_error = ExpiredSignatureError | InvalidTokenError

definition jwt_encode :: "claims \<Rightarrow> string \<Rightarrow> string \<Rightarrow> credentials" where
  "jwt_encode to_encode key algorithm =
     Bearer \<lparr>alg = algorithm, payload = to_encode, signed_with = key\<rparr>"

definition jwt_decode :: "int \<Rightarrow> credentials \<Rightarrow> string \<Rightarrow> string list \<Rightarrow> jwt_error + claims" where
  "jwt_decode now cred key algorithms =
     (case cred of
        Malformed \<Rightarrow> Inl InvalidTokenError
      | Bearer t \<Rightarrow>
          if alg t \<notin> set algorithms then Inl InvalidTokenError
          else if signed_with t \<noteq> key then Inl InvalidTokenError
          else (case exp_claim (payload t) of
                  None \<Rightarrow> Inr (payload t)
                | Some e \<Rightarrow> if e \<le> now then Inl ExpiredSignatureError else Inr (payload t)))"

definition ALGORITHM :: string where
  "ALGORITHM = ''HS256''"

definition ACCESS_TOKEN_EXPIRE_MINUTES :: int where
  "ACCESS_TOKEN_EXPIRE_MINUTES = 60"

text \<open>
  \<^verbatim>\<open>SECRET_KEY\<close> comes from the environment and is a parameter.  A zero \<^verbatim>\<open>timedelta\<close> is
  falsy, so it gets the default lifetime as \<^verbatim>\<open>None\<close> does.
\<close>

definition create_access_token :: "string \<Rightarrow> int \<Rightarrow> claims \<Rightarrow> int option \<Rightarrow> credentials" where
  "create_access_token secret_key now data expires_delta =
     (let expire = (case expires_delta of
                      None \<Rightarrow> now + ACCESS_TOKEN_EXPIRE_MINUTES * 60
                    | Some delta \<Rightarrow>
                        if delta \<noteq> 0 then now + delta
                        else now + ACCESS_TOKEN_EXPIRE_MINUTES * 60)
      in jwt_encode (data\<lparr>exp_claim := Some expire\<rparr>) secret_key ALGORITHM)"

definition unauthorized :: "string \<Rightarrow> error" where
  "unauthorized detail = HTTPException 401 detail"

definition verify_token :: "string \<Rightarrow> int \<Rightarrow> credentials \<Rightarrow> error + string" where
  "verify_token secret_key now cred =
     (case jwt_decode now cred secret_key [ALGORITHM] of
        Inr p \<Rightarrow>
          (case sub_claim p of
             None \<Rightarrow> Inl (unauthorized ''Invalid authentication credentials'')
           | Some username \<Rightarrow> Inr username)
      | Inl ExpiredSignatureError \<Rightarrow> Inl (unauthorized ''Token has expired'')
      | Inl InvalidTokenError \<Rightarrow> Inl (unauthorized ''Invalid authentication credentials''))"

section \<open>The application state and its routes\<close>

text \<open>
  What a request can read or change: the database, the files under the working
  directory (the set of their paths), and the module's set of active admin sessions.
  A route takes the key, the clock reading of the request and the bearer credentials,
  and returns its response, or the HTTP error it raises, beside the new state.
\<close>

record app =
  store :: db
  files :: "string set"
  active_admin_sessions :: "string set"

definition admin_logout :: "string \<Rightarrow> int \<Rightarrow> credentials \<Rightarrow> app \<Rightarrow> (error + string) \<times> app" where
  "admin_logout secret_key now cred a =
     (case verify_token secret_key now cred of
        Inl e \<Rightarrow> (Inl e, a)
      | Inr current_username \<Rightarrow>
          (Inr ''Logged out successfully'',
           a\<lparr>active_admin_sessions := active_admin_sessions a - {current_username}\<rparr>))"

text \<open>
  Login: the password hash is a parameter.  The response carries the token on success
  (\<open>Some\<close>) and \<^verbatim>\<open>{"success": False}\<close> otherwise (\<open>None\<close>).
\<close>

definition authenticate_admin :: "(string \<Rightarrow> string) \<Rightarrow> string \<Rightarrow> string \<Rightarrow> db \<Rightarrow> bool" where
  "authenticate_admin sha256 username password s =
     (find_one [(''username'', Eq (VStr username)), (''password'', Eq (VStr (sha256 password)))]
        (admins_collection s) \<noteq> None)"

definition admin_login ::
  "(string \<Rightarrow> string) \<Rightarrow> string \<Rightarrow> int \<Rightarrow> string \<Rightarrow> string \<Rightarrow> app \<Rightarrow> credentials option \<times> app" where
  "admin_login sha256 secret_key now username password a =
     (if authenticate_admin sha256 username password (store a)
      then (Some (create_access_token secret_key now
                    \<lparr>sub_claim = Some username, exp_claim = None\<rparr> None),
            a\<lparr>active_admin_sessions := insert username (active_admin_sessions a)\<rparr>)
      else (None, a))"

subsection \<open>Structured updates\<close>

text \<open>
  The payload of these routes is \<^verbatim>\<open>model.dict()\<close>: every field of the update model, with
  \<^verbatim>\<open>None\<close> for the fields the request left out.
\<close>

definition update_program_admin ::
  "string \<Rightarrow> int \<Rightarrow> credentials \<Rightarrow> string \<Rightarrow> pydict \<Rightarrow> app \<Rightarrow> (error + pydict) \<times> app" where
  "update_program_admin secret_key now cred program_id program a =
     (case verify_token secret_key now cred of
        Inl e \<Rightarrow> (Inl e, a)
      | Inr current_username \<Rightarrow>
          (let update_data = filter (\<lambda>(k, v). v \<noteq> VNone) program
           in case update_program now program_id update_data (store a) of
                (None, s') \<Rightarrow> (Inl (HTTPException 404 ''Program not found''), a\<lparr>store := s'\<rparr>)
              | (Some updated_program, s') \<Rightarrow> (Inr updated_program, a\<lparr>store := s'\<rparr>)))"

text \<open>
  \<^verbatim>\<open>str.strip()\<close> removes white space at both ends; \<open>py_isspace\<close> lists the white-space
  code points below 256.
\<close>

definition py_isspace :: "char \<Rightarrow> bool" where
  "py_isspace c = (of_char c \<in> {9, 10, 11, 12, 13, 28, 29, 30, 31, 32, 133, 160 :: nat})"

definition py_strip :: "string \<Rightarrow> string" where
  "py_strip x = rev (dropWhile py_isspace (rev (dropWhile py_isspace x)))"

text \<open>
  \<^verbatim>\<open>v is not None and (isinstance(v, str) and v.strip() != '' or not isinstance(v, str))\<close>
\<close>

fun refined_keep :: "val \<Rightarrow> bool" where
  "refined_keep VNone = False"
| "refined_keep (VStr x) = (py_strip x \<noteq> [])"
| "refined_keep v = True"

definition update_news_admin ::
  "string \<Rightarrow> int \<Rightarrow> credentials \<Rightarrow> string \<Rightarrow> pydict \<Rightarrow> app \<Rightarrow> (error + pydict) \<times> app" where
  "update_news_admin secret_key now cred news_id news_dict a =
     (case verify_token secret_key now cred of
        Inl e \<Rightarrow> (Inl e, a)
      | Inr current_username \<Rightarrow>
          (let update_data = filter (\<lambda>(k, v). refined_keep v) news_dict
           in case update_news now news_id update_data (store a) of
                (None, s') \<Rightarrow> (Inl (HTTPException 404 ''News not found''), a\<lparr>store := s'\<rparr>)
              | (Some updated_news, s') \<Rightarrow> (Inr updated_news, a\<lparr>store := s'\<rparr>)))"

definition update_event_admin ::
  "string \<Rightarrow> int \<Rightarrow> credentials \<Rightarrow> string \<Rightarrow> pydict \<Rightarrow> app \<Rightarrow> (error + pydict) \<times> app" where
  "update_event_admin secret_key now cred event_id event_dict a =
     (case verify_token secret_key now cred of
        Inl e \<Rightarrow> (Inl e, a)
      | Inr current_username \<Rightarrow>
          (let update_data = filter (\<lambda>(k, v). refined_keep v) event_dict
           in case update_event now event_id update_data (store a) of
                (None, s') \<Rightarrow> (Inl (HTTPException 404 ''Event not found''), a\<lparr>store := s'\<rparr>)
              | (Some updated_event, s') \<Rightarrow> (Inr updated_event, a\<lparr>store := s'\<rparr>)))"

subsection \<open>Uploads\<close>

text \<open>
  An uploaded file: its name and the content type the client declared.  The name a
  file is saved under is a fresh UUID followed by the extension of the upload; it is a
  parameter (\<open>new_name\<close>).  \<^verbatim>\<open>save_upload_file\<close> writes \<^verbatim>\<open>destination/new_name\<close> and returns
  that path relative to \<^verbatim>\<open>uploads\<close>.  Writing is taken to succeed.
\<close>

record upload =
  filename :: string
  content_type :: "string option"

definition UPLOAD_DIR :: string where
  "UPLOAD_DIR = ''uploads/gallery''"

definition TEAM_UPLOAD_DIR :: string where
  "TEAM_UPLOAD_DIR = ''uploads/team''"

definition relative_to :: "string \<Rightarrow> string \<Rightarrow> string option" where
  "relative_to base path =
     (if take (length base + 1) path = base @ ''/'' then Some (drop (length base + 1) path)
      else None)"

definition save_upload_file :: "string \<Rightarrow> string \<Rightarrow> string set \<Rightarrow> (error + string) \<times> string set" where
  "save_upload_file new_name destination fs =
     (let file_path = destination @ ''/'' @ new_name;
          fs' = insert file_path fs
      in case relative_to ''uploads'' file_path of
           None \<Rightarrow> (Inl (HTTPException 500 ''Failed to save file''), fs')
         | Some rel \<Rightarrow> (Inr rel, fs'))"

definition save_team_upload_file :: "string \<Rightarrow> string set \<Rightarrow> (error + string) \<times> string set" where
  "save_team_upload_file new_name fs = save_upload_file new_name TEAM_UPLOAD_DIR fs"

definition allowed_types :: "string list" where
  "allowed_types = [''image/jpeg'', ''image/png'', ''image/gif'', ''image/webp'']"

definition invalid_file_type :: error where
  "invalid_file_type =
     HTTPException 400 ''Invalid file type. Only JPEG, PNG, GIF, and WebP are allowed.''"

text \<open>\<^verbatim>\<open>file.content_type not in allowed_types\<close>; a missing content type is \<^verbatim>\<open>None\<close>.\<close>

definition not_allowed :: "upload \<Rightarrow> bool" where
  "not_allowed file = (case content_type file of None \<Rightarrow> True | Some t \<Rightarrow> t \<notin> set allowed_types)"

definition upload_gallery_image_admin ::
  "string \<Rightarrow> int \<Rightarrow> credentials \<Rightarrow> string \<Rightarrow> string \<Rightarrow> string \<Rightarrow>
   upload \<Rightarrow> string \<Rightarrow> string \<Rightarrow> string \<Rightarrow> int \<Rightarrow> bool \<Rightarrow> bool \<Rightarrow> app \<Rightarrow> (error + pydict) \<times> app" where
  "upload_gallery_image_admin secret_key now cred new_name new_id new_oid
       file title description category order_no is_featured is_active a =
     (case verify_token secret_key now cred of
        Inl e \<Rightarrow> (Inl e, a)
      | Inr current_username \<Rightarrow>
          if not_allowed file then (Inl invalid_file_type, a)
          else (case save_upload_file new_name UPLOAD_DIR (files a) of
                  (Inl e, fs) \<Rightarrow> (Inl e, a\<lparr>files := fs\<rparr>)
                | (Inr file_path, fs) \<Rightarrow>
                    (let image_data =
                           [(''title'', VStr title), (''description'', VStr description),
                            (''image'', VStr (''/'' @ file_path)), (''alt'', VStr title),
                            (''category'', VStr category), (''order'', VInt order_no),
                            (''is_featured'', VBool is_featured), (''is_active'', VBool is_active),
                            (''uploadDate'', VDate now)]
                     in case create_gallery_image new_id new_oid now image_data (store a) of
                          (result, s') \<Rightarrow> (Inr result, a\<lparr>store := s', files := fs\<rparr>))))"

text \<open>
  Creating a team member.  First the image: an uploaded file is checked against the
  allowed types and saved, otherwise a non-empty \<^verbatim>\<open>image_url\<close> is taken as the path.
\<close>

definition new_member_image ::
  "string \<Rightarrow> upload option \<Rightarrow> string option \<Rightarrow> string set \<Rightarrow> (error + string option) \<times> string set" where
  "new_member_image new_name file image_url fs =
     (case file of
        Some f \<Rightarrow>
          if not_allowed f then (Inl invalid_file_type, fs)
          else (case save_team_upload_file new_name fs of
                  (Inl e, fs') \<Rightarrow> (Inl e, fs')
                | (Inr p, fs') \<Rightarrow> (Inr (Some p), fs'))
      | None \<Rightarrow>
          (case image_url of
             None \<Rightarrow> (Inr None, fs)
           | Some u \<Rightarrow> if u \<noteq> [] then (Inr (Some u), fs) else (Inr None, fs)))"

definition create_team_member_admin ::
  "string \<Rightarrow> int \<Rightarrow> credentials \<Rightarrow> string \<Rightarrow> string \<Rightarrow> string \<Rightarrow>
   upload option \<Rightarrow> string \<Rightarrow> string \<Rightarrow> string \<Rightarrow> string \<Rightarrow> string \<Rightarrow> string \<Rightarrow> string option \<Rightarrow>
   int \<Rightarrow> bool \<Rightarrow> bool \<Rightarrow> app \<Rightarrow> (error + pydict) \<times> app" where
  "create_team_member_admin secret_key now cred new_name new_id new_oid
       file name role bio email phone department image_url order_no is_leadership is_active a =
     (case verify_token secret_key now cred of
        Inl e \<Rightarrow> (Inl e, a)
      | Inr current_username \<Rightarrow>
          (case new_member_image new_name file image_url (files a) of
             (Inl e, fs) \<Rightarrow> (Inl e, a\<lparr>files := fs\<rparr>)
           | (Inr image_path, fs) \<Rightarrow>
               (let member_data =
                      [(''name'', VStr name), (''role'', VStr role), (''bio'', VStr bio),
                       (''email'', VStr email), (''phone'', VStr phone),
                       (''department'', VStr department),
                       (''image'', case image_path of
                                     None \<Rightarrow> VNone
                                   | Some p \<Rightarrow> if p \<noteq> [] then VStr (''/'' @ p) else VNone),
                       (''order'', VInt order_no), (''is_leadership'', VBool is_leadership),
                       (''is_active'', VBool is_active), (''uploadDate'', VDate now)]
                in case create_team_member new_id new_oid now member_data (store a) of
                     (created_member, s') \<Rightarrow>
                       (Inr created_member, a\<lparr>store := s', files := fs\<rparr>))))"

text \<open>
  Removing the image of a team member.  The route has this block twice, once for the
  parsed \<^verbatim>\<open>image_url\<close> parameter and once for the raw form: take the stored \<^verbatim>\<open>image\<close>, drop
  a leading slash, and delete the file of that path if it exists.  A stored image that
  is truthy but no string has no \<^verbatim>\<open>startswith\<close>.
\<close>

fun truthy :: "val \<Rightarrow> bool" where
  "truthy VNone = False"
| "truthy (VBool b) = b"
| "truthy (VInt i) = (i \<noteq> 0)"
| "truthy (VStr x) = (x \<noteq> [])"
| "truthy (VDate t) = True"
| "truthy (VList xs) = (xs \<noteq> [])"

definition remove_image_file :: "pydict option \<Rightarrow> string set \<Rightarrow> error + string set" where
  "remove_image_file current_member fs =
     (case current_member of
        None \<Rightarrow> Inr fs
      | Some m \<Rightarrow>
          (case map_of m ''image'' of
             None \<Rightarrow> Inr fs
           | Some v \<Rightarrow>
               if \<not> truthy v then Inr fs
               else (case v of
                       VStr old_image_path \<Rightarrow>
                         (let full_file_path =
                                (if take 1 old_image_path = ''/'' then drop 1 old_image_path
                                 else old_image_path)
                          in Inr (fs - {full_file_path}))
                     | _ \<Rightarrow> Inl AttributeError)))"

definition failed_update :: error where
  "failed_update = HTTPException 500 ''Failed to update team member''"

text \<open>
  The update of a team member has three parts.  The first handles the image: an
  uploaded file is accepted when its content type starts with \<^verbatim>\<open>image/\<close> and is saved;
  otherwise a non-blank \<^verbatim>\<open>image_url\<close> becomes the image and a blank one removes it.  An
  exception other than an HTTP error ends the request with status 500.
\<close>

definition image_change ::
  "string \<Rightarrow> string \<Rightarrow> upload option \<Rightarrow> string option \<Rightarrow> db \<Rightarrow> string set \<Rightarrow>
   (error + pydict) \<times> string set" where
  "image_change new_name member_id file image_url s fs =
     (case file of
        Some f \<Rightarrow>
          (case content_type f of
             None \<Rightarrow> (Inl failed_update, fs)
           | Some t \<Rightarrow>
               if take 6 t \<noteq> ''image/'' then (Inl invalid_file_type, fs)
               else (case save_team_upload_file new_name fs of
                       (Inl e, fs') \<Rightarrow> (Inl e, fs')
                     | (Inr image_path, fs') \<Rightarrow> (Inr [(''image'', VStr (''/'' @ image_path))], fs')))
      | None \<Rightarrow>
          (case image_url of
             None \<Rightarrow> (Inr [], fs)
           | Some u \<Rightarrow>
               if py_strip u \<noteq> [] then (Inr [(''image'', VStr (''/'' @ u))], fs)
               else (case remove_image_file (get_team_member_by_id member_id s) fs of
                       Inl e \<Rightarrow> (Inl failed_update, fs)
                     | Inr fs' \<Rightarrow> (Inr [(''image'', VStr [])], fs'))))"

text \<open>
  The second part reads the raw form: an \<^verbatim>\<open>image_url\<close> entry that is the empty string
  removes the image again.  An exception in this part is logged and swallowed.
\<close>

definition raw_form_removal ::
  "string \<Rightarrow> (string \<times> string) list \<Rightarrow> pydict \<Rightarrow> db \<Rightarrow> string set \<Rightarrow> pydict \<times> string set" where
  "raw_form_removal member_id raw_form update_data s fs =
     (if map_of raw_form ''image_url'' = Some []
      then (case remove_image_file (get_team_member_by_id member_id s) fs of
              Inl e \<Rightarrow> (update_data, fs)
            | Inr fs' \<Rightarrow> (AList.update ''image'' (VStr []) update_data, fs'))
      else (update_data, fs))"

text \<open>The third part adds the other fields of the form, in the order of the source.\<close>

definition set_str :: "string \<Rightarrow> string option \<Rightarrow> pydict \<Rightarrow> pydict" where
  "set_str k v d = (case v of None \<Rightarrow> d | Some x \<Rightarrow> AList.update k (VStr x) d)"

definition set_nonblank :: "string \<Rightarrow> string option \<Rightarrow> pydict \<Rightarrow> pydict" where
  "set_nonblank k v d =
     (case v of None \<Rightarrow> d | Some x \<Rightarrow> if py_strip x \<noteq> [] then AList.update k (VStr x) d else d)"

definition set_int :: "string \<Rightarrow> int option \<Rightarrow> pydict \<Rightarrow> pydict" where
  "set_int k v d = (case v of None \<Rightarrow> d | Some x \<Rightarrow> AList.update k (VInt x) d)"

definition set_bool :: "string \<Rightarrow> bool option \<Rightarrow> pydict \<Rightarrow> pydict" where
  "set_bool k v d = (case v of None \<Rightarrow> d | Some x \<Rightarrow> AList.update k (VBool x) d)"

definition other_fields ::
  "string option \<Rightarrow> string option \<Rightarrow> string option \<Rightarrow> string option \<Rightarrow> string option \<Rightarrow>
   string option \<Rightarrow> int option \<Rightarrow> bool option \<Rightarrow> bool option \<Rightarrow> pydict \<Rightarrow> pydict" where
  "other_fields name role bio email phone department order_no is_leadership is_active update_data =
     set_bool ''is_active'' is_active
       (set_bool ''is_leadership'' is_leadership
          (set_int ''order'' order_no
             (set_nonblank ''department'' department
                (set_nonblank ''phone'' phone
                   (set_nonblank ''email'' email
                      (set_str ''bio'' bio
                         (set_str ''role'' role
                            (set_str ''name'' name update_data))))))))"

text \<open>
  The route.  \<open>raw_form\<close> is the form as the request carries it.  The route returns
  what \<^verbatim>\<open>update_team_member\<close> returns, \<^verbatim>\<open>None\<close> included.
\<close>

definition update_team_member_admin ::
  "string \<Rightarrow> int \<Rightarrow> credentials \<Rightarrow> string \<Rightarrow> string \<Rightarrow> (string \<times> string) list \<Rightarrow>
   upload option \<Rightarrow> string option \<Rightarrow> string option \<Rightarrow> string option \<Rightarrow> string option \<Rightarrow>
   string option \<Rightarrow> string option \<Rightarrow> string option \<Rightarrow> int option \<Rightarrow> bool option \<Rightarrow> bool option \<Rightarrow>
   app \<Rightarrow> (error + pydict option) \<times> app" where
  "update_team_member_admin secret_key now cred new_name member_id raw_form
       file name role bio email phone department image_url order_no is_leadership is_active a =
     (case verify_token secret_key now cred of
        Inl e \<Rightarrow> (Inl e, a)
      | Inr current_username \<Rightarrow>
          if get_team_member_by_id member_id (store a) = None
          then (Inl (HTTPException 404 ''Team member not found''), a)
          else
            (case image_change new_name member_id file image_url (store a) (files a) of
               (Inl e, fs) \<Rightarrow> (Inl e, a\<lparr>files := fs\<rparr>)
             | (Inr update_data, fs) \<Rightarrow>
                 (case raw_form_removal member_id raw_form update_data (store a) fs of
                    (update_data, fs) \<Rightarrow>
                      (case update_team_member now member_id
                              (other_fields name role bio email phone department order_no
                                 is_leadership is_active update_data) (store a) of
                         (updated, s') \<Rightarrow> (Inr updated, a\<lparr>store := s', files := fs\<rparr>)))))"

text \<open>
  The value the default policy gives a field of the stored record, in the words of the
  specification: a field of the payload that is \<^verbatim>\<open>None\<close> is dropped and the stored value
  stays, a field that is present and not \<^verbatim>\<open>None\<close> overwrites it, a field the payload does
  not name stays, and \<open>updatedAt\<close> becomes the time of the update.
\<close>

definition merged_field :: "int \<Rightarrow> pydict \<Rightarrow> pydict \<Rightarrow> string \<Rightarrow> val option" where
  "merged_field now update_data stored k =
     (if k = ''updatedAt'' then Some (VDate now)
      else case map_of update_data k of
             None \<Rightarrow> map_of stored k
           | Some v \<Rightarrow> if v = VNone then map_of stored k else Some v)"

text \<open>
  The same for the refined policy of news and events: \<^verbatim>\<open>None\<close> and strings that are empty
  or white space only are dropped; every other value, the falsy ones included, is
  applied.
\<close>

definition refined_field :: "int \<Rightarrow> pydict \<Rightarrow> pydict \<Rightarrow> string \<Rightarrow> val option" where
  "refined_field now given stored k =
     (if k = ''updatedAt'' then Some (VDate now)
      else case map_of given k of
             None \<Rightarrow> map_of stored k
           | Some VNone \<Rightarrow> map_of stored k
           | Some (VStr x) \<Rightarrow> if list_all py_isspace x then map_of stored k else Some (VStr x)
           | Some v \<Rightarrow> Some v)"

text \<open>
  Two notions for stating what the gate does: a result that is the 401 response, and a
  state with the set of active sessions replaced.
\<close>

fun rejected :: "error + 'a \<Rightarrow> bool" where
  "rejected (Inl (HTTPException code detail)) = (code = 401)"
| "rejected x = False"

definition with_sessions :: "string set \<Rightarrow> app \<Rightarrow> app" where
  "with_sessions S a = a\<lparr>active_admin_sessions := S\<rparr>"

section \<open>Search across collections\<close>

text \<open>
  The store's regular expressions are a parameter: \<open>rx pattern\<close> is \<open>None\<close> when the store
  refuses the pattern, and otherwise the test whether a text matches it with the option
  \<^verbatim>\<open>i\<close>.  A field matches when it is a string that matches, or an array with such an
  element.  \<^verbatim>\<open>find({'$or': [...]}).limit(5).to_list(5)\<close> gives the first five matching
  documents.
\<close>

definition regex_field :: "(string \<Rightarrow> bool) \<Rightarrow> sdoc \<Rightarrow> string \<Rightarrow> bool" where
  "regex_field m d k =
     (case map_of (doc_fields d) k of
        Some (VStr x) \<Rightarrow> m x
      | Some (VList xs) \<Rightarrow> list_ex m xs
      | _ \<Rightarrow> False)"

definition matching :: "(string \<Rightarrow> bool) \<Rightarrow> string list \<Rightarrow> collection \<Rightarrow> collection" where
  "matching m keys c = filter (\<lambda>d. list_ex (regex_field m d) keys) c"

definition find_regex ::
  "(string \<Rightarrow> (string \<Rightarrow> bool) option) \<Rightarrow> string \<Rightarrow> string list \<Rightarrow> collection \<Rightarrow>
   error + collection" where
  "find_regex rx pattern keys c =
     (case rx pattern of
        None \<Rightarrow> Inl OperationFailure
      | Some m \<Rightarrow> Inr (take 5 (matching m keys c)))"

text \<open>
  \<^verbatim>\<open>doc[key]\<close> raises on a missing key; \<^verbatim>\<open>value[:200]\<close> is defined for strings and lists.  In
  an f-string a string stands for itself; the text of any other value is left to the
  parameter \<open>repr\<close>.
\<close>

definition subscript :: "sdoc \<Rightarrow> string \<Rightarrow> error + val" where
  "subscript d k = (case map_of (doc_fields d) k of None \<Rightarrow> Inl (KeyError k) | Some v \<Rightarrow> Inr v)"

definition slice200 :: "val \<Rightarrow> error + val" where
  "slice200 v =
     (case v of
        VStr x \<Rightarrow> Inr (VStr (take 200 x))
      | VList xs \<Rightarrow> Inr (VList (take 200 xs))
      | _ \<Rightarrow> Inl TypeError)"

definition py_str :: "(val \<Rightarrow> string) \<Rightarrow> val \<Rightarrow> string" where
  "py_str repr v = (case v of VStr x \<Rightarrow> x | _ \<Rightarrow> repr v)"

text \<open>The result entry of one document, field by field in the order of the source.\<close>

definition program_hit :: "(val \<Rightarrow> string) \<Rightarrow> sdoc \<Rightarrow> error + pydict" where
  "program_hit repr prog =
     (let ident = (case map_of (doc_fields prog) ''id'' of None \<Rightarrow> VStr (oid prog) | Some v \<Rightarrow> v)
      in case subscript prog ''title'' of
           Inl e \<Rightarrow> Inl e
         | Inr title \<Rightarrow>
             (case subscript prog ''description'' of
                Inl e \<Rightarrow> Inl e
              | Inr description \<Rightarrow>
                  (case slice200 description of
                     Inl e \<Rightarrow> Inl e
                   | Inr short \<Rightarrow>
                       Inr [(''type'', VStr ''program''), (''id'', ident), (''title'', title),
                            (''description'', short),
                            (''url'', VStr (''/student-mobility/programs/'' @ py_str repr ident))])))"

definition entry_hit ::
  "string \<Rightarrow> string \<Rightarrow> string \<Rightarrow> string \<Rightarrow> (val \<Rightarrow> string) \<Rightarrow> sdoc \<Rightarrow> error + pydict" where
  "entry_hit type_name title_key text_key url_prefix repr item =
     (case subscript item ''id'' of
        Inl e \<Rightarrow> Inl e
      | Inr ident \<Rightarrow>
          (case subscript item title_key of
             Inl e \<Rightarrow> Inl e
           | Inr title \<Rightarrow>
               (case subscript item text_key of
                  Inl e \<Rightarrow> Inl e
                | Inr description \<Rightarrow>
                    (case slice200 description of
                       Inl e \<Rightarrow> Inl e
                     | Inr short \<Rightarrow>
                         Inr [(''type'', VStr type_name), (''id'', ident), (''title'', title),
                              (''description'', short),
                              (''url'', VStr (url_prefix @ py_str repr ident))]))))"

definition news_hit :: "(val \<Rightarrow> string) \<Rightarrow> sdoc \<Rightarrow> error + pydict" where
  "news_hit = entry_hit ''news'' ''title'' ''content'' ''/news-media/''"

definition event_hit :: "(val \<Rightarrow> string) \<Rightarrow> sdoc \<Rightarrow> error + pydict" where
  "event_hit = entry_hit ''event'' ''title'' ''description'' ''/visits-delegations-events/''"

definition partnership_hit :: "(val \<Rightarrow> string) \<Rightarrow> sdoc \<Rightarrow> error + pydict" where
  "partnership_hit = entry_hit ''partnership'' ''partnerName'' ''details'' ''/global-partnerships/''"

text \<open>The loop \<^verbatim>\<open>for doc in docs: results.append({...})\<close>: the first exception ends it.\<close>

fun collect :: "(sdoc \<Rightarrow> error + pydict) \<Rightarrow> sdoc list \<Rightarrow> error + pydict list" where
  "collect f [] = Inr []"
| "collect f (d # ds) =
     (case f d of
        Inl e \<Rightarrow> Inl e
      | Inr h \<Rightarrow> (case collect f ds of Inl e \<Rightarrow> Inl e | Inr hs \<Rightarrow> Inr (h # hs)))"

text \<open>\<^verbatim>\<open>not sections or name in sections\<close>\<close>

definition wanted :: "string list option \<Rightarrow> string \<Rightarrow> bool" where
  "wanted sections name = (case sections of None \<Rightarrow> True | Some l \<Rightarrow> l = [] \<or> name \<in> set l)"

definition program_keys :: "string list" where
  "program_keys = [''title'', ''description'', ''partnerUniversity'']"

definition news_keys :: "string list" where
  "news_keys = [''title'', ''content'']"

definition event_keys :: "string list" where
  "event_keys = [''title'', ''description'']"

definition partnership_keys :: "string list" where
  "partnership_keys = [''partnerName'', ''details'', ''country'']"

text \<open>The response \<^verbatim>\<open>{'results': results, 'total': len(results)}\<close>.\<close>

record search_response =
  results :: "pydict list"
  total_results :: int

definition search_section ::
  "(string \<Rightarrow> (string \<Rightarrow> bool) option) \<Rightarrow> string \<Rightarrow> string list option \<Rightarrow> string \<Rightarrow>
   string list \<Rightarrow> (sdoc \<Rightarrow> error + pydict) \<Rightarrow> collection \<Rightarrow> error + pydict list" where
  "search_section rx query sections name keys hit c =
     (if wanted sections name
      then (case find_regex rx query keys c of Inl e \<Rightarrow> Inl e | Inr docs \<Rightarrow> collect hit docs)
      else Inr [])"

definition global_search ::
  "(string \<Rightarrow> (string \<Rightarrow> bool) option) \<Rightarrow> (val \<Rightarrow> string) \<Rightarrow> string \<Rightarrow> string list option \<Rightarrow> db \<Rightarrow>
   error + search_response" where
  "global_search rx repr query sections s =
     (case search_section rx query sections ''programs'' program_keys (program_hit repr)
             (programs_collection s) of
        Inl e \<Rightarrow> Inl e
      | Inr programs \<Rightarrow>
     (case search_section rx query sections ''news'' news_keys (news_hit repr)
             (news_collection s) of
        Inl e \<Rightarrow> Inl e
      | Inr news \<Rightarrow>
     (case search_section rx query sections ''events'' event_keys (event_hit repr)
             (events_collection s) of
        Inl e \<Rightarrow> Inl e
      | Inr events \<Rightarrow>
     (case search_section rx query sections ''partnerships'' partnership_keys (partnership_hit repr)
             (partnerships_collection s) of
        Inl e \<Rightarrow> Inl e
      | Inr partnerships \<Rightarrow>
          (let found = programs @ news @ events @ partnerships
           in Inr \<lparr>results = found, total_results = int (length found)\<rparr>)))))"

text \<open>
  \<^verbatim>\<open>GET /search\<close>: the framework refuses a query of fewer than two characters;
  \<^verbatim>\<open>sections.split(',') if sections else None\<close> selects the sections; every exception of the
  search becomes the response 500.
\<close>

fun split_on :: "char \<Rightarrow> string \<Rightarrow> string list" where
  "split_on sep [] = [[]]"
| "split_on sep (c # cs) =
     (if c = sep then [] # split_on sep cs
      else (case split_on sep cs of [] \<Rightarrow> [[c]] | w # ws \<Rightarrow> (c # w) # ws))"

definition global_search_route ::
  "(string \<Rightarrow> (string \<Rightarrow> bool) option) \<Rightarrow> (val \<Rightarrow> string) \<Rightarrow> string \<Rightarrow> string option \<Rightarrow> db \<Rightarrow>
   error + search_response" where
  "global_search_route rx repr q sections s =
     (if length q < 2 then Inl RequestValidationError
      else
        (let section_list =
               (case sections of
                  None \<Rightarrow> None
                | Some x \<Rightarrow> if x = [] then None else Some (split_on (CHR '','') x))
         in case global_search rx repr q section_list s of
              Inl e \<Rightarrow> Inl (HTTPException 500 ''Internal server error'')
            | Inr found \<Rightarrow> Inr found))"

text \<open>
  What the search contract asks of one entry of a given type: the five keys in order,
  the type, a description of at most 200 characters, and a URL that ends in the id.
\<close>

definition hit_shape :: "(val \<Rightarrow> string) \<Rightarrow> string \<Rightarrow> string \<Rightarrow> pydict \<Rightarrow> bool" where
  "hit_shape repr type_name url_prefix h \<longleftrightarrow>
     map fst h = [''type'', ''id'', ''title'', ''description'', ''url''] \<and>
     map_of h ''type'' = Some (VStr type_name) \<and>
     (case map_of h ''description'' of
        Some (VStr x) \<Rightarrow> length x \<le> 200
      | Some (VList xs) \<Rightarrow> length xs \<le> 200
      | _ \<Rightarrow> False) \<and>
     (case map_of h ''id'' of
        Some ident \<Rightarrow> map_of h ''url'' = Some (VStr (url_prefix @ py_str repr ident))
      | None \<Rightarrow> False)"

text \<open>
  What the contract asks of the entry of one record, in the words of the specification:
  the entry shows the type of its section, the id of the record (the object id when the
  record has no logical id), the title of the record, the first 200 characters of its
  text, and the URL of the section followed by the id.
\<close>

definition logical_id :: "sdoc \<Rightarrow> val" where
  "logical_id d = (case map_of (doc_fields d) ''id'' of None \<Rightarrow> VStr (oid d) | Some v \<Rightarrow> v)"

definition truncated :: "val \<Rightarrow> val" where
  "truncated v =
     (case v of VStr x \<Rightarrow> VStr (take 200 x) | VList xs \<Rightarrow> VList (take 200 xs) | _ \<Rightarrow> v)"

definition entry_for ::
  "string \<Rightarrow> string \<Rightarrow> string \<Rightarrow> string \<Rightarrow> (val \<Rightarrow> string) \<Rightarrow> sdoc \<Rightarrow> pydict \<Rightarrow> bool" where
  "entry_for type_name title_key text_key url_prefix repr d h \<longleftrightarrow>
     map fst h = [''type'', ''id'', ''title'', ''description'', ''url''] \<and>
     map_of h ''type'' = Some (VStr type_name) \<and>
     map_of h ''id'' = Some (logical_id d) \<and>
     map_of h ''title'' = map_of (doc_fields d) title_key \<and>
     map_of h ''description'' = map_option truncated (map_of (doc_fields d) text_key) \<and>
     map_of h ''url'' = Some (VStr (url_prefix @ py_str repr (logical_id d)))"

text \<open>A stored field that is a string, as the validated records have it.\<close>

definition has_str :: "sdoc \<Rightarrow> string \<Rightarrow> bool" where
  "has_str d k = (case map_of (doc_fields d) k of Some (VStr x) \<Rightarrow> True | _ \<Rightarrow> False)"

text \<open>
  What one section has to contribute: nothing when it is not selected, and otherwise one
  entry for each of the first five matching documents, in their order.
\<close>

definition contributes :: "bool \<Rightarrow> (sdoc \<Rightarrow> pydict \<Rightarrow> bool) \<Rightarrow> collection \<Rightarrow> pydict list \<Rightarrow> bool" where
  "contributes selected entry found hs \<longleftrightarrow>
     (if selected
      then length hs = min 5 (length found) \<and> list_all2 entry (take 5 found) hs
      else hs = [])"

text \<open>
  A stand-in for the store's regular expressions in examples: a pattern whose parentheses
  do not pair up is refused, as the store refuses it; any other pattern is read as plain
  text and matches the texts that contain it.
\<close>

fun contains :: "string \<Rightarrow> string \<Rightarrow> bool" where
  "contains pattern [] = (pattern = [])"
| "contains pattern (c # cs) = (take (length pattern) (c # cs) = pattern \<or> contains pattern cs)"

fun group_depth :: "string \<Rightarrow> nat \<Rightarrow> nat option" where
  "group_depth [] n = Some n"
| "group_depth (c # cs) n =
     (if c = CHR ''(''
      then group_depth cs (Suc n)
      else if c = CHR '')''
      then (case n of 0 \<Rightarrow> None | Suc k \<Rightarrow> group_depth cs k)
      else group_depth cs n)"

definition plain :: "string \<Rightarrow> (string \<Rightarrow> bool) option" where
  "plain pattern = (if group_depth pattern 0 = Some 0 then Some (contains pattern) else None)"

section \<open>Sample data\<close>

definition empty_db :: db where
  "empty_db = \<lparr>programs_collection = [], contacts_collection = [], admins_collection = [],
     news_collection = [],
     partnerships_collection = [], team_collection = [], events_collection = [],
     gallery_collection = [], faqs_collection = [], static_content_collection = []\<rparr>"

definition sample_program :: "string \<Rightarrow> string \<Rightarrow> int \<Rightarrow> sdoc" where
  "sample_program ident title t =
     \<lparr>oid = ''oid-'' @ ident,
      doc_fields = [(''id'', VStr ident), (''title'', VStr title),
        (''description'', VStr ''World-class computer science program''),
        (''partnerUniversity'', VStr ''ETH Zurich, Switzerland''),
        (''status'', VStr ''Active''), (''createdAt'', VDate t), (''updatedAt'', VDate t)]\<rparr>"

definition sample_contact :: "string \<Rightarrow> string option \<Rightarrow> int \<Rightarrow> sdoc" where
  "sample_contact ident st t =
     \<lparr>oid = ''oid-'' @ ident,
      doc_fields = [(''id'', VStr ident), (''firstName'', VStr ''Asha''),
        (''formType'', VStr ''Enquiry'')]
        @ (case st of None \<Rightarrow> [] | Some x \<Rightarrow> [(''status'', VStr x)])
        @ [(''createdAt'', VDate t)]\<rparr>"

definition sample_image :: "string \<Rightarrow> sdoc" where
  "sample_image ident =
     \<lparr>oid = ''oid-'' @ ident,
      doc_fields = [(''id'', VStr ident), (''title'', VStr ''Campus''),
        (''image'', VStr ''/gallery/campus.jpg''), (''category'', VStr ''Campus''),
        (''uploadDate'', VDate 5)]\<rparr>"

definition sample_news :: "string \<Rightarrow> string \<Rightarrow> int \<Rightarrow> sdoc" where
  "sample_news ident title t =
     \<lparr>oid = ''oid-'' @ ident,
      doc_fields = [(''id'', VStr ident), (''title'', VStr title),
        (''content'', VStr (replicate 250 (CHR ''x''))), (''category'', VStr ''Achievement''),
        (''date'', VDate t), (''featured'', VBool True),
        (''createdAt'', VDate t), (''updatedAt'', VDate t)]\<rparr>"

definition sample_event :: "string \<Rightarrow> string \<Rightarrow> int \<Rightarrow> sdoc" where
  "sample_event ident title t =
     \<lparr>oid = ''oid-'' @ ident,
      doc_fields = [(''id'', VStr ident), (''title'', VStr title), (''type'', VStr ''Conference''),
        (''description'', VStr ''Annual education fair''), (''startDate'', VDate t),
        (''featured'', VBool True), (''createdAt'', VDate t), (''updatedAt'', VDate t)]\<rparr>"

definition sample_partnership :: "string \<Rightarrow> string \<Rightarrow> sdoc" where
  "sample_partnership ident partner =
     \<lparr>oid = ''oid-'' @ ident,
      doc_fields = [(''id'', VStr ident), (''partnerName'', VStr partner),
        (''type'', VStr ''Research''), (''country'', VStr ''Switzerland''),
        (''details'', VStr ''Joint research initiatives''), (''status'', VStr ''Active''),
        (''createdAt'', VDate 5), (''updatedAt'', VDate 5)]\<rparr>"

definition sample_member :: "string \<Rightarrow> string \<Rightarrow> sdoc" where
  "sample_member ident img =
     \<lparr>oid = ''oid-'' @ ident,
      doc_fields = [(''id'', VStr ident), (''name'', VStr ''Priya Sharma''),
        (''role'', VStr ''Associate Director''), (''image'', VStr img), (''order'', VInt 1),
        (''createdAt'', VDate 5), (''updatedAt'', VDate 5)]\<rparr>"

definition sample_db :: db where
  "sample_db = empty_db\<lparr>
     programs_collection :=
       [sample_program ''p1'' ''Engineering Innovation'' 10,
        sample_program ''p2'' ''International Business'' 20,
        sample_program ''p3'' ''Computer Science'' 30],
     contacts_collection :=
       [sample_contact ''c1'' (Some ''read'') 10,
        sample_contact ''c2'' None 20,
        sample_contact ''c3'' (Some ''Replied'') 30],
     gallery_collection := [sample_image ''g1''],
     news_collection :=
       [sample_news ''n1'' ''award 1'' 1, sample_news ''n2'' ''award 2'' 2,
        sample_news ''n3'' ''award 3'' 3, sample_news ''n4'' ''award 4'' 4,
        sample_news ''n5'' ''award 5'' 5, sample_news ''n6'' ''award 6'' 6,
        sample_news ''n7'' ''award 7'' 7],
     events_collection := [sample_event ''e1'' ''award ceremony'' 8],
     partnerships_collection := [sample_partnership ''q1'' ''ETH Zurich''],
     team_collection := [sample_member ''t1'' ''/team/a.jpg'']\<rparr>"

text \<open>A key, a token signed with it at time 0 for the admin, and a state to run routes in.\<close>

definition sample_key :: string where
  "sample_key = ''medicaps-secret''"

definition sample_token :: credentials where
  "sample_token =
     create_access_token sample_key 0 \<lparr>sub_claim = Some ''admin'', exp_claim = None\<rparr> None"

definition sample_app :: app where
  "sample_app = \<lparr>store = sample_db, files = {''uploads/team/a.jpg''},
     active_admin_sessions = {''admin''}\<rparr>"

text \<open>
  A team member created through the route with an uploaded photo, starting from an
  empty application, and the request that then clears the photo: the form carries an
  empty \<^verbatim>\<open>image_url\<close> and nothing else.
\<close>

definition empty_app :: app where
  "empty_app = \<lparr>store = empty_db, files = {}, active_admin_sessions = {}\<rparr>"

definition member_with_photo :: app where
  "member_with_photo =
     snd (create_team_member_admin sample_key 40 sample_token ''a.jpg'' ''t9'' ''oid-t9''
            (Some \<lparr>filename = ''photo.jpg'', content_type = Some ''image/jpeg''\<rparr>)
            ''Priya Sharma'' ''Associate Director'' ''Coordinates student mobility''
            [] [] [] None 1 False True empty_app)"

definition photo_cleared :: app where
  "photo_cleared =
     snd (update_team_member_admin sample_key 50 sample_token ''b.jpg'' ''t9''
            [(''image_url'', [])] None None None None None None None (Some []) None None None
            member_with_photo)"

text \<open>A static page as the admin form submits it.\<close>

definition about_page :: pydict where
  "about_page = [(''key'', VStr ''about''), (''title'', VStr ''About the office''),
     (''content'', VStr ''The office of international affairs''), (''section'', VStr ''about'')]"

definition two_about_pages :: db where
  "two_about_pages =
     snd (create_static_content ''u2'' ''o2'' 2 about_page
       (snd (create_static_content ''u1'' ''o1'' 1 about_page empty_db)))"

section \<open>Pagination\<close>

lemma ceil_div:
  fixes n p :: int
  assumes p: "0 < p"
  shows "(n + p - 1) div p = \<lceil>real_of_int n / real_of_int p\<rceil>"
proof -
  define z where "z = (n + p - 1) div p"
  define m where "m = (n + p - 1) mod p"
  have eq: "n + p - 1 = p * z + m"
    by (simp add: z_def m_def)
  have m: "0 \<le> m" "m < p"
    using p by (simp_all add: m_def)
  have up: "n \<le> z * p"
  proof -
    have "n = p * z + (m - p + 1)" using eq by simp
    then show ?thesis using m by (simp add: mult.commute)
  qed
  have lo: "(z - 1) * p < n"
  proof -
    have "n = p * z - p + (m + 1)" using eq by simp
    then show ?thesis using m by (simp add: algebra_simps)
  qed
  have "real_of_int n / real_of_int p \<le> of_int z"
  proof -
    have "real_of_int n \<le> real_of_int (z * p)" using up by (simp only: of_int_le_iff)
    then show ?thesis using p by (simp add: pos_divide_le_eq)
  qed
  moreover have "of_int z - 1 < real_of_int n / real_of_int p"
  proof -
    have "real_of_int ((z - 1) * p) < real_of_int n" using lo by (simp only: of_int_less_iff)
    then show ?thesis using p by (simp add: pos_less_divide_eq)
  qed
  ultimately show ?thesis unfolding z_def[symmetric] by (simp add: ceiling_unique)
qed

lemma length_insert_doc: "length (insert_doc lt x ys) = Suc (length ys)"
  by (induction ys) auto

lemma length_cursor_sort: "length (cursor_sort k d c) = length c"
  unfolding cursor_sort_def by (induction c) (auto simp: length_insert_doc)

lemma skip_nonneg:
  fixes page_no page_size :: int
  assumes "1 \<le> page_no" "1 \<le> page_size"
  shows "0 \<le> (page_no - 1) * page_size"
  using assms by simp

lemma page_end:
  fixes page_no page_size :: int
  shows "page_no * page_size = (page_no - 1) * page_size + page_size"
  by (simp add: algebra_simps)

lemma fetch_page_from:
  assumes "0 \<le> sk" "1 \<le> ps" "sk \<le> 2 ^ 63 - 1" "ps \<le> 2 ^ 63 - 1"
  shows "fetch_page q k d sk ps c = Inr (py_slice sk (sk + ps) (cursor_sort k d (find_docs q c)))"
proof -
  have "nat (sk + ps) = nat sk + nat ps" using assms by (simp add: nat_add_distrib)
  moreover have "bson_int sk" "bson_int \<bar>ps\<bar>" using assms by (simp_all add: bson_int_def)
  ultimately show ?thesis using assms(1,2)
    by (simp add: fetch_page_def cursor_skip_def cursor_limit_def to_list_def py_slice_def
        send_find_def take_drop add.commute)
qed

lemma fetch_page_overflow:
  assumes "0 \<le> sk" "1 \<le> ps" "2 ^ 63 - 1 < sk \<or> 2 ^ 63 - 1 < ps"
  shows "fetch_page q k d sk ps c = Inl OverflowError"
proof -
  have "\<not> (bson_int sk \<and> bson_int \<bar>ps\<bar>)" using assms by (auto simp: bson_int_def)
  then show ?thesis using assms(1,2)
    by (simp add: fetch_page_def cursor_skip_def cursor_limit_def to_list_def send_find_def)
qed

lemma slice_length_from:
  assumes "0 \<le> sk" "1 \<le> ps"
  shows "int (length (py_slice sk (sk + ps) xs)) = min ps (max 0 (int (length xs) - sk))"
proof -
  have "nat (sk + ps) = nat sk + nat ps" using assms by (simp add: nat_add_distrib)
  then have "length (py_slice sk (sk + ps) xs) = min (length xs) (nat sk + nat ps) - nat sk"
    by (simp add: py_slice_def)
  then show ?thesis using assms by (simp add: min_def max_def) linarith
qed

lemma page_contract_intro:
  assumes "1 \<le> page_no" "1 \<le> page_size"
  shows "page_contract page_no page_size (map f docs)
     \<lparr>items = map f (py_slice ((page_no - 1) * page_size) (page_no * page_size) docs),
      total = int (length docs), page = page_no, pageSize = page_size,
      totalPages = (int (length docs) + page_size - 1) div page_size\<rparr>"
proof -
  have len: "int (length (py_slice ((page_no - 1) * page_size) (page_no * page_size) docs)) =
      min page_size (max 0 (int (length docs) - (page_no - 1) * page_size))"
    unfolding page_end[of page_no page_size]
    by (rule slice_length_from[OF skip_nonneg[OF assms] assms(2)])
  have sl: "py_slice a b (map f docs) = map f (py_slice a b docs)" for a b
    by (simp add: py_slice_def take_map drop_map)
  have "0 < page_size" using assms by simp
  then show ?thesis
    unfolding page_contract_def using len
    by (simp add: ceil_div sl)
qed

lemma paged_result:
  assumes "1 \<le> page_no" "1 \<le> page_size"
    and "(page_no - 1) * page_size \<le> 2 ^ 63 - 1" "page_size \<le> 2 ^ 63 - 1"
  shows "\<exists>r. (case fetch_page q k d ((page_no - 1) * page_size) page_size c of
           Inl e \<Rightarrow> Inl e
         | Inr docs \<Rightarrow>
             (case floordiv (count_documents q c + page_size - 1) page_size of
                Inl e \<Rightarrow> Inl e
              | Inr pages \<Rightarrow>
                  Inr \<lparr>items = map f docs, total = count_documents q c,
                       page = page_no, pageSize = page_size, totalPages = pages\<rparr>)) = Inr r \<and>
     page_contract page_no page_size (map f (cursor_sort k d (find_docs q c))) r"
proof -
  have n: "count_documents q c = int (length (cursor_sort k d (find_docs q c)))"
    by (simp add: count_documents_def find_docs_def length_cursor_sort)
  have ps: "page_size \<noteq> 0" using assms by simp
  have fp: "fetch_page q k d ((page_no - 1) * page_size) page_size c =
      Inr (py_slice ((page_no - 1) * page_size) (page_no * page_size) (cursor_sort k d (find_docs q c)))"
    unfolding page_end[of page_no page_size]
    by (rule fetch_page_from[OF skip_nonneg[OF assms(1,2)] assms(2) assms(3) assms(4)])
  show ?thesis
    unfolding fp floordiv_def n
    using page_contract_intro[OF assms(1,2), of f "cursor_sort k d (find_docs q c)"] ps
    by simp
qed

lemma paged_overflow:
  assumes "1 \<le> page_no" "1 \<le> page_size"
    and "2 ^ 63 - 1 < (page_no - 1) * page_size \<or> 2 ^ 63 - 1 < page_size"
  shows "(case fetch_page q k d ((page_no - 1) * page_size) page_size c of
           Inl e \<Rightarrow> Inl e
         | Inr docs \<Rightarrow>
             (case floordiv (count_documents q c + page_size - 1) page_size of
                Inl e \<Rightarrow> Inl e
              | Inr pages \<Rightarrow>
                  Inr \<lparr>items = map f docs, total = count_documents q c,
                       page = page_no, pageSize = page_size, totalPages = pages\<rparr>)) =
         (Inl OverflowError :: error + paginated)"
  unfolding fetch_page_overflow[OF skip_nonneg[OF assms(1,2)] assms(2) assms(3)] by simp

lemma find_all: "find_docs [] c = c"
  by (simp add: find_docs_def matches_def)

text \<open>
  C1.  Take \<open>page \<ge> 1\<close> and \<open>pageSize \<ge> 1\<close>.  Each of the five list operations that paginate
  (programs, news, partnerships, events, gallery images) returns an envelope as long as
  the skip \<open>(page-1)*pageSize\<close> and the page size fit in eight bytes: there \<open>total\<close> is the
  number of documents matching the filter, \<open>totalPages\<close> is \<open>\<lceil>total / pageSize\<rceil>\<close>, and \<open>items\<close>
  is the slice \<open>documents[(page-1)*pageSize : page*pageSize]\<close> of the filtered and sorted
  documents, of length \<open>min(pageSize, max(0, total - (page-1)*pageSize))\<close>.  Beyond that
  range each of the five raises \<^verbatim>\<open>OverflowError\<close> and returns no envelope.  The other four
  list operations (team members, FAQs, static content, contacts) take no page and return
  the documents read, up to a fixed number, as a plain list.
\<close>

theorem pagination_envelope:
  assumes "1 \<le> page_no" "1 \<le> page_size"
  shows
    "((page_no - 1) * page_size \<le> 2 ^ 63 - 1 \<and> page_size \<le> 2 ^ 63 - 1 \<longrightarrow>
       (\<exists>r. get_programs active_only page_no page_size s = Inr r \<and>
          page_contract page_no page_size
            (map program_ids (cursor_sort ''createdAt'' (- 1)
               (find_docs (if active_only then [(''status'', Eq (VStr ''Active''))] else [])
                  (programs_collection s)))) r) \<and>
       (\<exists>r. get_news category page_no page_size featured_only s = Inr r \<and>
          page_contract page_no page_size
            (map stringify_id (cursor_sort ''date'' (- 1)
               (find_docs (str_filter ''category'' category
                   @ (if featured_only then [(''featured'', Eq (VBool True))] else []))
                  (news_collection s)))) r) \<and>
       (\<exists>r. get_partnerships ptype country page_no page_size s = Inr r \<and>
          page_contract page_no page_size
            (map stringify_id (cursor_sort ''partnerName'' 1
               (find_docs (str_filter ''type'' ptype @ str_filter ''country'' country)
                  (partnerships_collection s)))) r) \<and>
       (\<exists>r. get_events now etype page_no page_size upcoming_only s = Inr r \<and>
          page_contract page_no page_size
            (map stringify_id (cursor_sort ''startDate'' (- 1)
               (find_docs (str_filter ''type'' etype
                   @ (if upcoming_only then [(''startDate'', Gte (VDate now))] else []))
                  (events_collection s)))) r) \<and>
       (\<exists>r. get_gallery_images gcategory page_no page_size s = Inr r \<and>
          page_contract page_no page_size
            (map stringify_id (cursor_sort ''uploadDate'' (- 1)
               (find_docs (str_filter ''category'' gcategory) (gallery_collection s)))) r)) \<and>
     (2 ^ 63 - 1 < (page_no - 1) * page_size \<or> 2 ^ 63 - 1 < page_size \<longrightarrow>
       get_programs active_only page_no page_size s = Inl OverflowError \<and>
       get_news category page_no page_size featured_only s = Inl OverflowError \<and>
       get_partnerships ptype country page_no page_size s = Inl OverflowError \<and>
       get_events now etype page_no page_size upcoming_only s = Inl OverflowError \<and>
       get_gallery_images gcategory page_no page_size s = Inl OverflowError) \<and>
     get_team_members s =
       map stringify_id (take 100 (cursor_sort ''order'' 1 (team_collection s))) \<and>
     get_faqs fcategory s =
       map stringify_id (take 500 (cursor_sort ''order'' 1
         (find_docs (str_filter ''category'' fcategory) (faqs_collection s)))) \<and>
     get_static_content sect s =
       map stringify_id (take 100
         (find_docs (str_filter ''section'' sect) (static_content_collection s))) \<and>
     fst (get_contacts form_type s) =
       map contact_view (take 1000 (cursor_sort ''createdAt'' (- 1)
         (find_docs (str_filter ''formType'' form_type) (contacts_collection s))))"
proof (intro conjI impI)
  assume b: "(page_no - 1) * page_size \<le> 2 ^ 63 - 1 \<and> page_size \<le> 2 ^ 63 - 1"
  note pr = paged_result[OF assms b[THEN conjunct1] b[THEN conjunct2]]
  show "\<exists>r. get_programs active_only page_no page_size s = Inr r \<and>
        page_contract page_no page_size
          (map program_ids (cursor_sort ''createdAt'' (- 1)
             (find_docs (if active_only then [(''status'', Eq (VStr ''Active''))] else [])
                (programs_collection s)))) r"
    unfolding get_programs_def Let_def by (rule pr)
  show "\<exists>r. get_news category page_no page_size featured_only s = Inr r \<and>
        page_contract page_no page_size
          (map stringify_id (cursor_sort ''date'' (- 1)
             (find_docs (str_filter ''category'' category
                 @ (if featured_only then [(''featured'', Eq (VBool True))] else []))
                (news_collection s)))) r"
    unfolding get_news_def Let_def by (rule pr)
  show "\<exists>r. get_partnerships ptype country page_no page_size s = Inr r \<and>
        page_contract page_no page_size
          (map stringify_id (cursor_sort ''partnerName'' 1
             (find_docs (str_filter ''type'' ptype @ str_filter ''country'' country)
                (partnerships_collection s)))) r"
    unfolding get_partnerships_def Let_def by (rule pr)
  show "\<exists>r. get_events now etype page_no page_size upcoming_only s = Inr r \<and>
        page_contract page_no page_size
          (map stringify_id (cursor_sort ''startDate'' (- 1)
             (find_docs (str_filter ''type'' etype
                 @ (if upcoming_only then [(''startDate'', Gte (VDate now))] else []))
                (events_collection s)))) r"
    unfolding get_events_def Let_def by (rule pr)
  show "\<exists>r. get_gallery_images gcategory page_no page_size s = Inr r \<and>
        page_contract page_no page_size
          (map stringify_id (cursor_sort ''uploadDate'' (- 1)
             (find_docs (str_filter ''category'' gcategory) (gallery_collection s)))) r"
    unfolding get_gallery_images_def Let_def by (rule pr)
next
  assume o: "2 ^ 63 - 1 < (page_no - 1) * page_size \<or> 2 ^ 63 - 1 < page_size"
  note po = paged_overflow[OF assms o]
  show "get_programs active_only page_no page_size s = Inl OverflowError"
    unfolding get_programs_def Let_def by (rule po)
  show "get_news category page_no page_size featured_only s = Inl OverflowError"
    unfolding get_news_def Let_def by (rule po)
  show "get_partnerships ptype country page_no page_size s = Inl OverflowError"
    unfolding get_partnerships_def Let_def by (rule po)
  show "get_events now etype page_no page_size upcoming_only s = Inl OverflowError"
    unfolding get_events_def Let_def by (rule po)
  show "get_gallery_images gcategory page_no page_size s = Inl OverflowError"
    unfolding get_gallery_images_def Let_def by (rule po)
next
  show "get_team_members s =
       map stringify_id (take 100 (cursor_sort ''order'' 1 (team_collection s)))"
    by (simp add: get_team_members_def find_all)
  show "get_faqs fcategory s =
       map stringify_id (take 500 (cursor_sort ''order'' 1
         (find_docs (str_filter ''category'' fcategory) (faqs_collection s))))"
    by (simp add: get_faqs_def)
  show "get_static_content sect s =
       map stringify_id (take 100
         (find_docs (str_filter ''section'' sect) (static_content_collection s)))"
    by (simp add: get_static_content_def)
  show "fst (get_contacts form_type s) =
       map contact_view (take 1000 (cursor_sort ''createdAt'' (- 1)
         (find_docs (str_filter ''formType'' form_type) (contacts_collection s))))"
    by (simp add: get_contacts_def Let_def)
qed

lemma sorted_sample_programs: "cursor_sort ''createdAt'' (- 1) (find_docs [(''status'', Eq (VStr ''Active''))] (programs_collection sample_db))
   = [sample_program ''p3'' ''Computer Science'' 30, sample_program ''p2'' ''International Business'' 20, sample_program ''p1'' ''Engineering Innovation'' 10]"
  by (simp add: sample_db_def empty_db_def find_docs_def matches_def sample_program_def cursor_sort_def bson_less_def)

theorem pagination_envelope_witness:
  "(1::int) \<le> 2 \<and> ((2::int) - 1) * 2 \<le> 2 ^ 63 - 1 \<and> (2::int) \<le> 2 ^ 63 - 1 \<and>
   (\<exists>r. get_programs True 2 2 sample_db = Inr r \<and> total r = 3 \<and> totalPages r = 2 \<and>
        map (\<lambda>d. map_of d ''id'') (items r) = [Some (VStr ''p1'')]) \<and>
   (1::int) \<le> 2 ^ 63 + 1 \<and> (1::int) \<le> 1 \<and> (2::int) ^ 63 - 1 < (2 ^ 63 + 1 - 1) * 1 \<and>
   get_news None (2 ^ 63 + 1) 1 False sample_db = Inl OverflowError"
proof -
  have h: "(1::int) \<le> 2" by simp
  have b: "((2::int) - 1) * 2 \<le> 2 ^ 63 - 1 \<and> (2::int) \<le> 2 ^ 63 - 1" by simp
  from pagination_envelope[OF h h, of True sample_db, THEN conjunct1] b
  obtain r where r: "get_programs True 2 2 sample_db = Inr r"
    and c: "page_contract 2 2 (map program_ids (cursor_sort ''createdAt'' (- 1)
             (find_docs (if True then [(''status'', Eq (VStr ''Active''))] else [])
                (programs_collection sample_db)))) r"
    by blast
  have e: "total r = 3 \<and> totalPages r = 2 \<and> map (\<lambda>d. map_of d ''id'') (items r) = [Some (VStr ''p1'')]"
    using c by (simp add: page_contract_def sorted_sample_programs py_slice_def program_ids_def stringify_id_def sample_program_def)
  have g: "(1::int) \<le> 2 ^ 63 + 1" "(1::int) \<le> 1" by simp_all
  have o: "(2::int) ^ 63 - 1 < (2 ^ 63 + 1 - 1) * 1 \<or> (2::int) ^ 63 - 1 < 1" by simp
  have v: "get_news None (2 ^ 63 + 1) 1 False sample_db = Inl OverflowError"
    using pagination_envelope[OF g, where category = None and featured_only = False
        and s = sample_db, THEN conjunct2, THEN conjunct1] o
    by blast
  show ?thesis using h b r e g v by simp
qed

theorem pagination_overflow_counterexample:
  "(1::int) \<le> 2 ^ 63 + 1 \<and>
   get_programs True (2 ^ 63 + 1) 1 sample_db = Inl OverflowError \<and>
   get_programs_route (2 ^ 63 + 1) 1 sample_db = Inl (HTTPException 500 ''Internal server error'')"
proof -
  have g: "(1::int) \<le> 2 ^ 63 + 1" "(1::int) \<le> 1" by simp_all
  have o: "(2::int) ^ 63 - 1 < (2 ^ 63 + 1 - 1) * 1 \<or> (2::int) ^ 63 - 1 < 1" by simp
  have f: "get_programs True (2 ^ 63 + 1) 1 sample_db = Inl OverflowError"
    unfolding get_programs_def Let_def by (rule paged_overflow[OF g o])
  have "get_programs_route (2 ^ 63 + 1) 1 sample_db = Inl (HTTPException 500 ''Internal server error'')"
    unfolding get_programs_route_def f by simp
  with f show ?thesis by simp
qed

section \<open>Deletion\<close>

lemma collection_of_with [simp]: "collection_of r (with_collection r c s) = c"
  by (cases r) simp_all

lemma delete_op_eq:
  "delete_op r ident s =
     (case delete_one (by_key r ident) (collection_of r s) of
        (c, n) \<Rightarrow> (n > 0, with_collection r c s))"
  by (cases r)
    (simp_all add: by_key_def delete_program_def delete_news_def delete_partnership_def
      delete_team_member_def delete_event_def delete_gallery_image_def delete_faq_def
      delete_static_content_def)

lemma delete_one_absent:
  "filter (matches q) c = [] \<Longrightarrow> delete_one q c = (c, 0)"
  by (induction c) (auto split: if_splits)

lemma delete_one_present:
  "filter (matches q) c \<noteq> [] \<Longrightarrow>
     snd (delete_one q c) = 1 \<and>
     length (filter (matches q) (fst (delete_one q c))) = length (filter (matches q) c) - 1"
  by (induction c) (auto split: prod.splits)

lemma fst_repeat_call_Suc:
  "fst (repeat_call f (Suc n) s) = fst (f s) # fst (repeat_call f n (snd (f s)))"
  by (simp split: prod.splits)

lemma with_collection_same [simp]: "with_collection r (collection_of r s) s = s"
  by (cases r) simp_all

lemma delete_op_absent:
  assumes "filter (matches (by_key r ident)) (collection_of r s) = []"
  shows "delete_op r ident s = (False, s)"
  using assms by (simp add: delete_op_eq delete_one_absent)

lemma delete_op_present:
  assumes "filter (matches (by_key r ident)) (collection_of r s) \<noteq> []"
  shows "fst (delete_op r ident s) = True"
    and "length (filter (matches (by_key r ident)) (collection_of r (snd (delete_op r ident s)))) =
         length (filter (matches (by_key r ident)) (collection_of r s)) - 1"
  using delete_one_present[OF assms]
  by (auto simp: delete_op_eq split: prod.splits)

lemma delete_contact_absent:
  assumes "filter (matches [(''id'', Eq (VStr ident))]) (contacts_collection s) = []"
  shows "delete_contact ident s = (False, s)"
  using assms by (simp add: delete_contact_def delete_one_absent)

lemma delete_contact_present:
  assumes "filter (matches [(''id'', Eq (VStr ident))]) (contacts_collection s) \<noteq> []"
  shows "fst (delete_contact ident s) = True"
    and "length (filter (matches [(''id'', Eq (VStr ident))])
           (contacts_collection (snd (delete_contact ident s)))) =
         length (filter (matches [(''id'', Eq (VStr ident))]) (contacts_collection s)) - 1"
  using delete_one_present[OF assms]
  by (auto simp: delete_contact_def split: prod.splits)

text \<open>
  A run of deletes of one id succeeds once per stored record with that id and fails
  from then on.  The measure \<open>m\<close> counts the records the id still addresses.
\<close>

lemma repeat_delete_counts:
  assumes absent: "\<And>s. m s = 0 \<Longrightarrow> f s = (False, s)"
    and present: "\<And>s. m s \<noteq> 0 \<Longrightarrow> fst (f s) = True \<and> m (snd (f s)) = m s - 1"
  shows "fst (repeat_call f n s) = replicate (min n (m s)) True @ replicate (n - m s) False"
proof (induction n arbitrary: s)
  case 0
  then show ?case by simp
next
  case (Suc n)
  show ?case
  proof (cases "m s = 0")
    case True
    then show ?thesis
      unfolding fst_repeat_call_Suc using Suc[of s] absent[OF True] by simp
  next
    case False
    then obtain k where k: "m s = Suc k" by (cases "m s") auto
    from present[OF False] k have "fst (f s) = True" "m (snd (f s)) = k" by simp_all
    then show ?thesis
      unfolding fst_repeat_call_Suc using Suc[of "snd (f s)"] k by simp
  qed
qed

lemma repeat_delete_op:
  "fst (repeat_call (delete_op r ident) n s) =
     replicate (min n (length (filter (matches (by_key r ident)) (collection_of r s)))) True
       @ replicate (n - length (filter (matches (by_key r ident)) (collection_of r s))) False"
  by (rule repeat_delete_counts[where m = "\<lambda>s. length (filter (matches (by_key r ident)) (collection_of r s))"])
    (simp_all add: delete_op_absent delete_op_present)

lemma repeat_delete_contact:
  "fst (repeat_call (delete_contact ident) n s) =
     replicate (min n (length (filter (matches [(''id'', Eq (VStr ident))]) (contacts_collection s)))) True
       @ replicate (n - length (filter (matches [(''id'', Eq (VStr ident))]) (contacts_collection s))) False"
  by (rule repeat_delete_counts[where m = "\<lambda>s. length (filter (matches [(''id'', Eq (VStr ident))]) (contacts_collection s))"])
    (simp_all add: delete_contact_absent delete_contact_present)

lemma create_static_content_count:
  assumes "map_of content_data ''key'' = Some (VStr key)"
  shows "count_documents (by_key StaticContent key)
           (static_content_collection (snd (create_static_content new_id new_oid now content_data s))) =
         count_documents (by_key StaticContent key) (static_content_collection s) + 1"
  using assms
  by (simp add: create_static_content_def Let_def insert_one_def count_documents_def by_key_def
      matches_def update_conv')

lemma two_about_pages_keys:
  "map (\<lambda>d. map_of (doc_fields d) ''key'') (static_content_collection two_about_pages) =
     [Some (VStr ''about''), Some (VStr ''about'')]"
  by (simp add: two_about_pages_def create_static_content_def Let_def insert_one_def
      about_page_def empty_db_def update_conv')

lemma two_about_pages_count:
  "count_documents (by_key StaticContent ''about'') (collection_of StaticContent two_about_pages) = 2"
  by (simp add: two_about_pages_def create_static_content_def Let_def insert_one_def
      about_page_def empty_db_def count_documents_def by_key_def matches_def update_conv')

text \<open>
  C10.  For each of the eight resource types, and for contacts, a run of deletes of one id
  returns \<open>True\<close> once for every stored record that carries the id and \<open>False\<close> from then on.
  So deleting an id that no record carries returns \<open>False\<close> and leaves the store as it was,
  on every call, and deleting an id that exactly one record carries returns \<open>True\<close> on the
  first call and \<open>False\<close> on every later one.  Static content is addressed by its key, which
  comes from the caller: creating a record adds one to the number of records with its key,
  whatever is stored already.
\<close>

theorem delete_idempotent:
  "fst (repeat_call (delete_op r ident) n s) =
     replicate (min n (nat (count_documents (by_key r ident) (collection_of r s)))) True
       @ replicate (n - nat (count_documents (by_key r ident) (collection_of r s))) False \<and>
   fst (repeat_call (delete_contact ident) n s) =
     replicate (min n (nat (count_documents [(''id'', Eq (VStr ident))] (contacts_collection s)))) True
       @ replicate (n - nat (count_documents [(''id'', Eq (VStr ident))] (contacts_collection s))) False \<and>
   (count_documents (by_key r ident) (collection_of r s) = 0 \<longrightarrow>
      delete_op r ident s = (False, s) \<and>
      fst (repeat_call (delete_op r ident) n s) = replicate n False) \<and>
   (count_documents (by_key r ident) (collection_of r s) = 1 \<longrightarrow>
      fst (repeat_call (delete_op r ident) (Suc n) s) = True # replicate n False) \<and>
   (count_documents [(''id'', Eq (VStr ident))] (contacts_collection s) = 0 \<longrightarrow>
      delete_contact ident s = (False, s) \<and>
      fst (repeat_call (delete_contact ident) n s) = replicate n False) \<and>
   (count_documents [(''id'', Eq (VStr ident))] (contacts_collection s) = 1 \<longrightarrow>
      fst (repeat_call (delete_contact ident) (Suc n) s) = True # replicate n False) \<and>
   (map_of content_data ''key'' = Some (VStr ident) \<longrightarrow>
      count_documents (by_key StaticContent ident)
        (static_content_collection (snd (create_static_content new_id new_oid now content_data s))) =
      count_documents (by_key StaticContent ident) (static_content_collection s) + 1)"
proof (intro conjI impI)
  show "fst (repeat_call (delete_op r ident) n s) =
     replicate (min n (nat (count_documents (by_key r ident) (collection_of r s)))) True
       @ replicate (n - nat (count_documents (by_key r ident) (collection_of r s))) False"
    unfolding repeat_delete_op by (simp add: count_documents_def)
  show "fst (repeat_call (delete_contact ident) n s) =
     replicate (min n (nat (count_documents [(''id'', Eq (VStr ident))] (contacts_collection s)))) True
       @ replicate (n - nat (count_documents [(''id'', Eq (VStr ident))] (contacts_collection s))) False"
    unfolding repeat_delete_contact by (simp add: count_documents_def)
next
  assume "count_documents (by_key r ident) (collection_of r s) = 0"
  then have e: "filter (matches (by_key r ident)) (collection_of r s) = []"
    by (simp add: count_documents_def)
  show "delete_op r ident s = (False, s)"
    by (rule delete_op_absent[OF e])
  show "fst (repeat_call (delete_op r ident) n s) = replicate n False"
    unfolding repeat_delete_op by (simp add: e)
next
  assume "count_documents (by_key r ident) (collection_of r s) = 1"
  then have "length (filter (matches (by_key r ident)) (collection_of r s)) = 1"
    by (simp add: count_documents_def)
  then show "fst (repeat_call (delete_op r ident) (Suc n) s) = True # replicate n False"
    unfolding repeat_delete_op by simp
next
  assume "count_documents [(''id'', Eq (VStr ident))] (contacts_collection s) = 0"
  then have e: "filter (matches [(''id'', Eq (VStr ident))]) (contacts_collection s) = []"
    by (simp add: count_documents_def)
  show "delete_contact ident s = (False, s)"
    by (rule delete_contact_absent[OF e])
  show "fst (repeat_call (delete_contact ident) n s) = replicate n False"
    unfolding repeat_delete_contact by (simp add: e)
next
  assume "count_documents [(''id'', Eq (VStr ident))] (contacts_collection s) = 1"
  then have "length (filter (matches [(''id'', Eq (VStr ident))]) (contacts_collection s)) = 1"
    by (simp add: count_documents_def)
  then show "fst (repeat_call (delete_contact ident) (Suc n) s) = True # replicate n False"
    unfolding repeat_delete_contact by simp
next
  assume "map_of content_data ''key'' = Some (VStr ident)"
  then show "count_documents (by_key StaticContent ident)
        (static_content_collection (snd (create_static_content new_id new_oid now content_data s))) =
      count_documents (by_key StaticContent ident) (static_content_collection s) + 1"
    by (rule create_static_content_count)
qed

theorem delete_idempotent_witness:
  "count_documents (by_key Programs ''p2'') (collection_of Programs sample_db) = 1 \<and>
   fst (repeat_call (delete_op Programs ''p2'') (Suc 2) sample_db) = [True, False, False] \<and>
   count_documents (by_key News ''p2'') (collection_of News sample_db) = 0 \<and>
   delete_op News ''p2'' sample_db = (False, sample_db) \<and>
   fst (repeat_call (delete_op News ''p2'') 2 sample_db) = [False, False] \<and>
   count_documents [(''id'', Eq (VStr ''c2''))] (contacts_collection sample_db) = 1 \<and>
   fst (repeat_call (delete_contact ''c2'') (Suc 2) sample_db) = [True, False, False] \<and>
   count_documents [(''id'', Eq (VStr ''zz''))] (contacts_collection sample_db) = 0 \<and>
   delete_contact ''zz'' sample_db = (False, sample_db) \<and>
   fst (repeat_call (delete_contact ''zz'') 2 sample_db) = [False, False] \<and>
   map_of about_page ''key'' = Some (VStr ''about'') \<and>
   count_documents (by_key StaticContent ''about'')
     (static_content_collection (snd (create_static_content ''u1'' ''o1'' 1 about_page sample_db))) = 1 \<and>
   count_documents (by_key StaticContent ''about'') (collection_of StaticContent two_about_pages) = 2 \<and>
   fst (repeat_call (delete_op StaticContent ''about'') 4 two_about_pages) = [True, True, False, False]"
proof -
  have one: "count_documents (by_key Programs ''p2'') (collection_of Programs sample_db) = 1"
    by (simp add: count_documents_def by_key_def sample_db_def empty_db_def matches_def sample_program_def)
  have none: "count_documents (by_key News ''p2'') (collection_of News sample_db) = 0"
    by (simp add: count_documents_def by_key_def sample_db_def empty_db_def matches_def
        sample_news_def)
  have cone: "count_documents [(''id'', Eq (VStr ''c2''))] (contacts_collection sample_db) = 1"
    by (simp add: count_documents_def sample_db_def empty_db_def matches_def sample_contact_def)
  have cnone: "count_documents [(''id'', Eq (VStr ''zz''))] (contacts_collection sample_db) = 0"
    by (simp add: count_documents_def sample_db_def empty_db_def matches_def sample_contact_def)
  have key: "map_of about_page ''key'' = Some (VStr ''about'')"
    by (simp add: about_page_def)
  have snone: "count_documents (by_key StaticContent ''about'') (static_content_collection sample_db) = 0"
    by (simp add: count_documents_def sample_db_def empty_db_def)
  have four: "replicate (min 4 (nat 2)) True @ replicate (4 - nat 2) False = [True, True, False, False]"
    by (simp add: numeral_eq_Suc)
  show ?thesis
    using one none cone cnone key snone two_about_pages_count four
      delete_idempotent[where r = Programs and ident = "''p2''" and s = sample_db and n = 2]
      delete_idempotent[where r = News and ident = "''p2''" and s = sample_db and n = 2]
      delete_idempotent[where r = News and ident = "''c2''" and s = sample_db and n = 2]
      delete_idempotent[where r = News and ident = "''zz''" and s = sample_db and n = 2]
      delete_idempotent[where r = StaticContent and ident = "''about''" and s = sample_db
        and content_data = about_page and new_id = "''u1''" and new_oid = "''o1''" and now = 1]
      delete_idempotent[where r = StaticContent and ident = "''about''" and s = two_about_pages
        and n = 4]
    by (simp add: numeral_2_eq_2)
qed

theorem delete_twice_counterexample:
  "map (\<lambda>d. map_of (doc_fields d) ''key'') (static_content_collection two_about_pages) =
     [Some (VStr ''about''), Some (VStr ''about'')] \<and>
   fst (repeat_call (delete_static_content ''about'') 3 two_about_pages) = [True, True, False]"
proof -
  have "fst (repeat_call (delete_op StaticContent ''about'') 3 two_about_pages) =
      replicate (min 3 2) True @ replicate (3 - 2) False"
    unfolding repeat_delete_op using two_about_pages_count by (simp add: count_documents_def)
  then have "fst (repeat_call (delete_static_content ''about'') 3 two_about_pages) =
      [True, True, False]"
    by (simp add: numeral_eq_Suc)
  with two_about_pages_keys show ?thesis by simp
qed

section \<open>Status normalisation on read\<close>

lemma normalize_status_lookup:
  "map_of (normalize_status c) ''status'' = canonical_status (map_of c ''status'')"
  by (simp add: normalize_status_def canonical_status_def update_conv' split: option.splits)

lemma contact_view_status:
  "map_of (contact_view d) ''status'' = canonical_status (map_of (doc_fields d) ''status'')"
  by (simp add: contact_view_def Let_def normalize_status_lookup stringify_id_def update_conv')

text \<open>
  C7.  Listing contacts returns, for each record read (at most 1000, newest first),
  the canonical status of what is stored: \<open>read\<close>, \<open>new\<close> and \<open>replied\<close> come back as \<open>Read\<close>,
  \<open>New\<close> and \<open>Replied\<close>, a record without a status comes back with \<open>New\<close>, and the store
  itself is left as it was.
\<close>

theorem contact_status_read_time:
  "snd (get_contacts form_type s) = s \<and>
   map (\<lambda>r. map_of r ''status'') (fst (get_contacts form_type s)) =
     map (\<lambda>d. canonical_status (map_of (doc_fields d) ''status''))
       (take 1000 (cursor_sort ''createdAt'' (- 1)
          (find_docs (str_filter ''formType'' form_type) (contacts_collection s))))"
  by (simp add: get_contacts_def Let_def contact_view_status)

lemma sorted_sample_contacts:
  "cursor_sort ''createdAt'' (- 1) (find_docs (str_filter ''formType'' None) (contacts_collection sample_db)) =
     [sample_contact ''c3'' (Some ''Replied'') 30, sample_contact ''c2'' None 20,
      sample_contact ''c1'' (Some ''read'') 10]"
  by (simp add: sample_db_def empty_db_def find_docs_def matches_def str_filter_def
      sample_contact_def cursor_sort_def bson_less_def)

theorem contact_status_read_time_witness:
  "map (\<lambda>r. map_of r ''status'') (fst (get_contacts None sample_db)) =
     [Some (VStr ''Replied''), Some (VStr ''New''), Some (VStr ''Read'')] \<and>
   map (\<lambda>d. map_of (doc_fields d) ''status'') (contacts_collection (snd (get_contacts None sample_db))) =
     [Some (VStr ''read''), None, Some (VStr ''Replied'')]"
proof -
  have "map (\<lambda>d. map_of (doc_fields d) ''status'') (contacts_collection sample_db) =
     [Some (VStr ''read''), None, Some (VStr ''Replied'')]"
    by (simp add: sample_db_def empty_db_def sample_contact_def)
  then show ?thesis
    using contact_status_read_time[of None sample_db]
    by (simp add: sorted_sample_contacts canonical_status_def sample_contact_def)
qed

section \<open>Partial updates\<close>

lemma map_of_set_fields:
  "distinct (map fst u) \<Longrightarrow>
     map_of (set_fields u d) k = (case map_of u k of None \<Rightarrow> map_of d k | Some v \<Rightarrow> Some v)"
proof (induction u arbitrary: d)
  case Nil
  then show ?case by (simp add: set_fields_def)
next
  case (Cons a u)
  obtain x y where a: "a = (x, y)" by (cases a)
  have sf: "set_fields (a # u) d = set_fields u (AList.update x y d)"
    by (simp add: set_fields_def a)
  have nx: "map_of u x = None" using Cons.prems a by (simp add: map_of_eq_None_iff)
  show ?case
    unfolding sf using Cons.IH[of "AList.update x y d"] Cons.prems nx
    by (simp add: a update_conv' split: option.splits)
qed

lemma set_fields_same_iff:
  "distinct (map fst u) \<Longrightarrow>
     (set_fields u d = d) = (\<forall>k v. map_of u k = Some v \<longrightarrow> map_of d k = Some v)"
proof (induction u)
  case Nil
  then show ?case by (simp add: set_fields_def)
next
  case (Cons a u)
  obtain x y where a: "a = (x, y)" by (cases a)
  have sf: "set_fields (a # u) d = set_fields u (AList.update x y d)"
    by (simp add: set_fields_def a)
  have nx: "map_of u x = None" using Cons.prems a by (simp add: map_of_eq_None_iff)
  have du: "distinct (map fst u)" using Cons.prems by simp
  show ?case
  proof
    assume "set_fields (a # u) d = d"
    then have "map_of (set_fields (a # u) d) k = map_of d k" for k by simp
    then have "(case map_of (a # u) k of None \<Rightarrow> map_of d k | Some v \<Rightarrow> Some v) = map_of d k" for k
      using map_of_set_fields[OF Cons.prems, of d k] by simp
    then show "\<forall>k v. map_of (a # u) k = Some v \<longrightarrow> map_of d k = Some v"
      by (metis option.simps(5))
  next
    assume h: "\<forall>k v. map_of (a # u) k = Some v \<longrightarrow> map_of d k = Some v"
    then have "map_of d x = Some y" by (simp add: a)
    then have t: "AList.update x y d = d" by (rule update_triv)
    have "\<forall>k v. map_of u k = Some v \<longrightarrow> map_of d k = Some v"
      using h nx a by (metis map_of_Cons_code(2) option.distinct(1))
    then show "set_fields (a # u) d = d"
      unfolding sf t using Cons.IH[OF du] by simp
  qed
qed

lemma map_of_filter_distinct:
  "distinct (map fst u) \<Longrightarrow>
     map_of (filter P u) k =
       (case map_of u k of None \<Rightarrow> None | Some v \<Rightarrow> if P (k, v) then Some v else None)"
proof (induction u)
  case Nil
  then show ?case by simp
next
  case (Cons a u)
  obtain x y where a: "a = (x, y)" by (cases a)
  have nx: "map_of u x = None" using Cons.prems a by (simp add: map_of_eq_None_iff)
  have nf: "map_of (filter P u) x = None"
    using Cons.prems a by (auto simp: map_of_eq_None_iff)
  show ?case using Cons a nx nf by (auto split: option.splits)
qed

lemma applied_distinct:
  "distinct (map fst u) \<Longrightarrow> distinct (map fst (applied_fields now u))"
  by (simp add: applied_fields_def drop_none_def distinct_update distinct_map_filter)

lemma applied_lookup:
  assumes "distinct (map fst u)"
  shows "map_of (applied_fields now u) k =
     (if k = ''updatedAt'' then Some (VDate now)
      else case map_of u k of None \<Rightarrow> None | Some v \<Rightarrow> if v = VNone then None else Some v)"
proof -
  have d: "distinct (map fst (AList.update ''updatedAt'' (VDate now) u))"
    using assms by (simp add: distinct_update)
  show ?thesis
    unfolding applied_fields_def drop_none_def map_of_filter_distinct[OF d]
    by (simp add: update_conv' split: option.splits)
qed

lemma update_one_absent:
  "\<forall>x\<in>set c. \<not> matches q x \<Longrightarrow> update_one q u c = (c, 0)"
  by (induction c) auto

lemma update_one_at:
  assumes "\<forall>x\<in>set pre. \<not> matches q x" "matches q d"
  shows "update_one q u (pre @ d # post) =
     (pre @ d\<lparr>doc_fields := set_fields u (doc_fields d)\<rparr> # post,
      if set_fields u (doc_fields d) = doc_fields d then 0 else 1)"
  using assms by (induction pre) auto

lemma find_one_at:
  assumes "\<forall>x\<in>set pre. \<not> matches q x" "matches q d"
  shows "find_one q (pre @ d # post) = Some d"
  using assms by (induction pre) (auto simp: find_one_def)

lemma find_one_absent:
  "\<forall>x\<in>set c. \<not> matches q x \<Longrightarrow> find_one q c = None"
  by (simp add: find_one_def find_None_iff)

lemma matches_key:
  "matches [(key, Eq (VStr ident))] d = cond_holds (Eq (VStr ident)) (map_of (doc_fields d) key)"
  by (simp add: matches_def)


lemma stamped_update_applied:
  "stamped_update key now ident u c =
     (case update_one [(key, Eq (VStr ident))] (applied_fields now u) c of
        (c', n) \<Rightarrow>
          (if n \<noteq> 0 then map_option stringify_id (find_one [(key, Eq (VStr ident))] c') else None, c'))"
  by (simp add: stamped_update_def applied_fields_def)

lemma stamped_update_absent:
  assumes "\<forall>x\<in>set c. \<not> matches [(key, Eq (VStr ident))] x"
  shows "stamped_update key now ident u c = (None, c)"
  by (simp add: stamped_update_applied update_one_absent[OF assms])

lemma stamped_update_present:
  assumes pre: "\<forall>x\<in>set pre. \<not> matches [(key, Eq (VStr ident))] x"
    and d: "matches [(key, Eq (VStr ident))] d"
    and dist: "distinct (map fst u)"
    and key: "key \<noteq> ''updatedAt''" "map_of u key = None"
  shows "stamped_update key now ident u (pre @ d # post) =
     (if set_fields (applied_fields now u) (doc_fields d) = doc_fields d then None
      else Some (stringify_id (d\<lparr>doc_fields := set_fields (applied_fields now u) (doc_fields d)\<rparr>)),
      pre @ d\<lparr>doc_fields := set_fields (applied_fields now u) (doc_fields d)\<rparr> # post)"
proof -
  let ?d' = "d\<lparr>doc_fields := set_fields (applied_fields now u) (doc_fields d)\<rparr>"
  have "map_of (doc_fields ?d') key = map_of (doc_fields d) key"
    using key by (simp add: map_of_set_fields[OF applied_distinct[OF dist]] applied_lookup[OF dist])
  then have m: "matches [(key, Eq (VStr ident))] ?d'"
    using d by (simp add: matches_key)
  show ?thesis
    unfolding stamped_update_applied update_one_at[OF pre d]
    by (simp add: find_one_at[OF pre m])
qed

lemma update_op_eq:
  "r \<noteq> Gallery \<Longrightarrow>
   update_op r now ident u s =
     (case stamped_update (key_field r) now ident u (collection_of r s) of
        (res, c') \<Rightarrow> (res, with_collection r c' s))"
  by (cases r)
    (simp_all add: stamped_update_def Let_def update_program_def update_news_def
      update_partnership_def update_team_member_def update_event_def update_faq_def
      update_static_content_def get_program_by_id_def get_news_by_id_def
      get_partnership_by_id_def get_team_member_by_id_def get_event_by_id_def get_faq_by_id_def
      get_static_content_by_key_def split: prod.splits)

lemma get_op_eq:
  "get_op r ident s = map_option stringify_id (find_one (by_key r ident) (collection_of r s))"
  by (cases r)
    (simp_all add: by_key_def get_program_by_id_def get_news_by_id_def
      get_partnership_by_id_def get_team_member_by_id_def get_event_by_id_def get_faq_by_id_def
      get_static_content_by_key_def get_gallery_image_by_id_def)

lemma update_gallery_eq:
  "update_gallery_image ident u s =
     (case update_one (by_key Gallery ident) (drop_none u) (gallery_collection s) of
        (c', n) \<Rightarrow>
          (map_option stringify_id (find_one (by_key Gallery ident) c'), s\<lparr>gallery_collection := c'\<rparr>))"
  by (simp add: update_gallery_image_def Let_def get_gallery_image_by_id_def by_key_def
      split: prod.splits)

lemma key_field_not_stamp: "key_field r \<noteq> ''updatedAt''"
  by (cases r) simp_all


lemma update_op_absent:
  assumes "List.extract (matches (by_key r ident)) (collection_of r s) = None"
  shows "update_op r now ident u s = (None, s)"
proof -
  have a: "\<forall>x\<in>set (collection_of r s). \<not> matches (by_key r ident) x"
    using assms by (simp add: extract_None_iff)
  show ?thesis
  proof (cases "r = Gallery")
    case True
    then show ?thesis
      using a by (simp add: update_gallery_eq update_one_absent find_one_absent)
  next
    case False
    then show ?thesis
      using a by (simp add: update_op_eq stamped_update_absent by_key_def)
  qed
qed

lemma update_op_present:
  assumes r: "r \<noteq> Gallery"
    and ex: "List.extract (matches (by_key r ident)) (collection_of r s) = Some (pre, d, post)"
    and dist: "distinct (map fst u)"
    and key: "map_of u (key_field r) = None"
  shows "update_op r now ident u s =
     (if set_fields (applied_fields now u) (doc_fields d) = doc_fields d then None
      else Some (stringify_id (d\<lparr>doc_fields := set_fields (applied_fields now u) (doc_fields d)\<rparr>)),
      with_collection r
        (pre @ d\<lparr>doc_fields := set_fields (applied_fields now u) (doc_fields d)\<rparr> # post) s)"
proof -
  from ex have c: "collection_of r s = pre @ d # post"
    and d: "matches [(key_field r, Eq (VStr ident))] d"
    and pre: "\<forall>x\<in>set pre. \<not> matches [(key_field r, Eq (VStr ident))] x"
    by (simp_all add: extract_Some_iff by_key_def)
  show ?thesis
    unfolding update_op_eq[OF r] c
      stamped_update_present[OF pre d dist key_field_not_stamp key]
    by simp
qed

lemma with_collection_eq_iff: "(with_collection r c s = s) = (c = collection_of r s)"
proof
  assume "with_collection r c s = s"
  then have "collection_of r (with_collection r c s) = collection_of r s" by simp
  then show "c = collection_of r s" by simp
next
  assume "c = collection_of r s"
  then show "with_collection r c s = s" by simp
qed

lemma sdoc_fields_same: "(d\<lparr>doc_fields := f\<rparr> = d) = (f = doc_fields d)"
  by (cases d) auto

lemma update_gallery_present:
  assumes ex: "List.extract (matches (by_key Gallery ident)) (collection_of Gallery s) = Some (pre, d, post)"
    and dist: "distinct (map fst u)"
    and key: "map_of u (key_field Gallery) = None"
  shows "update_gallery_image ident u s =
     (Some (stringify_id (d\<lparr>doc_fields := set_fields (drop_none u) (doc_fields d)\<rparr>)),
      s\<lparr>gallery_collection := pre @ d\<lparr>doc_fields := set_fields (drop_none u) (doc_fields d)\<rparr> # post\<rparr>)"
proof -
  from ex have c: "gallery_collection s = pre @ d # post"
    and d: "matches (by_key Gallery ident) d"
    and pre: "\<forall>x\<in>set pre. \<not> matches (by_key Gallery ident) x"
    by (simp_all add: extract_Some_iff)
  let ?d' = "d\<lparr>doc_fields := set_fields (drop_none u) (doc_fields d)\<rparr>"
  have dd: "distinct (map fst (drop_none u))"
    using dist by (simp add: drop_none_def distinct_map_filter)
  have "map_of (drop_none u) ''id'' = None"
    using key dist by (simp add: drop_none_def map_of_filter_distinct)
  then have "map_of (doc_fields ?d') ''id'' = map_of (doc_fields d) ''id''"
    by (simp add: map_of_set_fields[OF dd])
  then have m: "matches (by_key Gallery ident) ?d'"
    using d by (simp add: by_key_def matches_key)
  show ?thesis
    unfolding update_gallery_eq c update_one_at[OF pre d]
    by (simp add: find_one_at[OF pre m])
qed

lemma update_gallery_refetch:
  "fst (update_gallery_image ident u s) =
     get_gallery_image_by_id ident (snd (update_gallery_image ident u s))"
  by (simp add: update_gallery_image_def Let_def split: prod.splits)

text \<open>
  C2 (as amended).  Take a record that exists and a payload that does not name the field
  the record is addressed by.  For every resource but gallery images the update returns
  a record exactly when the store reports a modification, and then it is the record as
  re-fetched after the update; it returns \<open>None\<close> exactly when the store is left as
  it was.  The payload always carries a fresh \<open>updatedAt\<close>, so whenever the stored stamp
  differs from the current time a record is returned, whatever the caller's fields are.
  The gallery update always returns the re-fetched record.
\<close>

theorem update_result_signal:
  assumes ex: "List.extract (matches (by_key r ident)) (collection_of r s) = Some (pre, d, post)"
    and dist: "distinct (map fst update_data)"
    and key: "map_of update_data (key_field r) = None"
  shows
    "(r \<noteq> Gallery \<longrightarrow>
        (fst (update_op r now ident update_data s) \<noteq> None \<longleftrightarrow>
           snd (update_one (by_key r ident)
                  (drop_none (AList.update ''updatedAt'' (VDate now) update_data))
                  (collection_of r s)) \<noteq> 0) \<and>
        (fst (update_op r now ident update_data s) = None \<longleftrightarrow>
           snd (update_op r now ident update_data s) = s) \<and>
        (fst (update_op r now ident update_data s) = None \<or>
         fst (update_op r now ident update_data s) =
           get_op r ident (snd (update_op r now ident update_data s))) \<and>
        (map_of (doc_fields d) ''updatedAt'' \<noteq> Some (VDate now) \<longrightarrow>
           fst (update_op r now ident update_data s) \<noteq> None)) \<and>
     (r = Gallery \<longrightarrow>
        fst (update_op r now ident update_data s) \<noteq> None \<and>
        fst (update_op r now ident update_data s) =
          get_op r ident (snd (update_op r now ident update_data s)))"
proof (intro conjI impI)
  assume r: "r \<noteq> Gallery"
  let ?A = "applied_fields now update_data"
  let ?d' = "d\<lparr>doc_fields := set_fields ?A (doc_fields d)\<rparr>"
  note up = update_op_present[OF r ex dist key, of now]
  from ex have c: "collection_of r s = pre @ d # post"
    and d: "matches (by_key r ident) d"
    and pre: "\<forall>x\<in>set pre. \<not> matches (by_key r ident) x"
    by (simp_all add: extract_Some_iff)
  have m: "matches (by_key r ident) ?d'"
  proof -
    have "map_of (doc_fields ?d') (key_field r) = map_of (doc_fields d) (key_field r)"
      using key key_field_not_stamp[of r]
      by (simp add: map_of_set_fields[OF applied_distinct[OF dist]] applied_lookup[OF dist])
    then show ?thesis using d by (simp add: by_key_def matches_key)
  qed
  show "(fst (update_op r now ident update_data s) \<noteq> None) =
      (snd (update_one (by_key r ident)
              (drop_none (AList.update ''updatedAt'' (VDate now) update_data))
              (collection_of r s)) \<noteq> 0)"
    unfolding up c update_one_at[OF pre d] by (simp add: applied_fields_def)
  show "(fst (update_op r now ident update_data s) = None) =
      (snd (update_op r now ident update_data s) = s)"
    unfolding up by (simp add: with_collection_eq_iff c sdoc_fields_same)
  show "fst (update_op r now ident update_data s) = None \<or>
      fst (update_op r now ident update_data s) =
        get_op r ident (snd (update_op r now ident update_data s))"
    unfolding up by (simp add: get_op_eq find_one_at[OF pre m])
  show "fst (update_op r now ident update_data s) \<noteq> None"
    if "map_of (doc_fields d) ''updatedAt'' \<noteq> Some (VDate now)"
  proof -
    have "map_of (set_fields ?A (doc_fields d)) ''updatedAt'' = Some (VDate now)"
      by (simp add: map_of_set_fields[OF applied_distinct[OF dist]] applied_lookup[OF dist])
    then have "set_fields ?A (doc_fields d) \<noteq> doc_fields d" using that by auto
    then show ?thesis unfolding up by simp
  qed
next
  assume r: "r = Gallery"
  note up = update_gallery_present[OF ex[unfolded r] dist key[unfolded r]]
  from ex have pre: "\<forall>x\<in>set pre. \<not> matches (by_key r ident) x"
    by (simp add: extract_Some_iff)
  show "fst (update_op r now ident update_data s) \<noteq> None"
    unfolding r by (simp add: up)
  show "fst (update_op r now ident update_data s) =
      get_op r ident (snd (update_op r now ident update_data s))"
    unfolding r by (simp add: update_gallery_refetch)
qed

lemma sample_programs:
  "programs_collection sample_db =
     [sample_program ''p1'' ''Engineering Innovation'' 10,
      sample_program ''p2'' ''International Business'' 20,
      sample_program ''p3'' ''Computer Science'' 30]"
  by (simp add: sample_db_def empty_db_def)

lemma extract_p1:
  "List.extract (matches (by_key Programs ''p1'')) (collection_of Programs sample_db) =
     Some ([], sample_program ''p1'' ''Engineering Innovation'' 10,
       [sample_program ''p2'' ''International Business'' 20,
        sample_program ''p3'' ''Computer Science'' 30])"
  by (simp add: sample_programs extract_Some_iff by_key_def matches_def sample_program_def)

lemma extract_g1:
  "List.extract (matches (by_key Gallery ''g1'')) (collection_of Gallery sample_db) =
     Some ([], sample_image ''g1'', [])"
  by (simp add: sample_db_def empty_db_def extract_Some_iff by_key_def matches_def sample_image_def)

theorem update_result_signal_witness:
  "List.extract (matches (by_key Programs ''p1'')) (collection_of Programs sample_db) =
     Some ([], sample_program ''p1'' ''Engineering Innovation'' 10,
       [sample_program ''p2'' ''International Business'' 20,
        sample_program ''p3'' ''Computer Science'' 30]) \<and>
   distinct (map fst ([] :: pydict)) \<and> map_of ([] :: pydict) (key_field Programs) = None \<and>
   Programs \<noteq> Gallery \<and>
   map_of (doc_fields (sample_program ''p1'' ''Engineering Innovation'' 10)) ''updatedAt''
     \<noteq> Some (VDate 40) \<and>
   fst (update_op Programs 40 ''p1'' [] sample_db) \<noteq> None \<and>
   fst (update_op Programs 40 ''p1'' [] sample_db) =
     get_op Programs ''p1'' (snd (update_op Programs 40 ''p1'' [] sample_db)) \<and>
   snd (update_op Programs 40 ''p1'' [] sample_db) \<noteq> sample_db \<and>
   List.extract (matches (by_key Gallery ''g1'')) (collection_of Gallery sample_db) =
     Some ([], sample_image ''g1'', []) \<and>
   fst (update_op Gallery 40 ''g1'' [] sample_db) \<noteq> None \<and>
   fst (update_op Gallery 40 ''g1'' [] sample_db) =
     get_op Gallery ''g1'' (snd (update_op Gallery 40 ''g1'' [] sample_db))"
proof -
  have st: "map_of (doc_fields (sample_program ''p1'' ''Engineering Innovation'' 10)) ''updatedAt''
     \<noteq> Some (VDate 40)"
    by (simp add: sample_program_def)
  have a: "distinct (map fst ([] :: pydict))" by simp
  have b: "map_of ([] :: pydict) (key_field Programs) = None" by simp
  have c: "map_of ([] :: pydict) (key_field Gallery) = None" by simp
  have ng: "Programs \<noteq> Gallery" by simp
  have P: "fst (update_op Programs 40 ''p1'' [] sample_db) \<noteq> None \<and>
     fst (update_op Programs 40 ''p1'' [] sample_db) =
       get_op Programs ''p1'' (snd (update_op Programs 40 ''p1'' [] sample_db)) \<and>
     snd (update_op Programs 40 ''p1'' [] sample_db) \<noteq> sample_db"
    using update_result_signal[OF extract_p1 a b, of 40] st ng by blast
  have G: "fst (update_op Gallery 40 ''g1'' [] sample_db) \<noteq> None \<and>
     fst (update_op Gallery 40 ''g1'' [] sample_db) =
       get_op Gallery ''g1'' (snd (update_op Gallery 40 ''g1'' [] sample_db))"
    using update_result_signal[OF extract_g1 a c, of 40] by blast
  show ?thesis
    by (intro conjI extract_p1 extract_g1 a b ng st P[THEN conjunct1]
        P[THEN conjunct2, THEN conjunct1] P[THEN conjunct2, THEN conjunct2]
        G[THEN conjunct1] G[THEN conjunct2])
qed

text \<open>
  C2 as stated fails: program \<open>p1\<close> exists, the caller's payload is empty after filtering
  (or repeats the stored title), and the update still returns the record.
\<close>

theorem update_none_counterexample:
  "get_op Programs ''p1'' sample_db \<noteq> None \<and>
   drop_none [(''title'', VNone)] = [] \<and>
   fst (update_op Programs 40 ''p1'' [(''title'', VNone)] sample_db) \<noteq> None \<and>
   map_of (doc_fields (sample_program ''p1'' ''Engineering Innovation'' 10)) ''title'' =
     Some (VStr ''Engineering Innovation'') \<and>
   fst (update_op Programs 40 ''p1'' [(''title'', VStr ''Engineering Innovation'')] sample_db) \<noteq> None"
  by (simp add: get_program_by_id_def update_program_def find_one_def sample_db_def empty_db_def
      matches_def sample_program_def drop_none_def set_fields_def Let_def)

section \<open>The update policies\<close>

lemma stamped_update_store:
  assumes pre: "\<forall>x\<in>set pre. \<not> matches [(key, Eq (VStr ident))] x"
    and d: "matches [(key, Eq (VStr ident))] d"
  shows "snd (stamped_update key now ident u (pre @ d # post)) =
     pre @ d\<lparr>doc_fields := set_fields (applied_fields now u) (doc_fields d)\<rparr> # post"
  unfolding stamped_update_applied update_one_at[OF pre d] by simp

lemma update_op_store:
  assumes r: "r \<noteq> Gallery"
    and ex: "List.extract (matches (by_key r ident)) (collection_of r s) = Some (pre, d, post)"
  shows "collection_of r (snd (update_op r now ident u s)) =
     pre @ d\<lparr>doc_fields := set_fields (applied_fields now u) (doc_fields d)\<rparr> # post"
proof -
  from ex have c: "collection_of r s = pre @ d # post"
    and d: "matches [(key_field r, Eq (VStr ident))] d"
    and pre: "\<forall>x\<in>set pre. \<not> matches [(key_field r, Eq (VStr ident))] x"
    by (simp_all add: extract_Some_iff by_key_def)
  have "collection_of r (snd (update_op r now ident u s)) =
      snd (stamped_update (key_field r) now ident u (collection_of r s))"
    unfolding update_op_eq[OF r] by (simp split: prod.splits)
  then show ?thesis
    unfolding c stamped_update_store[OF pre d] .
qed

lemma applied_merge:
  assumes "distinct (map fst u)"
  shows "map_of (set_fields (applied_fields now u) stored) k = merged_field now u stored k"
  by (simp add: map_of_set_fields[OF applied_distinct[OF assms]] applied_lookup[OF assms]
      merged_field_def split: option.splits)

lemma update_op_fields:
  assumes r: "r \<noteq> Gallery"
    and ex: "List.extract (matches (by_key r ident)) (collection_of r s) = Some (pre, d, post)"
    and dist: "distinct (map fst u)"
  shows "\<exists>d'. collection_of r (snd (update_op r now ident u s)) = pre @ d' # post \<and>
     oid d' = oid d \<and> (\<forall>k. map_of (doc_fields d') k = merged_field now u (doc_fields d) k)"
  unfolding update_op_store[OF r ex]
  by (rule exI[of _ "d\<lparr>doc_fields := set_fields (applied_fields now u) (doc_fields d)\<rparr>"])
    (simp add: applied_merge[OF dist])

lemma filtered_merge:
  assumes "distinct (map fst u)"
  shows "merged_field now (filter (\<lambda>(k, v). P v) u) stored k =
     (if k = ''updatedAt'' then Some (VDate now)
      else case map_of u k of
             None \<Rightarrow> map_of stored k
           | Some v \<Rightarrow> if P v \<and> v \<noteq> VNone then Some v else map_of stored k)"
  by (simp add: merged_field_def map_of_filter_distinct[OF assms] split: option.splits)

lemma py_strip_empty: "(py_strip x = []) = (\<forall>c\<in>set x. py_isspace c)"
proof
  assume "py_strip x = []"
  then have a: "\<forall>c\<in>set (dropWhile py_isspace x). py_isspace c"
    by (simp add: py_strip_def dropWhile_eq_Nil_conv)
  have "dropWhile py_isspace x = []"
  proof (cases "dropWhile py_isspace x")
    case Nil
    then show ?thesis .
  next
    case (Cons b bs)
    then have "\<not> py_isspace b" using hd_dropWhile[of py_isspace x] by simp
    then show ?thesis using a Cons by simp
  qed
  then show "\<forall>c\<in>set x. py_isspace c" by (simp add: dropWhile_eq_Nil_conv)
next
  assume "\<forall>c\<in>set x. py_isspace c"
  then have e: "dropWhile py_isspace x = []" by (simp add: dropWhile_eq_Nil_conv)
  show "py_strip x = []" unfolding py_strip_def e by simp
qed

lemma verify_sample: "verify_token sample_key 40 sample_token = Inr ''admin''"
  by (simp add: verify_token_def jwt_decode_def sample_token_def create_access_token_def
      jwt_encode_def ALGORITHM_def ACCESS_TOKEN_EXPIRE_MINUTES_def Let_def)

lemma route_store_programs:
  assumes "verify_token secret_key now cred = Inr user"
  shows "store (snd (update_program_admin secret_key now cred ident given a)) =
     snd (update_op Programs now ident (filter (\<lambda>(k, v). v \<noteq> VNone) given) (store a))"
  using assms by (simp add: update_program_admin_def Let_def split: prod.splits option.splits)

lemma route_store_news:
  assumes "verify_token secret_key now cred = Inr user"
  shows "store (snd (update_news_admin secret_key now cred ident given a)) =
     snd (update_op News now ident (filter (\<lambda>(k, v). refined_keep v) given) (store a))"
  using assms by (simp add: update_news_admin_def Let_def split: prod.splits option.splits)

lemma route_store_events:
  assumes "verify_token secret_key now cred = Inr user"
  shows "store (snd (update_event_admin secret_key now cred ident given a)) =
     snd (update_op Events now ident (filter (\<lambda>(k, v). refined_keep v) given) (store a))"
  using assms by (simp add: update_event_admin_def Let_def split: prod.splits option.splits)

lemma default_filter_merge:
  assumes "distinct (map fst u)"
  shows "merged_field now (filter (\<lambda>(k, v). v \<noteq> VNone) u) stored k = merged_field now u stored k"
  unfolding filtered_merge[OF assms, of now "\<lambda>v. v \<noteq> VNone"]
  by (simp add: merged_field_def split: option.splits)

lemma refined_filter_merge:
  assumes "distinct (map fst u)"
  shows "merged_field now (filter (\<lambda>(k, v). refined_keep v) u) stored k = refined_field now u stored k"
proof -
  have rk: "(refined_keep v \<and> v \<noteq> VNone) = (case v of VNone \<Rightarrow> False | VStr x \<Rightarrow> \<not> list_all py_isspace x | _ \<Rightarrow> True)" for v
    by (cases v) (simp_all add: py_strip_empty list_all_iff)
  show ?thesis
    unfolding filtered_merge[OF assms, of now refined_keep] refined_field_def rk
    by (simp split: option.splits val.splits)
qed

text \<open>
  C3.  Under the default policy (every update operation that stamps \<open>updatedAt\<close>, and
  the program route, which filters the same way before calling it), an update of an
  existing record with a payload of distinct keys rewrites that record alone, and
  field by field as \<open>merged_field\<close> says: a \<^verbatim>\<open>None\<close> field leaves the stored value, a field
  with a value overwrites it, and \<open>updatedAt\<close> is the time of the update, which is not
  before the previous stamp when the clock has not gone backwards.
\<close>

theorem default_policy_update:
  assumes r: "r \<noteq> Gallery"
    and ex: "List.extract (matches (by_key r ident)) (collection_of r s) = Some (pre, d, post)"
    and dist: "distinct (map fst update_data)"
  shows
    "(\<exists>d'. collection_of r (snd (update_op r now ident update_data s)) = pre @ d' # post \<and>
        oid d' = oid d \<and>
        (\<forall>k. map_of (doc_fields d') k = merged_field now update_data (doc_fields d) k) \<and>
        (\<forall>t. map_of (doc_fields d) ''updatedAt'' = Some (VDate t) \<longrightarrow> t \<le> now \<longrightarrow>
           (\<exists>t'. map_of (doc_fields d') ''updatedAt'' = Some (VDate t') \<and> t \<le> t'))) \<and>
     (r = Programs \<longrightarrow> store a = s \<longrightarrow> verify_token secret_key now cred = Inr user \<longrightarrow>
        (\<exists>d'. programs_collection
                (store (snd (update_program_admin secret_key now cred ident update_data a))) =
              pre @ d' # post \<and>
           oid d' = oid d \<and>
           (\<forall>k. map_of (doc_fields d') k = merged_field now update_data (doc_fields d) k)))"
proof (intro conjI impI)
  from update_op_fields[OF r ex dist, of now]
  obtain d' where d': "collection_of r (snd (update_op r now ident update_data s)) = pre @ d' # post"
    "oid d' = oid d" "\<forall>k. map_of (doc_fields d') k = merged_field now update_data (doc_fields d) k"
    by blast
  have "map_of (doc_fields d') ''updatedAt'' = Some (VDate now)"
    using d'(3) by (simp add: merged_field_def)
  then show "\<exists>d'. collection_of r (snd (update_op r now ident update_data s)) = pre @ d' # post \<and>
        oid d' = oid d \<and>
        (\<forall>k. map_of (doc_fields d') k = merged_field now update_data (doc_fields d) k) \<and>
        (\<forall>t. map_of (doc_fields d) ''updatedAt'' = Some (VDate t) \<longrightarrow> t \<le> now \<longrightarrow>
           (\<exists>t'. map_of (doc_fields d') ''updatedAt'' = Some (VDate t') \<and> t \<le> t'))"
    using d' by auto
next
  assume p: "r = Programs" and a: "store a = s"
    and v: "verify_token secret_key now cred = Inr user"
  have df: "distinct (map fst (filter (\<lambda>(k, v). v \<noteq> VNone) update_data))"
    using dist by (simp add: distinct_map_filter)
  from update_op_fields[OF r ex df, of now]
  show "\<exists>d'. programs_collection
                (store (snd (update_program_admin secret_key now cred ident update_data a))) =
              pre @ d' # post \<and>
           oid d' = oid d \<and>
           (\<forall>k. map_of (doc_fields d') k = merged_field now update_data (doc_fields d) k)"
    unfolding route_store_programs[OF v] default_filter_merge[OF dist] a p by simp
qed

text \<open>
  C4.  The news and event routes, called with a valid token, rewrite the addressed
  record field by field as \<open>refined_field\<close> says: \<^verbatim>\<open>None\<close> and empty or white-space-only
  strings leave the stored field as it was; every other value, such as \<^verbatim>\<open>False\<close> or \<^verbatim>\<open>0\<close>,
  overwrites it.
\<close>

theorem refined_policy_update:
  assumes v: "verify_token secret_key now cred = Inr user"
    and dist: "distinct (map fst given)"
  shows
    "(List.extract (matches (by_key News ident)) (news_collection (store a)) = Some (pre, d, post) \<longrightarrow>
        (\<exists>d'. news_collection (store (snd (update_news_admin secret_key now cred ident given a))) =
              pre @ d' # post \<and>
           oid d' = oid d \<and>
           (\<forall>k. map_of (doc_fields d') k = refined_field now given (doc_fields d) k))) \<and>
     (List.extract (matches (by_key Events ident)) (events_collection (store a)) = Some (pre, d, post) \<longrightarrow>
        (\<exists>d'. events_collection (store (snd (update_event_admin secret_key now cred ident given a))) =
              pre @ d' # post \<and>
           oid d' = oid d \<and>
           (\<forall>k. map_of (doc_fields d') k = refined_field now given (doc_fields d) k)))"
proof (intro conjI impI)
  have df: "distinct (map fst (filter (\<lambda>(k, v). refined_keep v) given))"
    using dist by (simp add: distinct_map_filter)
  {
    assume ex: "List.extract (matches (by_key News ident)) (news_collection (store a)) = Some (pre, d, post)"
    have n: "News \<noteq> Gallery" by simp
    have ex': "List.extract (matches (by_key News ident)) (collection_of News (store a)) = Some (pre, d, post)"
      using ex by simp
    from update_op_fields[OF n ex' df, of now]
    show "\<exists>d'. news_collection (store (snd (update_news_admin secret_key now cred ident given a))) =
              pre @ d' # post \<and>
           oid d' = oid d \<and>
           (\<forall>k. map_of (doc_fields d') k = refined_field now given (doc_fields d) k)"
      unfolding route_store_news[OF v] refined_filter_merge[OF dist] by simp
  }
  {
    assume ex: "List.extract (matches (by_key Events ident)) (events_collection (store a)) = Some (pre, d, post)"
    have n: "Events \<noteq> Gallery" by simp
    have ex': "List.extract (matches (by_key Events ident)) (collection_of Events (store a)) = Some (pre, d, post)"
      using ex by simp
    from update_op_fields[OF n ex' df, of now]
    show "\<exists>d'. events_collection (store (snd (update_event_admin secret_key now cred ident given a))) =
              pre @ d' # post \<and>
           oid d' = oid d \<and>
           (\<forall>k. map_of (doc_fields d') k = refined_field now given (doc_fields d) k)"
      unfolding route_store_events[OF v] refined_filter_merge[OF dist] by simp
  }
qed

lemma extract_n1:
  "List.extract (matches (by_key News ''n1'')) (news_collection (store sample_app)) =
     Some ([], sample_news ''n1'' ''award 1'' 1,
       [sample_news ''n2'' ''award 2'' 2, sample_news ''n3'' ''award 3'' 3,
        sample_news ''n4'' ''award 4'' 4, sample_news ''n5'' ''award 5'' 5,
        sample_news ''n6'' ''award 6'' 6, sample_news ''n7'' ''award 7'' 7])"
  by (simp add: sample_app_def sample_db_def empty_db_def extract_Some_iff by_key_def matches_def
      sample_news_def)

lemma extract_e1:
  "List.extract (matches (by_key Events ''e1'')) (events_collection (store sample_app)) =
     Some ([], sample_event ''e1'' ''award ceremony'' 8, [])"
  by (simp add: sample_app_def sample_db_def empty_db_def extract_Some_iff by_key_def matches_def
      sample_event_def)

theorem default_policy_update_witness:
  "Programs \<noteq> Gallery \<and>
   List.extract (matches (by_key Programs ''p1'')) (collection_of Programs sample_db) =
     Some ([], sample_program ''p1'' ''Engineering Innovation'' 10,
       [sample_program ''p2'' ''International Business'' 20,
        sample_program ''p3'' ''Computer Science'' 30]) \<and>
   distinct (map fst [(''title'', VStr ''x''), (''description'', VNone)]) \<and>
   store sample_app = sample_db \<and>
   verify_token sample_key 40 sample_token = Inr ''admin'' \<and>
   map_of (doc_fields (sample_program ''p1'' ''Engineering Innovation'' 10)) ''updatedAt'' =
     Some (VDate 10) \<and> (10 :: int) \<le> 40 \<and>
   (\<exists>d'. collection_of Programs
            (snd (update_op Programs 40 ''p1'' [(''title'', VStr ''x''), (''description'', VNone)]
                    sample_db)) =
          [d', sample_program ''p2'' ''International Business'' 20,
           sample_program ''p3'' ''Computer Science'' 30] \<and>
        map_of (doc_fields d') ''title'' = Some (VStr ''x'') \<and>
        map_of (doc_fields d') ''description'' = Some (VStr ''World-class computer science program'') \<and>
        map_of (doc_fields d') ''status'' = Some (VStr ''Active'') \<and>
        (\<exists>t'. map_of (doc_fields d') ''updatedAt'' = Some (VDate t') \<and> 10 \<le> t')) \<and>
   (\<exists>d'. programs_collection
            (store (snd (update_program_admin sample_key 40 sample_token ''p1''
                           [(''title'', VStr ''x''), (''description'', VNone)] sample_app))) =
          [d', sample_program ''p2'' ''International Business'' 20,
           sample_program ''p3'' ''Computer Science'' 30] \<and>
        map_of (doc_fields d') ''title'' = Some (VStr ''x'') \<and>
        map_of (doc_fields d') ''description'' = Some (VStr ''World-class computer science program'') \<and>
        map_of (doc_fields d') ''updatedAt'' = Some (VDate 40))"
proof -
  let ?u = "[(''title'', VStr ''x''), (''description'', VNone)]"
  let ?p1 = "sample_program ''p1'' ''Engineering Innovation'' 10"
  have ng: "Programs \<noteq> Gallery" by simp
  have di: "distinct (map fst ?u)" by simp
  have st: "store sample_app = sample_db" by (simp add: sample_app_def)
  have up: "map_of (doc_fields ?p1) ''updatedAt'' = Some (VDate 10)"
    by (simp add: sample_program_def)
  have le: "(10 :: int) \<le> 40" by simp
  have mf: "merged_field 40 ?u (doc_fields ?p1) ''title'' = Some (VStr ''x'')"
    "merged_field 40 ?u (doc_fields ?p1) ''description'' = Some (VStr ''World-class computer science program'')"
    "merged_field 40 ?u (doc_fields ?p1) ''status'' = Some (VStr ''Active'')"
    "merged_field 40 ?u (doc_fields ?p1) ''updatedAt'' = Some (VDate 40)"
    by (simp_all add: merged_field_def sample_program_def)
  note th = default_policy_update[OF ng extract_p1 di, of 40 sample_app sample_key sample_token "''admin''"]
  from th[THEN conjunct1] up le mf
  have A: "\<exists>d'. collection_of Programs (snd (update_op Programs 40 ''p1'' ?u sample_db)) =
          [d', sample_program ''p2'' ''International Business'' 20,
           sample_program ''p3'' ''Computer Science'' 30] \<and>
        map_of (doc_fields d') ''title'' = Some (VStr ''x'') \<and>
        map_of (doc_fields d') ''description'' = Some (VStr ''World-class computer science program'') \<and>
        map_of (doc_fields d') ''status'' = Some (VStr ''Active'') \<and>
        (\<exists>t'. map_of (doc_fields d') ''updatedAt'' = Some (VDate t') \<and> 10 \<le> t')"
    by (metis append_Nil)
  from th[THEN conjunct2, rule_format, OF refl st verify_sample] mf
  have B: "\<exists>d'. programs_collection
            (store (snd (update_program_admin sample_key 40 sample_token ''p1'' ?u sample_app))) =
          [d', sample_program ''p2'' ''International Business'' 20,
           sample_program ''p3'' ''Computer Science'' 30] \<and>
        map_of (doc_fields d') ''title'' = Some (VStr ''x'') \<and>
        map_of (doc_fields d') ''description'' = Some (VStr ''World-class computer science program'') \<and>
        map_of (doc_fields d') ''updatedAt'' = Some (VDate 40)"
    by (metis append_Nil)
  show ?thesis
    by (intro conjI ng extract_p1 di st verify_sample up le A B)
qed

theorem refined_policy_update_witness:
  "verify_token sample_key 40 sample_token = Inr ''admin'' \<and>
   distinct (map fst [(''title'', VStr '' ''), (''content'', VNone), (''featured'', VBool False),
                      (''order'', VInt 0), (''image'', VStr [])]) \<and>
   List.extract (matches (by_key News ''n1'')) (news_collection (store sample_app)) \<noteq> None \<and>
   List.extract (matches (by_key Events ''e1'')) (events_collection (store sample_app)) \<noteq> None \<and>
   (\<exists>d'. news_collection (store (snd (update_news_admin sample_key 40 sample_token ''n1''
              [(''title'', VStr '' ''), (''content'', VNone), (''featured'', VBool False),
               (''order'', VInt 0), (''image'', VStr [])] sample_app))) =
          [d', sample_news ''n2'' ''award 2'' 2, sample_news ''n3'' ''award 3'' 3,
           sample_news ''n4'' ''award 4'' 4, sample_news ''n5'' ''award 5'' 5,
           sample_news ''n6'' ''award 6'' 6, sample_news ''n7'' ''award 7'' 7] \<and>
        map_of (doc_fields d') ''title'' = Some (VStr ''award 1'') \<and>
        map_of (doc_fields d') ''content'' = Some (VStr (replicate 250 (CHR ''x''))) \<and>
        map_of (doc_fields d') ''image'' = None \<and>
        map_of (doc_fields d') ''featured'' = Some (VBool False) \<and>
        map_of (doc_fields d') ''order'' = Some (VInt 0)) \<and>
   (\<exists>d'. events_collection (store (snd (update_event_admin sample_key 40 sample_token ''e1''
              [(''title'', VStr '' ''), (''content'', VNone), (''featured'', VBool False),
               (''order'', VInt 0), (''image'', VStr [])] sample_app))) = [d'] \<and>
        map_of (doc_fields d') ''title'' = Some (VStr ''award ceremony'') \<and>
        map_of (doc_fields d') ''featured'' = Some (VBool False) \<and>
        map_of (doc_fields d') ''order'' = Some (VInt 0))"
proof -
  let ?g = "[(''title'', VStr '' ''), (''content'', VNone), (''featured'', VBool False),
             (''order'', VInt 0), (''image'', VStr [])]"
  let ?n1 = "sample_news ''n1'' ''award 1'' 1"
  let ?e1 = "sample_event ''e1'' ''award ceremony'' 8"
  have di: "distinct (map fst ?g)" by simp
  have en: "List.extract (matches (by_key News ''n1'')) (news_collection (store sample_app)) \<noteq> None"
    using extract_n1 by simp
  have ee: "List.extract (matches (by_key Events ''e1'')) (events_collection (store sample_app)) \<noteq> None"
    using extract_e1 by simp
  have rn: "refined_field 40 ?g (doc_fields ?n1) ''title'' = Some (VStr ''award 1'')"
    "refined_field 40 ?g (doc_fields ?n1) ''content'' = Some (VStr (replicate 250 (CHR ''x'')))"
    "refined_field 40 ?g (doc_fields ?n1) ''image'' = None"
    "refined_field 40 ?g (doc_fields ?n1) ''featured'' = Some (VBool False)"
    "refined_field 40 ?g (doc_fields ?n1) ''order'' = Some (VInt 0)"
    by (simp_all add: refined_field_def sample_news_def py_isspace_def)
  have re: "refined_field 40 ?g (doc_fields ?e1) ''title'' = Some (VStr ''award ceremony'')"
    "refined_field 40 ?g (doc_fields ?e1) ''featured'' = Some (VBool False)"
    "refined_field 40 ?g (doc_fields ?e1) ''order'' = Some (VInt 0)"
    by (simp_all add: refined_field_def sample_event_def py_isspace_def)
  note th = refined_policy_update[OF verify_sample di, where a = sample_app]
  from th[where ident = "''n1''", THEN conjunct1, rule_format, OF extract_n1] rn
  have A: "\<exists>d'. news_collection (store (snd (update_news_admin sample_key 40 sample_token ''n1''
              ?g sample_app))) =
          [d', sample_news ''n2'' ''award 2'' 2, sample_news ''n3'' ''award 3'' 3,
           sample_news ''n4'' ''award 4'' 4, sample_news ''n5'' ''award 5'' 5,
           sample_news ''n6'' ''award 6'' 6, sample_news ''n7'' ''award 7'' 7] \<and>
        map_of (doc_fields d') ''title'' = Some (VStr ''award 1'') \<and>
        map_of (doc_fields d') ''content'' = Some (VStr (replicate 250 (CHR ''x''))) \<and>
        map_of (doc_fields d') ''image'' = None \<and>
        map_of (doc_fields d') ''featured'' = Some (VBool False) \<and>
        map_of (doc_fields d') ''order'' = Some (VInt 0)"
    by (metis append_Nil)
  from th[where ident = "''e1''", THEN conjunct2, rule_format, OF extract_e1] re
  have B: "\<exists>d'. events_collection (store (snd (update_event_admin sample_key 40 sample_token ''e1''
              ?g sample_app))) = [d'] \<and>
        map_of (doc_fields d') ''title'' = Some (VStr ''award ceremony'') \<and>
        map_of (doc_fields d') ''featured'' = Some (VBool False) \<and>
        map_of (doc_fields d') ''order'' = Some (VInt 0)"
    by (metis append_Nil)
  show ?thesis
    by (intro conjI verify_sample di en ee A B)
qed

section \<open>The admin mutation gate\<close>

lemma verify_expired:
  assumes "exp_claim (payload t) = Some e" "e < now"
  shows "rejected (verify_token secret_key now (Bearer t))"
  using assms by (simp add: verify_token_def jwt_decode_def unauthorized_def)

lemma verify_valid:
  assumes "alg t = ALGORITHM" "signed_with t = secret_key" "exp_claim (payload t) = Some e"
    "now < e" "sub_claim (payload t) = Some u"
  shows "verify_token secret_key now (Bearer t) = Inr u"
  using assms by (simp add: verify_token_def jwt_decode_def)

lemma verify_Inl_rejected: "verify_token secret_key now cred = Inl err \<Longrightarrow> rejected (Inl err :: error + 'a)"
  by (auto simp: verify_token_def unauthorized_def split: sum.splits jwt_error.splits option.splits)

lemma gate_closed:
  assumes "verify_token secret_key now cred = Inl err"
  shows "update_program_admin secret_key now cred program_id program a = (Inl err, a)"
    and "update_news_admin secret_key now cred news_id news_dict a = (Inl err, a)"
    and "update_event_admin secret_key now cred event_id event_dict a = (Inl err, a)"
    and "upload_gallery_image_admin secret_key now cred new_name new_id new_oid
           gfile title description category order_no is_featured is_active a = (Inl err, a)"
    and "create_team_member_admin secret_key now cred new_name new_id new_oid
           file name role bio email phone department image_url order_no is_leadership is_active a
         = (Inl err, a)"
    and "update_team_member_admin secret_key now cred new_name member_id raw_form
           file uname urole ubio uemail uphone udepartment image_url uorder u_leadership u_active a
         = (Inl err, a)"
    and "admin_logout secret_key now cred a = (Inl err, a)"
  using assms
  by (simp_all add: update_program_admin_def update_news_admin_def update_event_admin_def
      upload_gallery_image_admin_def create_team_member_admin_def update_team_member_admin_def
      admin_logout_def)

lemma ws_simps [simp]:
  "store (with_sessions S a) = store a"
  "files (with_sessions S a) = files a"
  "active_admin_sessions (with_sessions S a) = S"
  "with_sessions S (a\<lparr>store := s\<rparr>) = (with_sessions S a)\<lparr>store := s\<rparr>"
  "with_sessions S (a\<lparr>files := f\<rparr>) = (with_sessions S a)\<lparr>files := f\<rparr>"
  by (simp_all add: with_sessions_def)

lemma sessions_program:
  "update_program_admin secret_key now cred program_id program (with_sessions S a) =
     (fst (update_program_admin secret_key now cred program_id program a),
      with_sessions S (snd (update_program_admin secret_key now cred program_id program a)))"
  by (simp add: update_program_admin_def Let_def split: sum.splits prod.splits option.splits)

lemma sessions_news:
  "update_news_admin secret_key now cred news_id news_dict (with_sessions S a) =
     (fst (update_news_admin secret_key now cred news_id news_dict a),
      with_sessions S (snd (update_news_admin secret_key now cred news_id news_dict a)))"
  by (simp add: update_news_admin_def Let_def split: sum.splits prod.splits option.splits)

lemma sessions_event:
  "update_event_admin secret_key now cred event_id event_dict (with_sessions S a) =
     (fst (update_event_admin secret_key now cred event_id event_dict a),
      with_sessions S (snd (update_event_admin secret_key now cred event_id event_dict a)))"
  by (simp add: update_event_admin_def Let_def split: sum.splits prod.splits option.splits)

lemma sessions_gallery:
  "upload_gallery_image_admin secret_key now cred new_name new_id new_oid
       gfile title description category order_no is_featured is_active (with_sessions S a) =
     (fst (upload_gallery_image_admin secret_key now cred new_name new_id new_oid
             gfile title description category order_no is_featured is_active a),
      with_sessions S (snd (upload_gallery_image_admin secret_key now cred new_name new_id new_oid
             gfile title description category order_no is_featured is_active a)))"
  by (simp add: upload_gallery_image_admin_def Let_def split: sum.splits prod.splits option.splits)

lemma sessions_team_create:
  "create_team_member_admin secret_key now cred new_name new_id new_oid
       file name role bio email phone department image_url order_no is_leadership is_active
       (with_sessions S a) =
     (fst (create_team_member_admin secret_key now cred new_name new_id new_oid
             file name role bio email phone department image_url order_no is_leadership is_active a),
      with_sessions S (snd (create_team_member_admin secret_key now cred new_name new_id new_oid
             file name role bio email phone department image_url order_no is_leadership is_active a)))"
  by (simp add: create_team_member_admin_def Let_def split: sum.splits prod.splits option.splits)

lemma sessions_team_update:
  "update_team_member_admin secret_key now cred new_name member_id raw_form
       file name role bio email phone department image_url order_no is_leadership is_active
       (with_sessions S a) =
     (fst (update_team_member_admin secret_key now cred new_name member_id raw_form
             file name role bio email phone department image_url order_no is_leadership is_active a),
      with_sessions S (snd (update_team_member_admin secret_key now cred new_name member_id raw_form
             file name role bio email phone department image_url order_no is_leadership is_active a)))"
  by (auto simp: update_team_member_admin_def Let_def split: sum.splits prod.splits option.splits)


lemma logout_valid:
  assumes "verify_token secret_key now cred = Inr u"
  shows "admin_logout secret_key now cred a =
     (Inr ''Logged out successfully'', with_sessions (active_admin_sessions a - {u}) a)"
  using assms by (simp add: admin_logout_def with_sessions_def)

text \<open>
  C8.  The gate rejects, with status 401, every token whose expiry lies in the past,
  whatever key it is signed with, and accepts every token that names the algorithm,
  is signed with the server's key, has not expired and carries a subject, returning
  the subject.  A route behind the gate that is refused leaves the state as it was.
  Logging out removes the subject from the set of active sessions and nothing else;
  no route behind the gate reads that set, so each returns the same response, and
  makes the same changes, whatever the set holds: in particular after the logout.
\<close>

theorem token_gate:
  "(exp_claim (payload t) = Some e \<longrightarrow> e < now \<longrightarrow>
      rejected (verify_token secret_key now (Bearer t)) \<and>
      rejected (fst (update_program_admin secret_key now (Bearer t) program_id program a)) \<and>
      snd (update_program_admin secret_key now (Bearer t) program_id program a) = a) \<and>
   (alg t = ALGORITHM \<longrightarrow> signed_with t = secret_key \<longrightarrow> exp_claim (payload t) = Some e \<longrightarrow>
    now < e \<longrightarrow> sub_claim (payload t) = Some u \<longrightarrow>
      verify_token secret_key now (Bearer t) = Inr u \<and>
      admin_logout secret_key now (Bearer t) a =
        (Inr ''Logged out successfully'', with_sessions (active_admin_sessions a - {u}) a) \<and>
      u \<notin> active_admin_sessions (snd (admin_logout secret_key now (Bearer t) a)) \<and>
      fst (update_program_admin secret_key now (Bearer t) program_id program
             (snd (admin_logout secret_key now (Bearer t) a))) =
        fst (update_program_admin secret_key now (Bearer t) program_id program a) \<and>
      \<not> rejected (fst (update_program_admin secret_key now (Bearer t) program_id program
                        (snd (admin_logout secret_key now (Bearer t) a))))) \<and>
   (verify_token secret_key now cred = Inl err \<longrightarrow>
      update_program_admin secret_key now cred program_id program a = (Inl err, a) \<and>
      update_news_admin secret_key now cred news_id news_dict a = (Inl err, a) \<and>
      update_event_admin secret_key now cred event_id event_dict a = (Inl err, a) \<and>
      upload_gallery_image_admin secret_key now cred new_name new_id new_oid
        gfile title description category order_no is_featured is_active a = (Inl err, a) \<and>
      create_team_member_admin secret_key now cred new_name new_id new_oid
        file name role bio email phone department image_url order_no is_leadership is_active a
        = (Inl err, a) \<and>
      update_team_member_admin secret_key now cred new_name member_id raw_form
        file uname urole ubio uemail uphone udepartment image_url uorder u_leadership u_active a
        = (Inl err, a) \<and>
      admin_logout secret_key now cred a = (Inl err, a)) \<and>
   update_program_admin secret_key now cred program_id program (with_sessions S a) =
     (fst (update_program_admin secret_key now cred program_id program a),
      with_sessions S (snd (update_program_admin secret_key now cred program_id program a))) \<and>
   update_news_admin secret_key now cred news_id news_dict (with_sessions S a) =
     (fst (update_news_admin secret_key now cred news_id news_dict a),
      with_sessions S (snd (update_news_admin secret_key now cred news_id news_dict a))) \<and>
   update_event_admin secret_key now cred event_id event_dict (with_sessions S a) =
     (fst (update_event_admin secret_key now cred event_id event_dict a),
      with_sessions S (snd (update_event_admin secret_key now cred event_id event_dict a))) \<and>
   upload_gallery_image_admin secret_key now cred new_name new_id new_oid
       gfile title description category order_no is_featured is_active (with_sessions S a) =
     (fst (upload_gallery_image_admin secret_key now cred new_name new_id new_oid
             gfile title description category order_no is_featured is_active a),
      with_sessions S (snd (upload_gallery_image_admin secret_key now cred new_name new_id new_oid
             gfile title description category order_no is_featured is_active a))) \<and>
   create_team_member_admin secret_key now cred new_name new_id new_oid
       file name role bio email phone department image_url order_no is_leadership is_active
       (with_sessions S a) =
     (fst (create_team_member_admin secret_key now cred new_name new_id new_oid
             file name role bio email phone department image_url order_no is_leadership is_active a),
      with_sessions S (snd (create_team_member_admin secret_key now cred new_name new_id new_oid
             file name role bio email phone department image_url order_no is_leadership is_active a))) \<and>
   update_team_member_admin secret_key now cred new_name member_id raw_form
       file uname urole ubio uemail uphone udepartment image_url uorder u_leadership u_active
       (with_sessions S a) =
     (fst (update_team_member_admin secret_key now cred new_name member_id raw_form
             file uname urole ubio uemail uphone udepartment image_url uorder u_leadership u_active a),
      with_sessions S (snd (update_team_member_admin secret_key now cred new_name member_id raw_form
             file uname urole ubio uemail uphone udepartment image_url uorder u_leadership u_active a)))"
proof (intro conjI impI)
  assume ex: "exp_claim (payload t) = Some e" "e < now"
  show r: "rejected (verify_token secret_key now (Bearer t))"
    by (rule verify_expired[OF ex])
  then obtain err where err: "verify_token secret_key now (Bearer t) = Inl err"
    by (cases "verify_token secret_key now (Bearer t)") simp_all
  from r have "rejected (Inl err :: error + pydict)"
    unfolding err by (cases err) simp_all
  then show "rejected (fst (update_program_admin secret_key now (Bearer t) program_id program a))"
    by (simp add: gate_closed(1)[OF err])
  show "snd (update_program_admin secret_key now (Bearer t) program_id program a) = a"
    by (simp add: gate_closed(1)[OF err])
next
  assume ok: "alg t = ALGORITHM" "signed_with t = secret_key" "exp_claim (payload t) = Some e"
    "now < e" "sub_claim (payload t) = Some u"
  note v = verify_valid[OF ok]
  show "verify_token secret_key now (Bearer t) = Inr u" by (rule v)
  show lo: "admin_logout secret_key now (Bearer t) a =
      (Inr ''Logged out successfully'', with_sessions (active_admin_sessions a - {u}) a)"
    by (rule logout_valid[OF v])
  show "u \<notin> active_admin_sessions (snd (admin_logout secret_key now (Bearer t) a))"
    by (simp add: lo)
  show same: "fst (update_program_admin secret_key now (Bearer t) program_id program
             (snd (admin_logout secret_key now (Bearer t) a))) =
        fst (update_program_admin secret_key now (Bearer t) program_id program a)"
    by (simp add: lo sessions_program)
  show "\<not> rejected (fst (update_program_admin secret_key now (Bearer t) program_id program
                        (snd (admin_logout secret_key now (Bearer t) a))))"
    unfolding same
    by (simp add: update_program_admin_def v Let_def split: prod.splits option.splits)
next
  assume e: "verify_token secret_key now cred = Inl err"
  show "update_program_admin secret_key now cred program_id program a = (Inl err, a)"
    by (rule gate_closed(1)[OF e])
  show "update_news_admin secret_key now cred news_id news_dict a = (Inl err, a)"
    by (rule gate_closed(2)[OF e])
  show "update_event_admin secret_key now cred event_id event_dict a = (Inl err, a)"
    by (rule gate_closed(3)[OF e])
  show "upload_gallery_image_admin secret_key now cred new_name new_id new_oid
        gfile title description category order_no is_featured is_active a = (Inl err, a)"
    by (rule gate_closed(4)[OF e])
  show "create_team_member_admin secret_key now cred new_name new_id new_oid
        file name role bio email phone department image_url order_no is_leadership is_active a
        = (Inl err, a)"
    by (rule gate_closed(5)[OF e])
  show "update_team_member_admin secret_key now cred new_name member_id raw_form
        file uname urole ubio uemail uphone udepartment image_url uorder u_leadership u_active a
        = (Inl err, a)"
    by (rule gate_closed(6)[OF e])
  show "admin_logout secret_key now cred a = (Inl err, a)"
    by (rule gate_closed(7)[OF e])
qed (rule sessions_program sessions_news sessions_event sessions_gallery sessions_team_create
      sessions_team_update)+

theorem token_gate_witness:
  "exp_claim (payload \<lparr>alg = ''HS256'', payload = \<lparr>sub_claim = Some ''admin'', exp_claim = Some 10\<rparr>,
                        signed_with = sample_key\<rparr>) = Some 10 \<and>
   (10 :: int) < 40 \<and>
   rejected (verify_token sample_key 40
      (Bearer \<lparr>alg = ''HS256'', payload = \<lparr>sub_claim = Some ''admin'', exp_claim = Some 10\<rparr>,
               signed_with = sample_key\<rparr>)) \<and>
   sample_token =
     Bearer \<lparr>alg = ALGORITHM, payload = \<lparr>sub_claim = Some ''admin'', exp_claim = Some 3600\<rparr>,
             signed_with = sample_key\<rparr> \<and>
   (40 :: int) < 3600 \<and>
   verify_token sample_key 40 sample_token = Inr ''admin'' \<and>
   ''admin'' \<in> active_admin_sessions sample_app \<and>
   ''admin'' \<notin> active_admin_sessions (snd (admin_logout sample_key 40 sample_token sample_app)) \<and>
   \<not> rejected (fst (update_program_admin sample_key 40 sample_token ''p1'' []
                    (snd (admin_logout sample_key 40 sample_token sample_app)))) \<and>
   verify_token sample_key 40 Malformed = Inl (unauthorized ''Invalid authentication credentials'') \<and>
   update_program_admin sample_key 40 Malformed ''p1'' [] sample_app =
     (Inl (unauthorized ''Invalid authentication credentials''), sample_app)"
proof -
  let ?old = "\<lparr>alg = ''HS256'', payload = \<lparr>sub_claim = Some ''admin'', exp_claim = Some 10\<rparr>,
               signed_with = sample_key\<rparr>"
  let ?ok = "\<lparr>alg = ALGORITHM, payload = \<lparr>sub_claim = Some ''admin'', exp_claim = Some 3600\<rparr>,
              signed_with = sample_key\<rparr>"
  have e1: "exp_claim (payload ?old) = Some 10" by simp
  have l1: "(10 :: int) < 40" by simp
  have tok: "sample_token = Bearer ?ok"
    by (simp add: sample_token_def create_access_token_def jwt_encode_def
        ACCESS_TOKEN_EXPIRE_MINUTES_def Let_def)
  have l2: "(40 :: int) < 3600" by simp
  have mem: "''admin'' \<in> active_admin_sessions sample_app" by (simp add: sample_app_def)
  have bad: "verify_token sample_key 40 Malformed =
      Inl (unauthorized ''Invalid authentication credentials'')"
    by (simp add: verify_token_def jwt_decode_def)
  note g1 = token_gate[where t = ?old and e = 10 and now = 40 and secret_key = sample_key]
  have A: "rejected (verify_token sample_key 40 (Bearer ?old))"
    using g1[THEN conjunct1, rule_format, OF e1 l1] by blast
  note g2 = token_gate[where t = ?ok and e = 3600 and now = 40 and secret_key = sample_key
      and u = "''admin''" and a = sample_app and program_id = "''p1''" and program = "[]"
      and cred = Malformed and err = "unauthorized ''Invalid authentication credentials''"]
  have B: "verify_token sample_key 40 (Bearer ?ok) = Inr ''admin'' \<and>
      ''admin'' \<notin> active_admin_sessions (snd (admin_logout sample_key 40 (Bearer ?ok) sample_app)) \<and>
      \<not> rejected (fst (update_program_admin sample_key 40 (Bearer ?ok) ''p1'' []
                    (snd (admin_logout sample_key 40 (Bearer ?ok) sample_app))))"
  proof -
    have p1: "alg ?ok = ALGORITHM" by simp
    have p2: "signed_with ?ok = sample_key" by simp
    have p3: "exp_claim (payload ?ok) = Some 3600" by simp
    have p5: "sub_claim (payload ?ok) = Some ''admin''" by simp
    from g2[THEN conjunct2, THEN conjunct1, rule_format, OF p1 p2 p3 l2 p5]
    show ?thesis by blast
  qed
  have C: "update_program_admin sample_key 40 Malformed ''p1'' [] sample_app =
     (Inl (unauthorized ''Invalid authentication credentials''), sample_app)"
    by (rule g2[THEN conjunct2, THEN conjunct2, THEN conjunct1, rule_format, OF bad,
          THEN conjunct1])
  show ?thesis
    unfolding tok[symmetric]
    using e1 l1 A tok l2 B[unfolded tok[symmetric]] mem bad C by simp
qed

section \<open>Uploads and the image of a team member\<close>

lemma listed_types_reject:
  assumes "verify_token secret_key now cred = Inr user" "not_allowed f"
  shows "upload_gallery_image_admin secret_key now cred new_name new_id new_oid
           f title description category order_no is_featured is_active a = (Inl invalid_file_type, a)"
    and "create_team_member_admin secret_key now cred new_name new_id new_oid
           (Some f) name role bio email phone department image_url order_no is_leadership is_active a
         = (Inl invalid_file_type, a)"
  using assms
  by (simp_all add: upload_gallery_image_admin_def create_team_member_admin_def new_member_image_def)

lemma saved_path:
  "save_upload_file new_name UPLOAD_DIR fs =
     (Inr (''gallery/'' @ new_name), insert (''uploads/gallery/'' @ new_name) fs)"
  "save_team_upload_file new_name fs =
     (Inr (''team/'' @ new_name), insert (''uploads/team/'' @ new_name) fs)"
  by (simp_all add: save_team_upload_file_def save_upload_file_def relative_to_def UPLOAD_DIR_def
      TEAM_UPLOAD_DIR_def Let_def)

lemma listed_types_accept:
  assumes "verify_token secret_key now cred = Inr user" "\<not> not_allowed f"
  shows "files (snd (upload_gallery_image_admin secret_key now cred new_name new_id new_oid
           f title description category order_no is_featured is_active a)) =
         insert (''uploads/gallery/'' @ new_name) (files a)"
    and "files (snd (create_team_member_admin secret_key now cred new_name new_id new_oid
           (Some f) name role bio email phone department image_url order_no is_leadership is_active a))
         = insert (''uploads/team/'' @ new_name) (files a)"
  using assms
  by (simp_all add: upload_gallery_image_admin_def create_team_member_admin_def new_member_image_def
      saved_path Let_def split: prod.splits)

lemma sample_team: "team_collection (store sample_app) = [sample_member ''t1'' ''/team/a.jpg'']"
  by (simp add: sample_app_def sample_db_def empty_db_def)

lemma sample_files: "files sample_app = {''uploads/team/a.jpg''}"
  by (simp add: sample_app_def)

lemma get_t1: "get_team_member_by_id ''t1'' (store sample_app) =
    Some (stringify_id (sample_member ''t1'' ''/team/a.jpg''))"
  by (simp add: get_team_member_by_id_def find_one_def sample_team matches_def sample_member_def)

text \<open>
  C9.  The claim fails on the update of a team member.  With a valid token and the
  content type \<^verbatim>\<open>image/svg+xml\<close>, which is not one of the four allowed types, the gallery
  upload and the creation of a team member answer 400 and change nothing, while the
  update of a team member saves the file and stores its path.
\<close>

theorem upload_type_divergence:
  "''image/svg+xml'' \<notin> set allowed_types \<and>
   upload_gallery_image_admin sample_key 40 sample_token ''u1.svg'' ''g2'' ''oid-g2''
       \<lparr>filename = ''logo.svg'', content_type = Some ''image/svg+xml''\<rparr>
       ''Logo'' [] ''Campus'' 0 False True sample_app = (Inl invalid_file_type, sample_app) \<and>
   create_team_member_admin sample_key 40 sample_token ''u1.svg'' ''t2'' ''oid-t2''
       (Some \<lparr>filename = ''logo.svg'', content_type = Some ''image/svg+xml''\<rparr>)
       ''Anil Verma'' ''Manager'' ''Handles admissions'' [] [] [] None 0 False True sample_app
     = (Inl invalid_file_type, sample_app) \<and>
   ''uploads/team/u1.svg'' \<notin> files sample_app \<and>
   fst (update_team_member_admin sample_key 40 sample_token ''u1.svg'' ''t1'' []
          (Some \<lparr>filename = ''logo.svg'', content_type = Some ''image/svg+xml''\<rparr>)
          None None None None None None None None None None sample_app) \<noteq> Inl invalid_file_type \<and>
   ''uploads/team/u1.svg'' \<in>
     files (snd (update_team_member_admin sample_key 40 sample_token ''u1.svg'' ''t1'' []
          (Some \<lparr>filename = ''logo.svg'', content_type = Some ''image/svg+xml''\<rparr>)
          None None None None None None None None None None sample_app)) \<and>
   map (\<lambda>d. map_of (doc_fields d) ''image'')
     (team_collection (store (snd (update_team_member_admin sample_key 40 sample_token ''u1.svg''
          ''t1'' [] (Some \<lparr>filename = ''logo.svg'', content_type = Some ''image/svg+xml''\<rparr>)
          None None None None None None None None None None sample_app)))) =
     [Some (VStr ''/team/u1.svg'')]"
proof -
  let ?f = "\<lparr>filename = ''logo.svg'', content_type = Some ''image/svg+xml''\<rparr>"
  have na: "not_allowed ?f" by (simp add: not_allowed_def allowed_types_def)
  have t: "''image/svg+xml'' \<notin> set allowed_types" by (simp add: allowed_types_def)
  have ic: "image_change ''u1.svg'' ''t1'' (Some ?f) None (store sample_app) (files sample_app) =
      (Inr [(''image'', VStr ''/team/u1.svg'')], insert ''uploads/team/u1.svg'' (files sample_app))"
    by (simp add: image_change_def saved_path)
  have up: "update_team_member_admin sample_key 40 sample_token ''u1.svg'' ''t1'' []
          (Some ?f) None None None None None None None None None None sample_app =
      (Inr (fst (update_team_member 40 ''t1'' [(''image'', VStr ''/team/u1.svg'')] (store sample_app))),
       sample_app\<lparr>store := snd (update_team_member 40 ''t1'' [(''image'', VStr ''/team/u1.svg'')]
                                  (store sample_app)),
          files := insert ''uploads/team/u1.svg'' (files sample_app)\<rparr>)"
    by (simp add: update_team_member_admin_def verify_sample get_t1 ic raw_form_removal_def
        other_fields_def set_str_def set_nonblank_def set_int_def set_bool_def split_beta)
  have ut: "team_collection (snd (update_team_member 40 ''t1'' [(''image'', VStr ''/team/u1.svg'')]
        (store sample_app))) =
      [\<lparr>oid = ''oid-t1'',
        doc_fields = [(''id'', VStr ''t1''), (''name'', VStr ''Priya Sharma''),
          (''role'', VStr ''Associate Director''), (''image'', VStr ''/team/u1.svg''),
          (''order'', VInt 1), (''createdAt'', VDate 5), (''updatedAt'', VDate 40)]\<rparr>]"
    by (simp add: update_team_member_def sample_team matches_def sample_member_def drop_none_def
        set_fields_def Let_def split: prod.splits)
  show ?thesis
    using listed_types_reject[OF verify_sample na, of "''u1.svg''"] t ut
    by (simp add: up sample_files)
qed

lemma verify_sample50: "verify_token sample_key 50 sample_token = Inr ''admin''"
  by (simp add: verify_token_def jwt_decode_def sample_token_def create_access_token_def
      jwt_encode_def ALGORITHM_def ACCESS_TOKEN_EXPIRE_MINUTES_def Let_def)

lemma member_with_photo_state:
  "member_with_photo =
     \<lparr>store = empty_db\<lparr>team_collection :=
        [\<lparr>oid = ''oid-t9'',
          doc_fields = [(''name'', VStr ''Priya Sharma''), (''role'', VStr ''Associate Director''),
            (''bio'', VStr ''Coordinates student mobility''), (''email'', VStr []),
            (''phone'', VStr []), (''department'', VStr []), (''image'', VStr ''/team/a.jpg''),
            (''order'', VInt 1), (''is_leadership'', VBool False), (''is_active'', VBool True),
            (''uploadDate'', VDate 40), (''id'', VStr ''t9''), (''createdAt'', VDate 40),
            (''updatedAt'', VDate 40)]\<rparr>]\<rparr>,
      files = {''uploads/team/a.jpg''}, active_admin_sessions = {}\<rparr>"
  by (simp add: member_with_photo_def create_team_member_admin_def verify_sample
      new_member_image_def not_allowed_def allowed_types_def saved_path create_team_member_def
      insert_one_def empty_app_def empty_db_def Let_def)

text \<open>
  C5.  The claim fails on a photo the application saved itself.  The member was
  created with an uploaded photo: the file is \<^verbatim>\<open>uploads/team/a.jpg\<close> and the record's image
  is \<^verbatim>\<open>/team/a.jpg\<close>.  The update with an empty \<^verbatim>\<open>image_url\<close> sets the image to the empty
  string, and the file is still there: the route looks for \<^verbatim>\<open>team/a.jpg\<close>.
\<close>

theorem cleared_photo_file_remains:
  "files member_with_photo = {''uploads/team/a.jpg''} \<and>
   map (\<lambda>d. map_of (doc_fields d) ''image'') (team_collection (store member_with_photo)) =
     [Some (VStr ''/team/a.jpg'')] \<and>
   map (\<lambda>d. map_of (doc_fields d) ''image'') (team_collection (store photo_cleared)) =
     [Some (VStr [])] \<and>
   files photo_cleared = {''uploads/team/a.jpg''}"
proof -
  let ?m = "\<lparr>oid = ''oid-t9'',
          doc_fields = [(''name'', VStr ''Priya Sharma''), (''role'', VStr ''Associate Director''),
            (''bio'', VStr ''Coordinates student mobility''), (''email'', VStr []),
            (''phone'', VStr []), (''department'', VStr []), (''image'', VStr ''/team/a.jpg''),
            (''order'', VInt 1), (''is_leadership'', VBool False), (''is_active'', VBool True),
            (''uploadDate'', VDate 40), (''id'', VStr ''t9''), (''createdAt'', VDate 40),
            (''updatedAt'', VDate 40)]\<rparr>"
  have tc: "team_collection (store member_with_photo) = [?m]"
    by (simp add: member_with_photo_state empty_db_def)
  have f: "files member_with_photo = {''uploads/team/a.jpg''}"
    by (simp add: member_with_photo_state)
  have g: "get_team_member_by_id ''t9'' (store member_with_photo) = Some (stringify_id ?m)"
    by (simp add: get_team_member_by_id_def find_one_def tc matches_def)
  have rm: "remove_image_file (get_team_member_by_id ''t9'' (store member_with_photo))
      {''uploads/team/a.jpg''} = Inr {''uploads/team/a.jpg''}"
    by (simp add: g remove_image_file_def stringify_id_def)
  have ic: "image_change ''b.jpg'' ''t9'' None (Some []) (store member_with_photo)
      (files member_with_photo) = (Inr [(''image'', VStr [])], {''uploads/team/a.jpg''})"
    by (simp add: image_change_def py_strip_def f rm)
  have rf: "raw_form_removal ''t9'' [(''image_url'', [])] [(''image'', VStr [])]
      (store member_with_photo) {''uploads/team/a.jpg''} =
      ([(''image'', VStr [])], {''uploads/team/a.jpg''})"
    by (simp add: raw_form_removal_def rm)
  have pc: "photo_cleared =
      member_with_photo\<lparr>store := snd (update_team_member 50 ''t9'' [(''image'', VStr [])]
                                   (store member_with_photo)),
        files := {''uploads/team/a.jpg''}\<rparr>"
    by (simp add: photo_cleared_def update_team_member_admin_def verify_sample50 g ic rf
        other_fields_def set_str_def set_nonblank_def set_int_def set_bool_def split_beta)
  have ut: "map (\<lambda>d. map_of (doc_fields d) ''image'')
      (team_collection (snd (update_team_member 50 ''t9'' [(''image'', VStr [])]
         (store member_with_photo)))) = [Some (VStr [])]"
    by (simp add: update_team_member_def tc matches_def drop_none_def set_fields_def Let_def
        split_beta)
  show ?thesis
    by (simp add: pc ut tc f)
qed

section \<open>Search: caps, order, entries and total\<close>

lemma collect_length: "collect f ds = Inr hs \<Longrightarrow> length hs = length ds"
  by (induction ds arbitrary: hs) (auto split: sum.splits)

lemma collect_all:
  "collect f ds = Inr hs \<Longrightarrow> (\<And>d h. f d = Inr h \<Longrightarrow> P h) \<Longrightarrow> list_all P hs"
  by (induction ds arbitrary: hs) (auto split: sum.splits)

lemma collect_all2:
  "collect f ds = Inr hs \<Longrightarrow> (\<And>d h. f d = Inr h \<Longrightarrow> R d h) \<Longrightarrow> list_all2 R ds hs"
  by (induction ds arbitrary: hs) (auto split: sum.splits)

lemma collect_total:
  "(\<And>d. d \<in> set ds \<Longrightarrow> \<exists>h. f d = Inr h) \<Longrightarrow> \<exists>hs. collect f ds = Inr hs"
proof (induction ds)
  case Nil
  show ?case by simp
next
  case (Cons d ds)
  from Cons.prems[of d] obtain h where h: "f d = Inr h" by auto
  from Cons.IH Cons.prems obtain hs where hs: "collect f ds = Inr hs" by auto
  show ?case by (simp add: h hs)
qed

lemma slice200_shape:
  "slice200 v = Inr w \<Longrightarrow>
   (case w of VStr x \<Rightarrow> length x \<le> 200 | VList xs \<Rightarrow> length xs \<le> 200 | _ \<Rightarrow> False)"
  by (auto simp: slice200_def split: val.splits)

lemma slice200_truncated: "slice200 v = Inr w \<Longrightarrow> w = truncated v"
  by (auto simp: slice200_def truncated_def split: val.splits)

lemma program_hit_shape:
  "program_hit repr d = Inr h \<Longrightarrow> hit_shape repr ''program'' ''/student-mobility/programs/'' h"
  by (auto simp: program_hit_def hit_shape_def Let_def dest!: slice200_shape
      split: sum.splits option.splits val.splits)

lemma entry_hit_shape:
  "entry_hit t tk xk p repr d = Inr h \<Longrightarrow> hit_shape repr t p h"
  by (auto simp: entry_hit_def hit_shape_def dest!: slice200_shape
      split: sum.splits option.splits val.splits)

lemma program_hit_entry:
  "program_hit repr d = Inr h \<Longrightarrow>
   entry_for ''program'' ''title'' ''description'' ''/student-mobility/programs/'' repr d h"
  by (auto simp: program_hit_def entry_for_def logical_id_def subscript_def Let_def
      dest!: slice200_truncated split: sum.splits option.splits)

lemma entry_hit_entry:
  "entry_hit t tk xk p repr d = Inr h \<Longrightarrow> entry_for t tk xk p repr d h"
  by (auto simp: entry_hit_def entry_for_def logical_id_def subscript_def
      dest!: slice200_truncated split: sum.splits option.splits)

lemma program_hit_total:
  "has_str d ''title'' \<Longrightarrow> has_str d ''description'' \<Longrightarrow> \<exists>h. program_hit repr d = Inr h"
  by (auto simp: program_hit_def has_str_def subscript_def slice200_def Let_def
      split: option.splits val.splits)

lemma entry_hit_total:
  "has_str d ''id'' \<Longrightarrow> has_str d tk \<Longrightarrow> has_str d xk \<Longrightarrow> \<exists>h. entry_hit t tk xk p repr d = Inr h"
  by (auto simp: entry_hit_def has_str_def subscript_def slice200_def
      split: option.splits val.splits)

lemma search_section_Inr:
  assumes "rx query = Some m" and "search_section rx query sections name keys hit c = Inr hs"
    and "\<And>d h. hit d = Inr h \<Longrightarrow> R d h"
  shows "contributes (wanted sections name) R (matching m keys c) hs"
  using assms(1,2) collect_all2[of hit "take 5 (matching m keys c)" hs R, OF _ assms(3)]
  by (auto simp: search_section_def contributes_def find_regex_def collect_length
      split: if_splits)

lemma search_section_all:
  assumes "search_section rx query sections name keys hit c = Inr hs"
    and "\<And>d h. hit d = Inr h \<Longrightarrow> P h"
  shows "list_all P hs"
  using assms
  by (auto simp: search_section_def find_regex_def split: if_splits option.splits sum.splits
      intro: collect_all)

lemma search_section_total:
  assumes "rx query = Some m" and "\<And>d. d \<in> set c \<Longrightarrow> \<exists>h. hit d = Inr h"
  shows "\<exists>hs. search_section rx query sections name keys hit c = Inr hs"
proof (cases "wanted sections name")
  case False
  then show ?thesis by (simp add: search_section_def)
next
  case True
  have "\<And>d. d \<in> set (take 5 (matching m keys c)) \<Longrightarrow> \<exists>h. hit d = Inr h"
    using assms(2) by (auto simp: matching_def dest!: in_set_takeD)
  from collect_total[of "take 5 (matching m keys c)" hit, OF this]
  show ?thesis by (simp add: search_section_def find_regex_def assms(1) True)
qed

lemma search_section_none:
  assumes "rx query = Some m" and "matching m keys c = []"
  shows "search_section rx query sections name keys hit c = Inr []"
  using assms by (simp add: search_section_def find_regex_def)

lemma search_section_refused:
  assumes "rx query = None"
  shows "search_section rx query sections name keys hit c =
     (if wanted sections name then Inl OperationFailure else Inr [])"
  using assms by (simp add: search_section_def find_regex_def)

lemma search_refused:
  assumes "rx query = None"
    and "wanted sections ''programs'' \<or> wanted sections ''news'' \<or> wanted sections ''events'' \<or>
         wanted sections ''partnerships''"
  shows "global_search rx repr query sections s = Inl OperationFailure"
  using assms(2) unfolding global_search_def search_section_refused[where rx = rx and query = query, OF assms(1)]
  by auto

lemma wanted_None: "wanted None name"
  by (simp add: wanted_def)

lemma search_accepted:
  assumes "rx query = Some m"
  shows
    "(global_search rx repr query sections s = Inr r \<longrightarrow>
        (\<exists>ps ns es qs.
           results r = ps @ ns @ es @ qs \<and>
           contributes (wanted sections ''programs'')
             (entry_for ''program'' ''title'' ''description'' ''/student-mobility/programs/'' repr)
             (matching m program_keys (programs_collection s)) ps \<and>
           contributes (wanted sections ''news'')
             (entry_for ''news'' ''title'' ''content'' ''/news-media/'' repr)
             (matching m news_keys (news_collection s)) ns \<and>
           contributes (wanted sections ''events'')
             (entry_for ''event'' ''title'' ''description'' ''/visits-delegations-events/'' repr)
             (matching m event_keys (events_collection s)) es \<and>
           contributes (wanted sections ''partnerships'')
             (entry_for ''partnership'' ''partnerName'' ''details'' ''/global-partnerships/'' repr)
             (matching m partnership_keys (partnerships_collection s)) qs \<and>
           length ps \<le> 5 \<and> length ns \<le> 5 \<and> length es \<le> 5 \<and> length qs \<le> 5 \<and>
           list_all (hit_shape repr ''program'' ''/student-mobility/programs/'') ps \<and>
           list_all (hit_shape repr ''news'' ''/news-media/'') ns \<and>
           list_all (hit_shape repr ''event'' ''/visits-delegations-events/'') es \<and>
           list_all (hit_shape repr ''partnership'' ''/global-partnerships/'') qs) \<and>
        total_results r = int (length (results r))) \<and>
     ((\<forall>d \<in> set (programs_collection s). has_str d ''title'' \<and> has_str d ''description'') \<and>
      (\<forall>d \<in> set (news_collection s).
          has_str d ''id'' \<and> has_str d ''title'' \<and> has_str d ''content'') \<and>
      (\<forall>d \<in> set (events_collection s).
          has_str d ''id'' \<and> has_str d ''title'' \<and> has_str d ''description'') \<and>
      (\<forall>d \<in> set (partnerships_collection s).
          has_str d ''id'' \<and> has_str d ''partnerName'' \<and> has_str d ''details'') \<longrightarrow>
        (\<exists>r'. global_search rx repr query sections s = Inr r')) \<and>
     (matching m program_keys (programs_collection s) = [] \<and>
      matching m news_keys (news_collection s) = [] \<and>
      matching m event_keys (events_collection s) = [] \<and>
      matching m partnership_keys (partnerships_collection s) = [] \<longrightarrow>
        global_search rx repr query sections s = Inr \<lparr>results = [], total_results = 0\<rparr>)"
proof (intro conjI impI)
  assume g: "global_search rx repr query sections s = Inr r"
  from g obtain ps where ps: "search_section rx query sections ''programs'' program_keys
      (program_hit repr) (programs_collection s) = Inr ps"
    unfolding global_search_def by (auto split: sum.splits)
  from g ps obtain ns where ns: "search_section rx query sections ''news'' news_keys
      (news_hit repr) (news_collection s) = Inr ns"
    unfolding global_search_def by (auto split: sum.splits)
  from g ps ns obtain es where es: "search_section rx query sections ''events'' event_keys
      (event_hit repr) (events_collection s) = Inr es"
    unfolding global_search_def by (auto split: sum.splits)
  from g ps ns es obtain qs where qs: "search_section rx query sections ''partnerships''
      partnership_keys (partnership_hit repr) (partnerships_collection s) = Inr qs"
    unfolding global_search_def by (auto split: sum.splits)
  from g have r: "r = \<lparr>results = ps @ ns @ es @ qs,
      total_results = int (length (ps @ ns @ es @ qs))\<rparr>"
    unfolding global_search_def by (simp add: ps ns es qs Let_def)
  have c: "contributes (wanted sections ''programs'')
             (entry_for ''program'' ''title'' ''description'' ''/student-mobility/programs/'' repr)
             (matching m program_keys (programs_collection s)) ps"
    "contributes (wanted sections ''news'')
             (entry_for ''news'' ''title'' ''content'' ''/news-media/'' repr)
             (matching m news_keys (news_collection s)) ns"
    "contributes (wanted sections ''events'')
             (entry_for ''event'' ''title'' ''description'' ''/visits-delegations-events/'' repr)
             (matching m event_keys (events_collection s)) es"
    "contributes (wanted sections ''partnerships'')
             (entry_for ''partnership'' ''partnerName'' ''details'' ''/global-partnerships/'' repr)
             (matching m partnership_keys (partnerships_collection s)) qs"
  proof -
    show "contributes (wanted sections ''programs'')
             (entry_for ''program'' ''title'' ''description'' ''/student-mobility/programs/'' repr)
             (matching m program_keys (programs_collection s)) ps"
      by (rule search_section_Inr[OF assms ps]) (rule program_hit_entry)
    show "contributes (wanted sections ''news'')
             (entry_for ''news'' ''title'' ''content'' ''/news-media/'' repr)
             (matching m news_keys (news_collection s)) ns"
      by (rule search_section_Inr[OF assms ns]) (simp add: news_hit_def entry_hit_entry)
    show "contributes (wanted sections ''events'')
             (entry_for ''event'' ''title'' ''description'' ''/visits-delegations-events/'' repr)
             (matching m event_keys (events_collection s)) es"
      by (rule search_section_Inr[OF assms es]) (simp add: event_hit_def entry_hit_entry)
    show "contributes (wanted sections ''partnerships'')
             (entry_for ''partnership'' ''partnerName'' ''details'' ''/global-partnerships/'' repr)
             (matching m partnership_keys (partnerships_collection s)) qs"
      by (rule search_section_Inr[OF assms qs]) (simp add: partnership_hit_def entry_hit_entry)
  qed
  have le: "length ps \<le> 5" "length ns \<le> 5" "length es \<le> 5" "length qs \<le> 5"
    using c by (auto simp: contributes_def split: if_splits)
  have sh: "list_all (hit_shape repr ''program'' ''/student-mobility/programs/'') ps"
    "list_all (hit_shape repr ''news'' ''/news-media/'') ns"
    "list_all (hit_shape repr ''event'' ''/visits-delegations-events/'') es"
    "list_all (hit_shape repr ''partnership'' ''/global-partnerships/'') qs"
    using search_section_all[OF ps, of "hit_shape repr ''program'' ''/student-mobility/programs/''"]
      search_section_all[OF ns, of "hit_shape repr ''news'' ''/news-media/''"]
      search_section_all[OF es, of "hit_shape repr ''event'' ''/visits-delegations-events/''"]
      search_section_all[OF qs, of "hit_shape repr ''partnership'' ''/global-partnerships/''"]
    by (auto simp: news_hit_def event_hit_def partnership_hit_def
        intro: program_hit_shape entry_hit_shape)
  have "results r = ps @ ns @ es @ qs" by (simp add: r)
  with c le sh
  show "\<exists>ps ns es qs.
           results r = ps @ ns @ es @ qs \<and>
           contributes (wanted sections ''programs'')
             (entry_for ''program'' ''title'' ''description'' ''/student-mobility/programs/'' repr)
             (matching m program_keys (programs_collection s)) ps \<and>
           contributes (wanted sections ''news'')
             (entry_for ''news'' ''title'' ''content'' ''/news-media/'' repr)
             (matching m news_keys (news_collection s)) ns \<and>
           contributes (wanted sections ''events'')
             (entry_for ''event'' ''title'' ''description'' ''/visits-delegations-events/'' repr)
             (matching m event_keys (events_collection s)) es \<and>
           contributes (wanted sections ''partnerships'')
             (entry_for ''partnership'' ''partnerName'' ''details'' ''/global-partnerships/'' repr)
             (matching m partnership_keys (partnerships_collection s)) qs \<and>
           length ps \<le> 5 \<and> length ns \<le> 5 \<and> length es \<le> 5 \<and> length qs \<le> 5 \<and>
           list_all (hit_shape repr ''program'' ''/student-mobility/programs/'') ps \<and>
           list_all (hit_shape repr ''news'' ''/news-media/'') ns \<and>
           list_all (hit_shape repr ''event'' ''/visits-delegations-events/'') es \<and>
           list_all (hit_shape repr ''partnership'' ''/global-partnerships/'') qs"
    by (intro exI conjI)
  show "total_results r = int (length (results r))" by (simp add: r)
next
  assume wf: "(\<forall>d \<in> set (programs_collection s). has_str d ''title'' \<and> has_str d ''description'') \<and>
      (\<forall>d \<in> set (news_collection s).
          has_str d ''id'' \<and> has_str d ''title'' \<and> has_str d ''content'') \<and>
      (\<forall>d \<in> set (events_collection s).
          has_str d ''id'' \<and> has_str d ''title'' \<and> has_str d ''description'') \<and>
      (\<forall>d \<in> set (partnerships_collection s).
          has_str d ''id'' \<and> has_str d ''partnerName'' \<and> has_str d ''details'')"
  note tot = search_section_total[where rx = rx and query = query and m = m, OF assms]
  have "\<exists>ps. search_section rx query sections ''programs'' program_keys
      (program_hit repr) (programs_collection s) = Inr ps"
    using wf by (intro tot program_hit_total) auto
  then obtain ps where ps: "search_section rx query sections ''programs'' program_keys
      (program_hit repr) (programs_collection s) = Inr ps" ..
  have "\<exists>ns. search_section rx query sections ''news'' news_keys
      (news_hit repr) (news_collection s) = Inr ns"
    unfolding news_hit_def
    using wf by (intro tot entry_hit_total) auto
  then obtain ns where ns: "search_section rx query sections ''news'' news_keys
      (news_hit repr) (news_collection s) = Inr ns" ..
  have "\<exists>es. search_section rx query sections ''events'' event_keys
      (event_hit repr) (events_collection s) = Inr es"
    unfolding event_hit_def
    using wf by (intro tot entry_hit_total) auto
  then obtain es where es: "search_section rx query sections ''events'' event_keys
      (event_hit repr) (events_collection s) = Inr es" ..
  have "\<exists>qs. search_section rx query sections ''partnerships'' partnership_keys
      (partnership_hit repr) (partnerships_collection s) = Inr qs"
    unfolding partnership_hit_def
    using wf by (intro tot entry_hit_total) auto
  then obtain qs where qs: "search_section rx query sections ''partnerships''
      partnership_keys (partnership_hit repr) (partnerships_collection s) = Inr qs" ..
  show "\<exists>r'. global_search rx repr query sections s = Inr r'"
    unfolding global_search_def by (simp add: ps ns es qs Let_def)
next
  assume "matching m program_keys (programs_collection s) = [] \<and>
      matching m news_keys (news_collection s) = [] \<and>
      matching m event_keys (events_collection s) = [] \<and>
      matching m partnership_keys (partnerships_collection s) = []"
  then show "global_search rx repr query sections s = Inr \<lparr>results = [], total_results = 0\<rparr>"
    unfolding global_search_def
    by (simp add: search_section_none[where rx = rx and query = query and m = m, OF assms])
qed

lemma contains_replicate:
  "p \<noteq> [] \<Longrightarrow> c \<notin> set p \<Longrightarrow> \<not> contains p (replicate n c)"
proof (induction n)
  case 0
  then show ?case by simp
next
  case (Suc n)
  have "take (length p) (c # replicate n c) \<noteq> p"
  proof
    assume e: "take (length p) (c # replicate n c) = p"
    from Suc.prems(1) obtain x xs where p: "p = x # xs" by (cases p) auto
    from e have "x = c" unfolding p by simp
    with Suc.prems(2) show False unfolding p by simp
  qed
  with Suc show ?case by simp
qed

lemmas search_defs =
  global_search_def search_section_def wanted_def find_regex_def plain_def
  matching_def regex_field_def program_keys_def news_keys_def event_keys_def
  partnership_keys_def sample_db_def empty_db_def sample_program_def sample_news_def
  sample_event_def sample_partnership_def news_hit_def event_hit_def partnership_hit_def
  entry_hit_def program_hit_def subscript_def slice200_def py_str_def

lemma sample_search:
  "global_search plain (\<lambda>v. []) ''ar'' None sample_db =
     Inr \<lparr>results =
       [[(''type'', VStr ''news''), (''id'', VStr ''n1''), (''title'', VStr ''award 1''),
         (''description'', VStr (replicate 200 (CHR ''x''))), (''url'', VStr ''/news-media/n1'')],
        [(''type'', VStr ''news''), (''id'', VStr ''n2''), (''title'', VStr ''award 2''),
         (''description'', VStr (replicate 200 (CHR ''x''))), (''url'', VStr ''/news-media/n2'')],
        [(''type'', VStr ''news''), (''id'', VStr ''n3''), (''title'', VStr ''award 3''),
         (''description'', VStr (replicate 200 (CHR ''x''))), (''url'', VStr ''/news-media/n3'')],
        [(''type'', VStr ''news''), (''id'', VStr ''n4''), (''title'', VStr ''award 4''),
         (''description'', VStr (replicate 200 (CHR ''x''))), (''url'', VStr ''/news-media/n4'')],
        [(''type'', VStr ''news''), (''id'', VStr ''n5''), (''title'', VStr ''award 5''),
         (''description'', VStr (replicate 200 (CHR ''x''))), (''url'', VStr ''/news-media/n5'')],
        [(''type'', VStr ''event''), (''id'', VStr ''e1''), (''title'', VStr ''award ceremony''),
         (''description'', VStr ''Annual education fair''),
         (''url'', VStr ''/visits-delegations-events/e1'')],
        [(''type'', VStr ''partnership''), (''id'', VStr ''q1''), (''title'', VStr ''ETH Zurich''),
         (''description'', VStr ''Joint research initiatives''),
         (''url'', VStr ''/global-partnerships/q1'')]],
       total_results = 7\<rparr>"
  by (simp add: search_defs contains_replicate)

lemma sample_search_programs:
  "global_search plain (\<lambda>v. []) ''er'' None sample_db =
     Inr \<lparr>results =
       [[(''type'', VStr ''program''), (''id'', VStr ''p1''),
         (''title'', VStr ''Engineering Innovation''),
         (''description'', VStr ''World-class computer science program''),
         (''url'', VStr ''/student-mobility/programs/p1'')],
        [(''type'', VStr ''program''), (''id'', VStr ''p2''),
         (''title'', VStr ''International Business''),
         (''description'', VStr ''World-class computer science program''),
         (''url'', VStr ''/student-mobility/programs/p2'')],
        [(''type'', VStr ''program''), (''id'', VStr ''p3''),
         (''title'', VStr ''Computer Science''),
         (''description'', VStr ''World-class computer science program''),
         (''url'', VStr ''/student-mobility/programs/p3'')],
        [(''type'', VStr ''event''), (''id'', VStr ''e1''), (''title'', VStr ''award ceremony''),
         (''description'', VStr ''Annual education fair''),
         (''url'', VStr ''/visits-delegations-events/e1'')],
        [(''type'', VStr ''partnership''), (''id'', VStr ''q1''), (''title'', VStr ''ETH Zurich''),
         (''description'', VStr ''Joint research initiatives''),
         (''url'', VStr ''/global-partnerships/q1'')]],
       total_results = 5\<rparr>"
  by (simp add: search_defs contains_replicate)

lemma sample_matching:
  "matching (contains ''ar'') program_keys (programs_collection sample_db) = []"
  "length (matching (contains ''ar'') news_keys (news_collection sample_db)) = 7"
  "length (matching (contains ''ar'') event_keys (events_collection sample_db)) = 1"
  "length (matching (contains ''ar'') partnership_keys (partnerships_collection sample_db)) = 1"
  "matching (contains ''zz'') program_keys (programs_collection sample_db) = []"
  "matching (contains ''zz'') news_keys (news_collection sample_db) = []"
  "matching (contains ''zz'') event_keys (events_collection sample_db) = []"
  "matching (contains ''zz'') partnership_keys (partnerships_collection sample_db) = []"
  by (simp_all add: search_defs contains_replicate)

lemma sample_matching_programs:
  "matching (contains ''er'') program_keys (programs_collection sample_db) =
     [sample_program ''p1'' ''Engineering Innovation'' 10,
      sample_program ''p2'' ''International Business'' 20,
      sample_program ''p3'' ''Computer Science'' 30]"
  "matching (contains ''er'') news_keys (news_collection sample_db) = []"
  "length (matching (contains ''er'') event_keys (events_collection sample_db)) = 1"
  "length (matching (contains ''er'') partnership_keys (partnerships_collection sample_db)) = 1"
  by (simp_all add: search_defs contains_replicate)

lemma sample_strings:
  "list_all (\<lambda>d. has_str d ''title'' \<and> has_str d ''description'') (programs_collection sample_db)"
  "list_all (\<lambda>d. has_str d ''id'' \<and> has_str d ''title'' \<and> has_str d ''content'')
     (news_collection sample_db)"
  "list_all (\<lambda>d. has_str d ''id'' \<and> has_str d ''title'' \<and> has_str d ''description'')
     (events_collection sample_db)"
  "list_all (\<lambda>d. has_str d ''id'' \<and> has_str d ''partnerName'' \<and> has_str d ''details'')
     (partnerships_collection sample_db)"
  by (simp_all add: has_str_def sample_db_def empty_db_def sample_program_def sample_news_def
      sample_event_def sample_partnership_def)

lemma plain_samples:
  "plain ''ar'' = Some (contains ''ar'')" "plain ''er'' = Some (contains ''er'')"
  "plain ''zz'' = Some (contains ''zz'')" "plain ''(('' = None"
  by (simp_all add: plain_def)

text \<open>
  C6.  When the store accepts the query as a regular expression: whenever
  \<^verbatim>\<open>global_search\<close> returns, its result list is the concatenation of four blocks, in the order
  programs, news, events, partnerships; the block of a section that is not selected is
  empty, and the block of a selected section holds one entry for each of the first five
  matching documents of its collection, in their order, so it has \<open>min 5 n\<close> entries when \<open>n\<close>
  documents match.  The entry of a record has the keys \<^verbatim>\<open>type\<close>, \<^verbatim>\<open>id\<close>, \<^verbatim>\<open>title\<close>, \<^verbatim>\<open>description\<close>,
  \<^verbatim>\<open>url\<close>: the type of its block, the id and the title of the record, the first 200
  characters of its text, and the URL prefix of its block followed by the id; \<^verbatim>\<open>total\<close> is the
  length of the list.  The call does return when the stored documents carry the fields it
  reads as strings, and when no document matches it returns the empty list with total 0.
  When the store refuses the query, the search raises as soon as one of the four sections
  is selected, and the route answers 500.
\<close>

theorem search_results:
  "(rx query = Some m \<longrightarrow>
     (global_search rx repr query sections s = Inr r \<longrightarrow>
        (\<exists>ps ns es qs.
           results r = ps @ ns @ es @ qs \<and>
           contributes (wanted sections ''programs'')
             (entry_for ''program'' ''title'' ''description'' ''/student-mobility/programs/'' repr)
             (matching m program_keys (programs_collection s)) ps \<and>
           contributes (wanted sections ''news'')
             (entry_for ''news'' ''title'' ''content'' ''/news-media/'' repr)
             (matching m news_keys (news_collection s)) ns \<and>
           contributes (wanted sections ''events'')
             (entry_for ''event'' ''title'' ''description'' ''/visits-delegations-events/'' repr)
             (matching m event_keys (events_collection s)) es \<and>
           contributes (wanted sections ''partnerships'')
             (entry_for ''partnership'' ''partnerName'' ''details'' ''/global-partnerships/'' repr)
             (matching m partnership_keys (partnerships_collection s)) qs \<and>
           length ps \<le> 5 \<and> length ns \<le> 5 \<and> length es \<le> 5 \<and> length qs \<le> 5 \<and>
           list_all (hit_shape repr ''program'' ''/student-mobility/programs/'') ps \<and>
           list_all (hit_shape repr ''news'' ''/news-media/'') ns \<and>
           list_all (hit_shape repr ''event'' ''/visits-delegations-events/'') es \<and>
           list_all (hit_shape repr ''partnership'' ''/global-partnerships/'') qs) \<and>
        total_results r = int (length (results r))) \<and>
     ((\<forall>d \<in> set (programs_collection s). has_str d ''title'' \<and> has_str d ''description'') \<and>
      (\<forall>d \<in> set (news_collection s).
          has_str d ''id'' \<and> has_str d ''title'' \<and> has_str d ''content'') \<and>
      (\<forall>d \<in> set (events_collection s).
          has_str d ''id'' \<and> has_str d ''title'' \<and> has_str d ''description'') \<and>
      (\<forall>d \<in> set (partnerships_collection s).
          has_str d ''id'' \<and> has_str d ''partnerName'' \<and> has_str d ''details'') \<longrightarrow>
        (\<exists>r'. global_search rx repr query sections s = Inr r')) \<and>
     (matching m program_keys (programs_collection s) = [] \<and>
      matching m news_keys (news_collection s) = [] \<and>
      matching m event_keys (events_collection s) = [] \<and>
      matching m partnership_keys (partnerships_collection s) = [] \<longrightarrow>
        global_search rx repr query sections s = Inr \<lparr>results = [], total_results = 0\<rparr>)) \<and>
   (rx query = None \<and>
    (wanted sections ''programs'' \<or> wanted sections ''news'' \<or> wanted sections ''events'' \<or>
     wanted sections ''partnerships'') \<longrightarrow>
      global_search rx repr query sections s = Inl OperationFailure) \<and>
   (rx query = None \<and> 2 \<le> length query \<longrightarrow>
      global_search_route rx repr query None s = Inl (HTTPException 500 ''Internal server error''))"
proof (intro conjI)
  show "rx query = Some m \<longrightarrow>
     (global_search rx repr query sections s = Inr r \<longrightarrow>
        (\<exists>ps ns es qs.
           results r = ps @ ns @ es @ qs \<and>
           contributes (wanted sections ''programs'')
             (entry_for ''program'' ''title'' ''description'' ''/student-mobility/programs/'' repr)
             (matching m program_keys (programs_collection s)) ps \<and>
           contributes (wanted sections ''news'')
             (entry_for ''news'' ''title'' ''content'' ''/news-media/'' repr)
             (matching m news_keys (news_collection s)) ns \<and>
           contributes (wanted sections ''events'')
             (entry_for ''event'' ''title'' ''description'' ''/visits-delegations-events/'' repr)
             (matching m event_keys (events_collection s)) es \<and>
           contributes (wanted sections ''partnerships'')
             (entry_for ''partnership'' ''partnerName'' ''details'' ''/global-partnerships/'' repr)
             (matching m partnership_keys (partnerships_collection s)) qs \<and>
           length ps \<le> 5 \<and> length ns \<le> 5 \<and> length es \<le> 5 \<and> length qs \<le> 5 \<and>
           list_all (hit_shape repr ''program'' ''/student-mobility/programs/'') ps \<and>
           list_all (hit_shape repr ''news'' ''/news-media/'') ns \<and>
           list_all (hit_shape repr ''event'' ''/visits-delegations-events/'') es \<and>
           list_all (hit_shape repr ''partnership'' ''/global-partnerships/'') qs) \<and>
        total_results r = int (length (results r))) \<and>
     ((\<forall>d \<in> set (programs_collection s). has_str d ''title'' \<and> has_str d ''description'') \<and>
      (\<forall>d \<in> set (news_collection s).
          has_str d ''id'' \<and> has_str d ''title'' \<and> has_str d ''content'') \<and>
      (\<forall>d \<in> set (events_collection s).
          has_str d ''id'' \<and> has_str d ''title'' \<and> has_str d ''description'') \<and>
      (\<forall>d \<in> set (partnerships_collection s).
          has_str d ''id'' \<and> has_str d ''partnerName'' \<and> has_str d ''details'') \<longrightarrow>
        (\<exists>r'. global_search rx repr query sections s = Inr r')) \<and>
     (matching m program_keys (programs_collection s) = [] \<and>
      matching m news_keys (news_collection s) = [] \<and>
      matching m event_keys (events_collection s) = [] \<and>
      matching m partnership_keys (partnerships_collection s) = [] \<longrightarrow>
        global_search rx repr query sections s = Inr \<lparr>results = [], total_results = 0\<rparr>)"
    by (rule impI) (rule search_accepted)
  show "rx query = None \<and>
    (wanted sections ''programs'' \<or> wanted sections ''news'' \<or> wanted sections ''events'' \<or>
     wanted sections ''partnerships'') \<longrightarrow>
      global_search rx repr query sections s = Inl OperationFailure"
    using search_refused[where rx = rx and query = query] by blast
  show "rx query = None \<and> 2 \<le> length query \<longrightarrow>
      global_search_route rx repr query None s = Inl (HTTPException 500 ''Internal server error'')"
  proof
    assume a: "rx query = None \<and> 2 \<le> length query"
    have "global_search rx repr query None s = Inl OperationFailure"
      by (rule search_refused[where rx = rx and query = query]) (simp_all add: a wanted_None)
    then show "global_search_route rx repr query None s =
        Inl (HTTPException 500 ''Internal server error'')"
      using a by (simp add: global_search_route_def)
  qed
qed

theorem search_results_witness:
  "plain ''ar'' = Some (contains ''ar'') \<and>
   plain ''er'' = Some (contains ''er'') \<and>
   plain ''zz'' = Some (contains ''zz'') \<and>
   list_all (\<lambda>d. has_str d ''title'' \<and> has_str d ''description'') (programs_collection sample_db) \<and>
   list_all (\<lambda>d. has_str d ''id'' \<and> has_str d ''title'' \<and> has_str d ''content'')
     (news_collection sample_db) \<and>
   list_all (\<lambda>d. has_str d ''id'' \<and> has_str d ''title'' \<and> has_str d ''description'')
     (events_collection sample_db) \<and>
   list_all (\<lambda>d. has_str d ''id'' \<and> has_str d ''partnerName'' \<and> has_str d ''details'')
     (partnerships_collection sample_db) \<and>
   length (matching (contains ''ar'') news_keys (news_collection sample_db)) = 7 \<and>
   (\<exists>r ps ns es qs.
      global_search plain (\<lambda>v. []) ''ar'' None sample_db = Inr r \<and>
      results r = ps @ ns @ es @ qs \<and>
      length ps = 0 \<and> length ns = 5 \<and> length es = 1 \<and> length qs = 1 \<and>
      list_all (hit_shape (\<lambda>v. []) ''news'' ''/news-media/'') ns \<and>
      list_all (hit_shape (\<lambda>v. []) ''event'' ''/visits-delegations-events/'') es \<and>
      list_all (hit_shape (\<lambda>v. []) ''partnership'' ''/global-partnerships/'') qs \<and>
      map (\<lambda>h. map_of h ''id'') (results r) =
        map (\<lambda>i. Some (VStr i)) [''n1'', ''n2'', ''n3'', ''n4'', ''n5'', ''e1'', ''q1''] \<and>
      map (\<lambda>h. map_of h ''description'') ns = replicate 5 (Some (VStr (replicate 200 (CHR ''x'')))) \<and>
      total_results r = 7) \<and>
   (\<exists>r ps ns es qs.
      global_search plain (\<lambda>v. []) ''er'' None sample_db = Inr r \<and>
      results r = ps @ ns @ es @ qs \<and>
      list_all2 (entry_for ''program'' ''title'' ''description'' ''/student-mobility/programs/''
                   (\<lambda>v. []))
        [sample_program ''p1'' ''Engineering Innovation'' 10,
         sample_program ''p2'' ''International Business'' 20,
         sample_program ''p3'' ''Computer Science'' 30] ps \<and>
      length ns = 0 \<and> length es = 1 \<and> length qs = 1 \<and>
      map (\<lambda>h. map_of h ''title'') (results r) =
        map (\<lambda>i. Some (VStr i)) [''Engineering Innovation'', ''International Business'',
          ''Computer Science'', ''award ceremony'', ''ETH Zurich''] \<and>
      map (\<lambda>h. map_of h ''url'') (results r) =
        map (\<lambda>i. Some (VStr i)) [''/student-mobility/programs/p1'',
          ''/student-mobility/programs/p2'', ''/student-mobility/programs/p3'',
          ''/visits-delegations-events/e1'', ''/global-partnerships/q1''] \<and>
      total_results r = 5) \<and>
   matching (contains ''zz'') news_keys (news_collection sample_db) = [] \<and>
   global_search plain (\<lambda>v. []) ''zz'' (Some [''news'', ''events'']) sample_db =
     Inr \<lparr>results = [], total_results = 0\<rparr> \<and>
   plain ''(('' = None \<and> wanted (Some [''news'', ''events'']) ''news'' \<and>
   global_search plain (\<lambda>v. []) ''(('' (Some [''news'', ''events'']) sample_db =
     Inl OperationFailure \<and>
   2 \<le> length ''(('' \<and>
   global_search_route plain (\<lambda>v. []) ''(('' None empty_db =
     Inl (HTTPException 500 ''Internal server error'')"
proof -
  let ?repr = "\<lambda>v::val. []::string"
  note rx = plain_samples
  note ar = search_results[where rx = plain and query = "''ar''" and m = "contains ''ar''"
      and repr = ?repr and sections = None and s = sample_db, THEN conjunct1, rule_format,
      OF rx(1)]
  note er = search_results[where rx = plain and query = "''er''" and m = "contains ''er''"
      and repr = ?repr and sections = None and s = sample_db, THEN conjunct1, rule_format,
      OF rx(2)]
  note zz = search_results[where rx = plain and query = "''zz''" and m = "contains ''zz''"
      and repr = ?repr and sections = "Some [''news'', ''events'']" and s = sample_db,
      THEN conjunct1, rule_format, OF rx(3)]
  note bad = search_results[where rx = plain and query = "''((''" and repr = ?repr
      and sections = "Some [''news'', ''events'']" and s = sample_db,
      THEN conjunct2, THEN conjunct1]
  note bad_route = search_results[where rx = plain and query = "''((''" and repr = ?repr
      and s = empty_db, THEN conjunct2, THEN conjunct2]
  have "\<exists>r. global_search plain ?repr ''ar'' None sample_db = Inr r"
    using ar[THEN conjunct2, THEN conjunct1] sample_strings by (simp add: list_all_iff)
  then obtain r where r: "global_search plain ?repr ''ar'' None sample_db = Inr r" ..
  from ar[where r = r, THEN conjunct1] r
  obtain ps ns es qs where parts: "results r = ps @ ns @ es @ qs"
    and c: "contributes (wanted None ''programs'')
             (entry_for ''program'' ''title'' ''description'' ''/student-mobility/programs/'' ?repr)
             (matching (contains ''ar'') program_keys (programs_collection sample_db)) ps"
      "contributes (wanted None ''news'')
             (entry_for ''news'' ''title'' ''content'' ''/news-media/'' ?repr)
             (matching (contains ''ar'') news_keys (news_collection sample_db)) ns"
      "contributes (wanted None ''events'')
             (entry_for ''event'' ''title'' ''description'' ''/visits-delegations-events/'' ?repr)
             (matching (contains ''ar'') event_keys (events_collection sample_db)) es"
      "contributes (wanted None ''partnerships'')
             (entry_for ''partnership'' ''partnerName'' ''details'' ''/global-partnerships/'' ?repr)
             (matching (contains ''ar'') partnership_keys (partnerships_collection sample_db)) qs"
    and sh: "list_all (hit_shape ?repr ''news'' ''/news-media/'') ns"
      "list_all (hit_shape ?repr ''event'' ''/visits-delegations-events/'') es"
      "list_all (hit_shape ?repr ''partnership'' ''/global-partnerships/'') qs"
    and tot: "total_results r = int (length (results r))"
    by blast
  from c have len: "length ps = 0" "length ns = 5" "length es = 1" "length qs = 1"
    by (simp_all add: contributes_def wanted_def sample_matching)
  from r have ev: "results r =
       [[(''type'', VStr ''news''), (''id'', VStr ''n1''), (''title'', VStr ''award 1''),
         (''description'', VStr (replicate 200 (CHR ''x''))), (''url'', VStr ''/news-media/n1'')],
        [(''type'', VStr ''news''), (''id'', VStr ''n2''), (''title'', VStr ''award 2''),
         (''description'', VStr (replicate 200 (CHR ''x''))), (''url'', VStr ''/news-media/n2'')],
        [(''type'', VStr ''news''), (''id'', VStr ''n3''), (''title'', VStr ''award 3''),
         (''description'', VStr (replicate 200 (CHR ''x''))), (''url'', VStr ''/news-media/n3'')],
        [(''type'', VStr ''news''), (''id'', VStr ''n4''), (''title'', VStr ''award 4''),
         (''description'', VStr (replicate 200 (CHR ''x''))), (''url'', VStr ''/news-media/n4'')],
        [(''type'', VStr ''news''), (''id'', VStr ''n5''), (''title'', VStr ''award 5''),
         (''description'', VStr (replicate 200 (CHR ''x''))), (''url'', VStr ''/news-media/n5'')],
        [(''type'', VStr ''event''), (''id'', VStr ''e1''), (''title'', VStr ''award ceremony''),
         (''description'', VStr ''Annual education fair''),
         (''url'', VStr ''/visits-delegations-events/e1'')],
        [(''type'', VStr ''partnership''), (''id'', VStr ''q1''), (''title'', VStr ''ETH Zurich''),
         (''description'', VStr ''Joint research initiatives''),
         (''url'', VStr ''/global-partnerships/q1'')]]"
    unfolding sample_search by auto
  have ids: "map (\<lambda>h. map_of h ''id'') (results r) =
        map (\<lambda>i. Some (VStr i)) [''n1'', ''n2'', ''n3'', ''n4'', ''n5'', ''e1'', ''q1'']"
    unfolding ev by simp
  from len(1) have ps: "ps = []" by simp
  from parts len(2) have ns: "ns = take 5 (results r)" unfolding ps by simp
  have descr: "map (\<lambda>h. map_of h ''description'') ns =
      replicate 5 (Some (VStr (replicate 200 (CHR ''x''))))"
    unfolding ns ev by (simp add: numeral_eq_Suc)
  from tot parts len have total: "total_results r = 7" by simp
  have ex: "\<exists>r ps ns es qs.
      global_search plain ?repr ''ar'' None sample_db = Inr r \<and>
      results r = ps @ ns @ es @ qs \<and>
      length ps = 0 \<and> length ns = 5 \<and> length es = 1 \<and> length qs = 1 \<and>
      list_all (hit_shape ?repr ''news'' ''/news-media/'') ns \<and>
      list_all (hit_shape ?repr ''event'' ''/visits-delegations-events/'') es \<and>
      list_all (hit_shape ?repr ''partnership'' ''/global-partnerships/'') qs \<and>
      map (\<lambda>h. map_of h ''id'') (results r) =
        map (\<lambda>i. Some (VStr i)) [''n1'', ''n2'', ''n3'', ''n4'', ''n5'', ''e1'', ''q1''] \<and>
      map (\<lambda>h. map_of h ''description'') ns = replicate 5 (Some (VStr (replicate 200 (CHR ''x'')))) \<and>
      total_results r = 7"
    apply (rule exI[where x = r], rule exI[where x = ps], rule exI[where x = ns])
    apply (rule exI[where x = es], rule exI[where x = qs])
    by (intro conjI r parts len sh ids descr total)
  have "\<exists>r. global_search plain ?repr ''er'' None sample_db = Inr r"
    using er[THEN conjunct2, THEN conjunct1] sample_strings by (simp add: list_all_iff)
  then obtain r2 where r2: "global_search plain ?repr ''er'' None sample_db = Inr r2" ..
  from er[where r = r2, THEN conjunct1] r2
  obtain ps2 ns2 es2 qs2 where parts2: "results r2 = ps2 @ ns2 @ es2 @ qs2"
    and c2: "contributes (wanted None ''programs'')
             (entry_for ''program'' ''title'' ''description'' ''/student-mobility/programs/'' ?repr)
             (matching (contains ''er'') program_keys (programs_collection sample_db)) ps2"
      "contributes (wanted None ''news'')
             (entry_for ''news'' ''title'' ''content'' ''/news-media/'' ?repr)
             (matching (contains ''er'') news_keys (news_collection sample_db)) ns2"
      "contributes (wanted None ''events'')
             (entry_for ''event'' ''title'' ''description'' ''/visits-delegations-events/'' ?repr)
             (matching (contains ''er'') event_keys (events_collection sample_db)) es2"
      "contributes (wanted None ''partnerships'')
             (entry_for ''partnership'' ''partnerName'' ''details'' ''/global-partnerships/'' ?repr)
             (matching (contains ''er'') partnership_keys (partnerships_collection sample_db)) qs2"
    and tot2: "total_results r2 = int (length (results r2))"
    by blast
  from c2(1) have pe: "list_all2 (entry_for ''program'' ''title'' ''description''
        ''/student-mobility/programs/'' ?repr)
        [sample_program ''p1'' ''Engineering Innovation'' 10,
         sample_program ''p2'' ''International Business'' 20,
         sample_program ''p3'' ''Computer Science'' 30] ps2"
    by (simp add: contributes_def wanted_def sample_matching_programs)
  from c2 have len2: "length ns2 = 0" "length es2 = 1" "length qs2 = 1" "length ps2 = 3"
    by (simp_all add: contributes_def wanted_def sample_matching_programs)
  from tot2 parts2 len2 have total2: "total_results r2 = 5" by simp
  from r2 have ev2: "results r2 =
       [[(''type'', VStr ''program''), (''id'', VStr ''p1''),
         (''title'', VStr ''Engineering Innovation''),
         (''description'', VStr ''World-class computer science program''),
         (''url'', VStr ''/student-mobility/programs/p1'')],
        [(''type'', VStr ''program''), (''id'', VStr ''p2''),
         (''title'', VStr ''International Business''),
         (''description'', VStr ''World-class computer science program''),
         (''url'', VStr ''/student-mobility/programs/p2'')],
        [(''type'', VStr ''program''), (''id'', VStr ''p3''),
         (''title'', VStr ''Computer Science''),
         (''description'', VStr ''World-class computer science program''),
         (''url'', VStr ''/student-mobility/programs/p3'')],
        [(''type'', VStr ''event''), (''id'', VStr ''e1''), (''title'', VStr ''award ceremony''),
         (''description'', VStr ''Annual education fair''),
         (''url'', VStr ''/visits-delegations-events/e1'')],
        [(''type'', VStr ''partnership''), (''id'', VStr ''q1''), (''title'', VStr ''ETH Zurich''),
         (''description'', VStr ''Joint research initiatives''),
         (''url'', VStr ''/global-partnerships/q1'')]]"
    unfolding sample_search_programs by auto
  have titles: "map (\<lambda>h. map_of h ''title'') (results r2) =
        map (\<lambda>i. Some (VStr i)) [''Engineering Innovation'', ''International Business'',
          ''Computer Science'', ''award ceremony'', ''ETH Zurich'']"
    unfolding ev2 by simp
  have urls: "map (\<lambda>h. map_of h ''url'') (results r2) =
        map (\<lambda>i. Some (VStr i)) [''/student-mobility/programs/p1'',
          ''/student-mobility/programs/p2'', ''/student-mobility/programs/p3'',
          ''/visits-delegations-events/e1'', ''/global-partnerships/q1'']"
    unfolding ev2 by simp
  have ex2: "\<exists>r ps ns es qs.
      global_search plain ?repr ''er'' None sample_db = Inr r \<and>
      results r = ps @ ns @ es @ qs \<and>
      list_all2 (entry_for ''program'' ''title'' ''description'' ''/student-mobility/programs/''
                   ?repr)
        [sample_program ''p1'' ''Engineering Innovation'' 10,
         sample_program ''p2'' ''International Business'' 20,
         sample_program ''p3'' ''Computer Science'' 30] ps \<and>
      length ns = 0 \<and> length es = 1 \<and> length qs = 1 \<and>
      map (\<lambda>h. map_of h ''title'') (results r) =
        map (\<lambda>i. Some (VStr i)) [''Engineering Innovation'', ''International Business'',
          ''Computer Science'', ''award ceremony'', ''ETH Zurich''] \<and>
      map (\<lambda>h. map_of h ''url'') (results r) =
        map (\<lambda>i. Some (VStr i)) [''/student-mobility/programs/p1'',
          ''/student-mobility/programs/p2'', ''/student-mobility/programs/p3'',
          ''/visits-delegations-events/e1'', ''/global-partnerships/q1''] \<and>
      total_results r = 5"
    apply (rule exI[where x = r2], rule exI[where x = ps2], rule exI[where x = ns2])
    apply (rule exI[where x = es2], rule exI[where x = qs2])
    by (intro conjI r2 parts2 pe len2(1,2,3) titles urls total2)
  have none: "global_search plain ?repr ''zz'' (Some [''news'', ''events'']) sample_db =
     Inr \<lparr>results = [], total_results = 0\<rparr>"
    using zz[THEN conjunct2, THEN conjunct2] sample_matching by simp
  have w: "wanted (Some [''news'', ''events'']) ''news''" by (simp add: wanted_def)
  have refused: "global_search plain ?repr ''(('' (Some [''news'', ''events'']) sample_db =
     Inl OperationFailure"
    using bad rx(4) w by blast
  have two: "2 \<le> length ''((''" by simp
  have route: "global_search_route plain ?repr ''(('' None empty_db =
     Inl (HTTPException 500 ''Internal server error'')"
    using bad_route rx(4) two by blast
  show ?thesis
    by (intro conjI rx(1,2,3) sample_strings sample_matching(2) ex ex2 sample_matching(6) none
        rx(4) w refused two route)
qed

theorem search_refused_counterexample:
  "length ''(('' = 2 \<and> plain ''(('' = None \<and>
   global_search plain (\<lambda>v. []) ''(('' None sample_db = Inl OperationFailure \<and>
   global_search_route plain (\<lambda>v. []) ''(('' None sample_db =
     Inl (HTTPException 500 ''Internal server error'')"
  by (simp add: global_search_route_def search_defs)

end
